(* ===== verification/Prelude.thy ===== *)
theory Prelude
  imports Main "HOL-Library.Word"
begin

text \<open>
  Shared vocabulary of the development: the compile-time constants of
  \<^verbatim>\<open>src/main.h\<close>, \<^verbatim>\<open>src/routing.h\<close> and \<^verbatim>\<open>src/connections.h\<close> (C macros, hence
  abbreviations), the type names of node identifiers and slot indices, the
  process-level failures of the program (every \<^verbatim>\<open>error(...)\<close> call exits the
  process; every out-of-bounds access or NULL dereference is undefined
  behaviour) as one \<open>error\<close> datatype, the first-match search that every
  \<^verbatim>\<open>for (i = 0; i < N; i++) if (...) return i;\<close> loop of the sources performs,
  and the list and sum lemmas the component theories share.
\<close>

section \<open>Constants and types of the C sources\<close>

text \<open>\<^verbatim>\<open>NodeID\<close> and \<^verbatim>\<open>NodeIndex\<close> are \<^verbatim>\<open>signed char\<close>; values are kept as
  \<open>int\<close> and the reading of \<^verbatim>\<open>%hhd\<close> (which wraps modulo 256) is written out
  where a message is parsed.\<close>

type_synonym node_id = int
type_synonym node_index = int

abbreviation MAX_NODES :: nat where "MAX_NODES \<equiv> 16"
abbreviation MAX_NODE_ID :: int where "MAX_NODE_ID \<equiv> 99"
abbreviation MAX_RECIPIENTS :: nat where "MAX_RECIPIENTS \<equiv> MAX_NODES - 1"
abbreviation MAX_NEIGHBORS :: nat where "MAX_NEIGHBORS \<equiv> MAX_NODES - 1"
abbreviation MAX_INBOUND_CHORDS :: nat where "MAX_INBOUND_CHORDS \<equiv> MAX_NODES - 2"
abbreviation MAX_CONNECTIONS :: nat where "MAX_CONNECTIONS \<equiv> MAX_INBOUND_CHORDS + 4"
abbreviation MAX_NODE_MESSAGE_SIZE :: nat where "MAX_NODE_MESSAGE_SIZE \<equiv> 256"
abbreviation MAX_PATH_STR_LENGTH :: nat where "MAX_PATH_STR_LENGTH \<equiv> 47"
abbreviation NO_NODE_ID :: node_id where "NO_NODE_ID \<equiv> -1"
abbreviation NO_NODE_INDEX :: node_index where "NO_NODE_INDEX \<equiv> -1"

text \<open>Reading a \<^verbatim>\<open>signed char\<close> through \<^verbatim>\<open>%hhd\<close>: the converted value is
  truncated to 8 bits and read back in two's complement.\<close>

definition to_signed_char :: "int \<Rightarrow> int" where
  "to_signed_char n = sint (word_of_int n :: 8 word)"

section \<open>Process-level failures\<close>

text \<open>One constructor per \<^verbatim>\<open>error(...)\<close> site that can be reached from the
  modelled code, and one for undefined behaviour (an access outside an array or
  through a NULL pointer), which the C standard leaves unconstrained and the
  model therefore treats as a failure of its own.\<close>

datatype error =
    Ran_out_of_recipients          \<comment> \<open>\<^verbatim>\<open>routing.c\<close> \<^verbatim>\<open>get_recipient_index\<close>\<close>
  | Ran_out_of_neighbors           \<comment> \<open>\<^verbatim>\<open>routing.c\<close> \<^verbatim>\<open>get_neighbor_index\<close>\<close>
  | Path_hop_count_assertion       \<comment> \<open>\<^verbatim>\<open>routing.c\<close> \<^verbatim>\<open>path_to_string\<close>\<close>
  | No_connection_space            \<comment> \<open>\<^verbatim>\<open>connections.c\<close> \<^verbatim>\<open>add_connection\<close>\<close>
  | Assertion_failed string        \<comment> \<open>the \<^verbatim>\<open>Assertion failed\<close> sites of \<^verbatim>\<open>ring.c\<close>\<close>
  | Undefined_behaviour string
  | Fatal string                   \<comment> \<open>another \<^verbatim>\<open>error(...)\<close> exit, with its message\<close>
  | Fuel_exhausted                 \<comment> \<open>not a failure of the program: the bound on nested
                                     broken-socket handling chosen for a run of the model\<close>

section \<open>Sequencing of fallible steps\<close>

definition err_bind :: "error + 'a \<Rightarrow> ('a \<Rightarrow> error + 'b) \<Rightarrow> error + 'b" where
  "err_bind m f = (case m of Inl e \<Rightarrow> Inl e | Inr a \<Rightarrow> f a)"

text \<open>A sequence of fallible steps whose values are not used (a loop of
  prints): the first failure, if any.\<close>

fun first_error :: "(error + 'a) list \<Rightarrow> error + unit" where
  "first_error [] = Inr ()"
| "first_error (Inl e # _) = Inl e"
| "first_error (Inr _ # xs) = first_error xs"

lemma err_bind_Inl [simp]: "err_bind (Inl e) f = Inl e"
  by (simp add: err_bind_def)

lemma err_bind_Inr [simp]: "err_bind (Inr a) f = f a"
  by (simp add: err_bind_def)

lemma err_bind_eq_Inr:
  "err_bind m f = Inr b \<longleftrightarrow> (\<exists>a. m = Inr a \<and> f a = Inr b)"
  by (cases m) (simp_all add: err_bind_def)

text \<open>A property of the value of a fallible step, vacuous for a failure: the
  form in which an invariant is shown to survive a sequence of steps, one
  \<open>err_bind\<close> at a time.\<close>

definition res_ok :: "('a \<Rightarrow> bool) \<Rightarrow> error + 'a \<Rightarrow> bool" where
  "res_ok P r \<longleftrightarrow> (case r of Inl _ \<Rightarrow> True | Inr a \<Rightarrow> P a)"

named_theorems wf_steps "preservation of the well-formedness of the state by the operations"

lemma res_ok_Inl [simp]: "res_ok P (Inl e)"
  by (simp add: res_ok_def)

lemma res_ok_Inr [simp]: "res_ok P (Inr a) \<longleftrightarrow> P a"
  by (simp add: res_ok_def)

lemma res_ok_bind:
  "res_ok P m \<Longrightarrow> (\<And>a. P a \<Longrightarrow> res_ok Q (f a)) \<Longrightarrow> res_ok Q (err_bind m f)"
  by (cases m) simp_all

lemma res_ok_mono:
  "res_ok P m \<Longrightarrow> (\<And>a. P a \<Longrightarrow> Q a) \<Longrightarrow> res_ok Q m"
  by (cases m) simp_all

section \<open>First-match search over a fixed array\<close>

text \<open>The index of the first element that satisfies \<open>P\<close>, as the C loops
  \<^verbatim>\<open>for (i = 0; i < N; i++) if (P(a[i])) return i;\<close> compute it.\<close>

fun first_index :: "('a \<Rightarrow> bool) \<Rightarrow> 'a list \<Rightarrow> nat option" where
  "first_index P [] = None"
| "first_index P (x # xs) = (if P x then Some 0 else map_option Suc (first_index P xs))"

named_theorems slot_search "facts about first-match searches over fixed arrays"

lemma first_index_None_iff [simp, slot_search]:
  "first_index P xs = None \<longleftrightarrow> (\<forall>x\<in>set xs. \<not> P x)"
  by (induction xs) auto

lemma first_index_Some_iff [slot_search]:
  "first_index P xs = Some i \<longleftrightarrow> i < length xs \<and> P (xs ! i) \<and> (\<forall>j<i. \<not> P (xs ! j))"
proof (induction xs arbitrary: i)
  case Nil
  then show ?case by simp
next
  case (Cons x xs)
  show ?case
  proof (cases i)
    case 0
    then show ?thesis by auto
  next
    case (Suc k)
    have "(\<forall>j<Suc k. \<not> P ((x # xs) ! j)) \<longleftrightarrow> \<not> P x \<and> (\<forall>j<k. \<not> P (xs ! j))"
      by (auto simp: less_Suc_eq_0_disj)
    with Suc Cons.IH show ?thesis by auto
  qed
qed

lemma first_index_SomeD [dest, slot_search]:
  "first_index P xs = Some i \<Longrightarrow> i < length xs \<and> P (xs ! i)"
  by (simp add: first_index_Some_iff)

lemma first_index_first [slot_search]:
  "first_index P xs = Some i \<Longrightarrow> j < i \<Longrightarrow> \<not> P (xs ! j)"
  by (simp add: first_index_Some_iff)

lemma first_index_exists [slot_search]:
  "i < length xs \<Longrightarrow> P (xs ! i) \<Longrightarrow> \<exists>k. first_index P xs = Some k \<and> k \<le> i"
proof -
  assume "i < length xs" "P (xs ! i)"
  then have "\<exists>x\<in>set xs. P x" by (auto intro: bexI [of _ "xs ! i"])
  then have "first_index P xs \<noteq> None" by simp
  then obtain k where k: "first_index P xs = Some k" by blast
  with \<open>P (xs ! i)\<close> have "\<not> i < k" using first_index_first by blast
  with k show ?thesis by auto
qed

text \<open>Reading a list after a write by index, the index in range or not (an
  update out of range changes nothing).\<close>

lemma nth_list_update_any:
  "xs[i := x] ! j = (if i = j \<and> i < length xs then x else xs ! j)"
  by (cases "i < length xs") (simp_all add: nth_list_update list_update_beyond)

text \<open>Skipping to the start of the next line shortens a non-empty text (the
  measure of the line loops).\<close>

lemma length_skip_line_less:
  "s \<noteq> [] \<Longrightarrow> length (drop 1 (dropWhile P s)) < length s"
proof -
  assume "s \<noteq> []"
  moreover have "length (dropWhile P s) \<le> length s" by (rule length_dropWhile_le)
  ultimately show ?thesis by (cases s) auto
qed

end
