(* ===== verification/Paths.thy ===== *)
theory Paths
  imports Prelude
begin

text \<open>
  The \<^verbatim>\<open>Path\<close> struct of \<^verbatim>\<open>src/routing.h\<close> and the operations on it:
  \<^verbatim>\<open>are_paths_equal\<close> and \<^verbatim>\<open>copy_path\<close> (\<^verbatim>\<open>src/routing.c\<close>), the printing of a
  path as a dash-separated string (\<^verbatim>\<open>path_to_string\<close>, \<^verbatim>\<open>src/routing.c\<close>) and
  the parser of that string inside the \<^verbatim>\<open>ROUTE\<close> handler
  (\<^verbatim>\<open>handle_message_from_any_node\<close>, \<^verbatim>\<open>src/ring.c\<close>). A path is its hop count
  (\<open>-2\<close> for \<^verbatim>\<open>INVALID_PATH\<close>) and the array of node ids; only the first
  \<open>hop_count\<close> entries of the array are meaningful, the rest is stale memory
  that \<^verbatim>\<open>copy_path\<close> leaves in place. The abstraction \<open>path_abs\<close> forgets the
  stale part; the lemmas show that the C equality test is equality of
  abstractions and that parsing a printed path gives back the path seen from
  the receiving neighbour.
\<close>

section \<open>The Path struct\<close>

record path =
  hop_count :: int
  nodes :: "node_id list"

abbreviation INVALID_PATH :: int where "INVALID_PATH \<equiv> -2"

definition path_nodes :: "path \<Rightarrow> node_id list" where
  "path_nodes p = take (nat (hop_count p)) (nodes p)"

definition path_abs :: "path \<Rightarrow> node_id list option" where
  "path_abs p = (if hop_count p = INVALID_PATH then None else Some (path_nodes p))"

text \<open>A path is well formed when it is invalid or its hop count is a length the
  array holds.\<close>

definition path_wf :: "path \<Rightarrow> bool" where
  "path_wf p \<longleftrightarrow> hop_count p = INVALID_PATH \<or> (0 \<le> hop_count p \<and> nat (hop_count p) \<le> length (nodes p))"

text \<open>\<^verbatim>\<open>are_paths_equal\<close>: equal hop counts, and for a positive hop count equal
  first \<open>hop_count\<close> entries (the \<^verbatim>\<open>memcmp\<close>).\<close>

definition are_paths_equal :: "path \<Rightarrow> path \<Rightarrow> bool" where
  "are_paths_equal p1 p2 \<longleftrightarrow>
     hop_count p1 = hop_count p2 \<and>
     (hop_count p1 \<le> 0 \<or> take (nat (hop_count p1)) (nodes p1) = take (nat (hop_count p1)) (nodes p2))"

text \<open>\<^verbatim>\<open>copy_path(dest, src)\<close>: the hop count is copied, and for a positive hop
  count the first \<open>hop_count\<close> entries are \<^verbatim>\<open>memcpy\<close>d over those of the
  destination; the rest of the destination array is left as it was.\<close>

definition copy_path :: "path \<Rightarrow> path \<Rightarrow> path" where
  "copy_path dest src =
     (if 0 < hop_count src
      then dest\<lparr>hop_count := hop_count src,
                nodes := take (nat (hop_count src)) (nodes src) @ drop (nat (hop_count src)) (nodes dest)\<rparr>
      else dest\<lparr>hop_count := hop_count src\<rparr>)"

text \<open>An uninitialised local \<^verbatim>\<open>Path\<close> whose hop count has been set to
  \<^verbatim>\<open>INVALID_PATH\<close>; its array content is never read.\<close>

definition invalid_path :: path where
  "invalid_path = \<lparr>hop_count = INVALID_PATH, nodes = []\<rparr>"

section \<open>Printing node ids and paths\<close>

definition digit_char :: "nat \<Rightarrow> char" where
  "digit_char d = ''0123456789'' ! d"

fun dec_digits :: "nat \<Rightarrow> string" where
  "dec_digits n = (if n < 10 then [digit_char n] else dec_digits (n div 10) @ [digit_char (n mod 10)])"

declare dec_digits.simps [simp del]

text \<open>\<^verbatim>\<open>printf("%02hhd", id)\<close> (\<^verbatim>\<open>NODE_ID_OUT\<close>): the value is converted to
  \<^verbatim>\<open>signed char\<close>, printed in decimal with a minus sign when negative, and
  padded with zeros to width two.\<close>

definition fmt_int02 :: "int \<Rightarrow> string" where
  "fmt_int02 n =
     (if n < 0 then CHR ''-'' # dec_digits (nat (- n))
      else if n < 10 then CHR ''0'' # dec_digits (nat n)
      else dec_digits (nat n))"

definition fmt_node_id :: "node_id \<Rightarrow> string" where
  "fmt_node_id n = fmt_int02 (to_signed_char n)"

text \<open>\<^verbatim>\<open>path_to_string(str, recipient_id, path)\<close>: empty for an invalid path,
  the assertion failure for hop count \<open>-1\<close>, and otherwise this node's id,
  the first \<open>hop_count\<close> entries and the recipient, each followed by a dash
  but the last.\<close>

definition path_to_string :: "node_id \<Rightarrow> node_id \<Rightarrow> path \<Rightarrow> error + string" where
  "path_to_string self_id recipient_id p =
     (if hop_count p = INVALID_PATH then Inr []
      else if hop_count p = -1 then Inl Path_hop_count_assertion
      else Inr (fmt_node_id self_id @ ''-'' @
                concat (map (\<lambda>n. fmt_node_id n @ ''-'') (take (nat (hop_count p)) (nodes p))) @
                fmt_node_id recipient_id))"

section \<open>Parsing a path string\<close>

definition is_digit :: "char \<Rightarrow> bool" where
  "is_digit c \<longleftrightarrow> (48::nat) \<le> of_char c \<and> of_char c \<le> (57::nat)"

text \<open>\<^verbatim>\<open>atoi\<close> on a run of at most two decimal digits (the only strings the
  parser hands it; the empty run gives \<open>0\<close>).\<close>

definition atoi_digits :: "string \<Rightarrow> int" where
  "atoi_digits cs = foldl (\<lambda>acc c. 10 * acc + (int (of_char c) - 48)) 0 cs"

text \<open>
  The loop of \<^verbatim>\<open>ring.c\<close> that splits \<^verbatim>\<open>path_str\<close> at dashes. \<open>cur\<close> holds the
  characters since \<^verbatim>\<open>id_start\<close>, \<open>ids\<close> the entries \<^verbatim>\<open>path.nodes[0..i-1]\<close>
  written so far. At a dash or at the end of the string the id is converted
  with \<^verbatim>\<open>atoi\<close>, rejected when negative, and stored at \<^verbatim>\<open>path.nodes[i]\<close>; the
  guard against \<open>i \<ge> MAX_NODES\<close> is disabled in the source (\<^verbatim>\<open>false && ...\<close>),
  so a seventeenth id is written past the end of the array. Any other
  character must be a digit and may not be the third of an id.
  \<open>Inr None\<close> is "ignore the message", \<open>Inr (Some ids)\<close> the parsed ids.
\<close>

definition ub_path_overflow :: error where
  "ub_path_overflow = Undefined_behaviour ''path.nodes written past MAX_NODES''"

definition store_path_id :: "string \<Rightarrow> node_id list \<Rightarrow> error + node_id list option" where
  "store_path_id cur ids =
     (if atoi_digits cur < 0 then Inr None
      else if MAX_NODES \<le> length ids then Inl ub_path_overflow
      else Inr (Some (ids @ [atoi_digits cur])))"

fun parse_path_chars :: "string \<Rightarrow> string \<Rightarrow> node_id list \<Rightarrow> error + node_id list option" where
  "parse_path_chars [] cur ids = store_path_id cur ids"
| "parse_path_chars (c # cs) cur ids =
     (if c = CHR ''-'' then
        (case store_path_id cur ids of
           Inl e \<Rightarrow> Inl e
         | Inr None \<Rightarrow> Inr None
         | Inr (Some ids') \<Rightarrow> parse_path_chars cs [] ids')
      else if \<not> is_digit c \<or> 2 \<le> length cur then Inr None
      else parse_path_chars cs (cur @ [c]) ids)"

text \<open>The parsed path: \<^verbatim>\<open>path.hop_count = i - 1\<close>, where \<open>i\<close> is the number of
  ids read (neighbour and recipient included).\<close>

definition parse_path_str :: "string \<Rightarrow> error + path option" where
  "parse_path_str s =
     (case parse_path_chars s [] [] of
        Inl e \<Rightarrow> Inl e
      | Inr None \<Rightarrow> Inr None
      | Inr (Some ids) \<Rightarrow> Inr (Some \<lparr>hop_count = int (length ids) - 1, nodes = ids\<rparr>))"

text \<open>Auxiliary views used by the lemmas: the string \<open>path_to_string\<close> builds
  from a list of intermediate ids and a final id, and the range of ids the
  program assigns (\<^verbatim>\<open>0..MAX_NODE_ID\<close>).\<close>

definition printed_ids :: "node_id list \<Rightarrow> node_id \<Rightarrow> string" where
  "printed_ids xs r = concat (map (\<lambda>n. fmt_node_id n @ ''-'') xs) @ fmt_node_id r"

definition node_id_in_range :: "node_id \<Rightarrow> bool" where
  "node_id_in_range n \<longleftrightarrow> 0 \<le> n \<and> n \<le> MAX_NODE_ID"

section \<open>Lemmas: copying and comparing paths\<close>

named_theorems path_simps "how copy_path acts on the abstraction of a path"

lemma hop_count_copy_path [simp, path_simps]: "hop_count (copy_path d s) = hop_count s"
  by (simp add: copy_path_def)

lemma path_nodes_copy_path [path_simps]:
  "nat (hop_count s) \<le> length (nodes s) \<Longrightarrow> path_nodes (copy_path d s) = path_nodes s"
  by (simp add: copy_path_def path_nodes_def)

lemma path_wf_copy_path [path_simps]: "path_wf s \<Longrightarrow> path_wf (copy_path d s)"
  by (auto simp: path_wf_def copy_path_def)

lemma path_abs_copy_path [path_simps]: "path_wf s \<Longrightarrow> path_abs (copy_path d s) = path_abs s"
  by (auto simp: path_abs_def path_wf_def path_nodes_copy_path)

lemma path_wf_invalid_path [simp]: "path_wf invalid_path"
  by (simp add: path_wf_def invalid_path_def)

lemma hop_count_invalid_path [simp]: "hop_count invalid_path = INVALID_PATH"
  by (simp add: invalid_path_def)

lemma length_path_nodes: "path_wf p \<Longrightarrow> hop_count p \<noteq> INVALID_PATH \<Longrightarrow> length (path_nodes p) = nat (hop_count p)"
  by (auto simp: path_wf_def path_nodes_def)

section \<open>Lemmas: printing and parsing ids\<close>

lemma to_signed_char_id [simp]:
  "-128 \<le> n \<Longrightarrow> n < 128 \<Longrightarrow> to_signed_char n = n"
  by (simp add: to_signed_char_def sint_sbintrunc' signed_take_bit_int_eq_self)

lemma of_char_digit_char [simp]: "d < 10 \<Longrightarrow> of_char (digit_char d) = 48 + d"
  by (auto simp: digit_char_def less_Suc_eq eval_nat_numeral)

lemma digit_char_not_dash [simp]: "d < 10 \<Longrightarrow> digit_char d \<noteq> CHR ''-''"
proof
  assume "d < 10" "digit_char d = CHR ''-''"
  then have "of_char (digit_char d) = (of_char (CHR ''-'') :: nat)" by simp
  with \<open>d < 10\<close> show False by simp
qed

lemma is_digit_digit_char [simp]: "d < 10 \<Longrightarrow> is_digit (digit_char d)"
  by (simp add: is_digit_def)

lemma digit_char_zero [simp]: "digit_char 0 = CHR ''0''"
  by (simp add: digit_char_def)

lemma fmt_node_id_two_digits:
  assumes "0 \<le> n" "n \<le> MAX_NODE_ID"
  shows "fmt_node_id n = [digit_char (nat n div 10), digit_char (nat n mod 10)]"
proof -
  have "to_signed_char n = n" using assms by simp
  moreover have "dec_digits (nat n div 10) = [digit_char (nat n div 10)]"
    using assms by (simp add: dec_digits.simps)
  ultimately show ?thesis using assms
    by (auto simp: fmt_node_id_def fmt_int02_def dec_digits.simps [of "nat n"] nat_less_iff)
qed

lemma atoi_two_digits:
  "a < 10 \<Longrightarrow> b < 10 \<Longrightarrow> atoi_digits [digit_char a, digit_char b] = int (10 * a + b)"
  by (simp add: atoi_digits_def)

lemma parse_path_chars_node_id:
  assumes "0 \<le> n" "n \<le> MAX_NODE_ID"
  shows "parse_path_chars (fmt_node_id n @ cs) [] ids = parse_path_chars cs (fmt_node_id n) ids"
  using assms by (simp add: fmt_node_id_two_digits)

lemma store_path_id_node_id:
  assumes "0 \<le> n" "n \<le> MAX_NODE_ID"
  shows "store_path_id (fmt_node_id n) ids =
           (if MAX_NODES \<le> length ids then Inl ub_path_overflow else Inr (Some (ids @ [n])))"
  using assms by (simp add: store_path_id_def fmt_node_id_two_digits atoi_two_digits)

lemma parse_printed_ids:
  assumes "\<forall>n\<in>set xs. node_id_in_range n" "node_id_in_range r"
  shows "parse_path_chars (printed_ids xs r) [] ids =
           (if length ids + length xs < MAX_NODES then Inr (Some (ids @ xs @ [r])) else Inl ub_path_overflow)"
  using assms(1)
proof (induction xs arbitrary: ids)
  case Nil
  with assms(2) show ?case
    by (simp add: printed_ids_def node_id_in_range_def parse_path_chars_node_id [where cs = "[]", simplified]
                  store_path_id_node_id)
next
  case (Cons x xs)
  then have x: "0 \<le> x" "x \<le> MAX_NODE_ID" and xs: "\<forall>n\<in>set xs. node_id_in_range n"
    by (auto simp: node_id_in_range_def)
  have "parse_path_chars (printed_ids (x # xs) r) [] ids =
        parse_path_chars (CHR ''-'' # printed_ids xs r) (fmt_node_id x) ids"
    using x by (simp add: printed_ids_def parse_path_chars_node_id)
  also have "\<dots> = (if MAX_NODES \<le> length ids then Inl ub_path_overflow
                    else parse_path_chars (printed_ids xs r) [] (ids @ [x]))"
    using x by (simp add: store_path_id_node_id)
  also have "\<dots> = (if length ids + length (x # xs) < MAX_NODES then Inr (Some (ids @ (x # xs) @ [r]))
                    else Inl ub_path_overflow)"
    using Cons.IH [OF xs, of "ids @ [x]"] by auto
  finally show ?case .
qed


section \<open>Properties of paths\<close>

text \<open>Claim C22: on well-formed paths, the C test \<^verbatim>\<open>are_paths_equal\<close> decides
  exactly the equality of the meaningful content (validity and the first
  \<open>hop_count\<close> node ids), whatever the stale rest of the arrays holds.\<close>

theorem are_paths_equal_iff_abs:
  assumes "path_wf p" "path_wf q"
  shows "are_paths_equal p q \<longleftrightarrow> path_abs p = path_abs q"
proof (cases "hop_count p = INVALID_PATH \<or> hop_count q = INVALID_PATH")
  case True
  with assms show ?thesis
    by (auto simp: are_paths_equal_def path_abs_def path_wf_def)
next
  case False
  with assms have lp: "length (path_nodes p) = nat (hop_count p)"
    and lq: "length (path_nodes q) = nat (hop_count q)"
    and nn: "0 \<le> hop_count p" "0 \<le> hop_count q"
    by (auto simp: length_path_nodes path_wf_def)
  have "path_abs p = path_abs q \<longleftrightarrow> path_nodes p = path_nodes q"
    using False by (simp add: path_abs_def)
  also have "\<dots> \<longleftrightarrow> hop_count p = hop_count q \<and> path_nodes p = path_nodes q"
    using lp lq nn by (metis nat_eq_iff2)
  also have "\<dots> \<longleftrightarrow> are_paths_equal p q"
    using nn by (auto simp: are_paths_equal_def path_nodes_def)
  finally show ?thesis by simp
qed

theorem are_paths_equal_iff_abs_witness:
  "are_paths_equal \<lparr>hop_count = 1, nodes = [3, 7]\<rparr> \<lparr>hop_count = 1, nodes = [3, 9]\<rparr> \<and>
   path_abs \<lparr>hop_count = 1, nodes = [3, 7]\<rparr> = path_abs \<lparr>hop_count = 1, nodes = [3, 9]\<rparr>"
  using are_paths_equal_iff_abs [of "\<lparr>hop_count = 1, nodes = [3, 7]\<rparr>" "\<lparr>hop_count = 1, nodes = [3, 9]\<rparr>"]
  by (simp add: path_wf_def path_abs_def path_nodes_def are_paths_equal_def)

text \<open>Claim C4: printing a valid path of in-range ids with \<^verbatim>\<open>path_to_string\<close>
  and parsing the string with the \<^verbatim>\<open>ROUTE\<close> path parser gives the path as
  the receiving neighbour stores it: one hop more, with the sender prepended
  and the recipient as the last id.\<close>

theorem path_to_string_roundtrip:
  assumes "path_wf p" "hop_count p \<noteq> INVALID_PATH"
    and "node_id_in_range self_id" "node_id_in_range r"
    and "\<forall>n\<in>set (path_nodes p). node_id_in_range n"
    and "length (path_nodes p) + 2 \<le> MAX_NODES"
  shows "\<exists>s. path_to_string self_id r p = Inr s \<and>
             parse_path_str s = Inr (Some \<lparr>hop_count = hop_count p + 1, nodes = self_id # path_nodes p @ [r]\<rparr>)"
proof -
  from assms(1,2) have hc: "0 \<le> hop_count p" and len: "length (path_nodes p) = nat (hop_count p)"
    by (auto simp: path_wf_def length_path_nodes)
  have str: "path_to_string self_id r p = Inr (printed_ids (self_id # path_nodes p) r)"
    using hc by (simp add: path_to_string_def printed_ids_def path_nodes_def)
  have "parse_path_chars (printed_ids (self_id # path_nodes p) r) [] [] = Inr (Some (self_id # path_nodes p @ [r]))"
    using assms(3-6) by (simp add: parse_printed_ids)
  then have "parse_path_str (printed_ids (self_id # path_nodes p) r) =
               Inr (Some \<lparr>hop_count = int (length (path_nodes p)) + 1, nodes = self_id # path_nodes p @ [r]\<rparr>)"
    by (simp add: parse_path_str_def)
  with str len hc show ?thesis by simp
qed

theorem path_to_string_roundtrip_witness:
  "path_to_string 10 20 \<lparr>hop_count = 1, nodes = [15]\<rparr> = Inr ''10-15-20'' \<and>
   parse_path_str ''10-15-20'' = Inr (Some \<lparr>hop_count = 2, nodes = [10, 15, 20]\<rparr>)"
  using path_to_string_roundtrip [of "\<lparr>hop_count = 1, nodes = [15]\<rparr>" 10 20]
  by (simp add: path_wf_def path_nodes_def node_id_in_range_def path_to_string_def
                fmt_node_id_def fmt_int02_def dec_digits.simps digit_char_def)

lemma length_printed_ids:
  "\<forall>n\<in>set xs. node_id_in_range n \<Longrightarrow> node_id_in_range r \<Longrightarrow> length (printed_ids xs r) = 3 * length xs + 2"
  by (induction xs) (auto simp: printed_ids_def node_id_in_range_def fmt_node_id_two_digits)

text \<open>Claim C26: a valid path of in-range ids with hop count \<open>h\<close> is printed
  by \<^verbatim>\<open>path_to_string\<close> as \<open>3 h + 5\<close> characters, and parsing that
  string reaches the disabled \<^verbatim>\<open>MAX_NODES\<close> guard (the write past
  \<^verbatim>\<open>path.nodes\<close>) exactly when \<open>h \<ge> 15\<close>. So the largest path the parser
  stores (\<open>h = 15\<close>, sixteen ids, 47 characters) prints as 50 characters:
  more than the \<^verbatim>\<open>MAX_PATH_STR_LENGTH\<close> of 47 that \<^verbatim>\<open>path_str\<close> and
  \<^verbatim>\<open>route_msg\<close> are sized for.\<close>

theorem path_string_length_overflow:
  assumes "path_wf p" "hop_count p \<noteq> INVALID_PATH"
    and "node_id_in_range self_id" "node_id_in_range r"
    and "\<forall>n\<in>set (path_nodes p). node_id_in_range n"
  shows "\<exists>s. path_to_string self_id r p = Inr s \<and> length s = 3 * nat (hop_count p) + 5 \<and>
             (parse_path_str s = Inl ub_path_overflow \<longleftrightarrow> 15 \<le> hop_count p)"
proof -
  from assms(1,2) have hc: "0 \<le> hop_count p" and len: "length (path_nodes p) = nat (hop_count p)"
    by (auto simp: path_wf_def length_path_nodes)
  have str: "path_to_string self_id r p = Inr (printed_ids (self_id # path_nodes p) r)"
    using hc by (simp add: path_to_string_def printed_ids_def path_nodes_def)
  have ids: "\<forall>n\<in>set (self_id # path_nodes p). node_id_in_range n" using assms(3,5) by simp
  have "length (printed_ids (self_id # path_nodes p) r) = 3 * nat (hop_count p) + 5"
    using length_printed_ids [OF ids assms(4)] len by simp
  moreover have "parse_path_str (printed_ids (self_id # path_nodes p) r) = Inl ub_path_overflow \<longleftrightarrow>
                   \<not> Suc (nat (hop_count p)) < MAX_NODES"
    using parse_printed_ids [OF ids assms(4), of "[]"] len by (simp add: parse_path_str_def)
  moreover have "\<not> Suc (nat (hop_count p)) < MAX_NODES \<longleftrightarrow> 15 \<le> hop_count p" using hc by auto
  ultimately show ?thesis using str by simp
qed

theorem path_string_length_overflow_witness:
  "path_to_string 20 35 \<lparr>hop_count = 15, nodes = [1, 2, 3, 4, 5, 6, 7, 8, 9, 10, 11, 12, 13, 14, 15]\<rparr> =
     Inr ''20-01-02-03-04-05-06-07-08-09-10-11-12-13-14-15-35'' \<and>
   length ''20-01-02-03-04-05-06-07-08-09-10-11-12-13-14-15-35'' = 3 * nat 15 + 5 \<and>
   (parse_path_str ''20-01-02-03-04-05-06-07-08-09-10-11-12-13-14-15-35'' = Inl ub_path_overflow \<longleftrightarrow> (15::int) \<le> 15)"
proof -
  have "path_to_string 20 35 \<lparr>hop_count = 15, nodes = [1, 2, 3, 4, 5, 6, 7, 8, 9, 10, 11, 12, 13, 14, 15]\<rparr> =
          Inr ''20-01-02-03-04-05-06-07-08-09-10-11-12-13-14-15-35''"
    by (simp add: path_to_string_def fmt_node_id_def fmt_int02_def dec_digits.simps digit_char_def)
  moreover have "\<exists>s. path_to_string 20 35 \<lparr>hop_count = 15, nodes = [1, 2, 3, 4, 5, 6, 7, 8, 9, 10, 11, 12, 13, 14, 15]\<rparr> = Inr s \<and>
             length s = 3 * nat 15 + 5 \<and> (parse_path_str s = Inl ub_path_overflow \<longleftrightarrow> (15::int) \<le> 15)"
    using path_string_length_overflow [of "\<lparr>hop_count = 15, nodes = [1, 2, 3, 4, 5, 6, 7, 8, 9, 10, 11, 12, 13, 14, 15]\<rparr>" 20 35]
    by (simp add: path_wf_def path_nodes_def node_id_in_range_def)
  ultimately show ?thesis by auto
qed

text \<open>A sender that prints one-digit ids reaches the guard within
  \<^verbatim>\<open>%47s\<close>: a 33-character string of seventeen ids.\<close>

lemma parse_path_str_one_digit_overflow:
  "parse_path_str ''0-1-2-3-4-5-6-7-8-9-0-1-2-3-4-5-6'' = Inl ub_path_overflow"
  by (simp add: parse_path_str_def store_path_id_def is_digit_def atoi_digits_def)

end
