(* ===== verification/Routing.thy ===== *)
theory Routing
  imports Paths
begin

text \<open>
  The routing engine of \<^verbatim>\<open>src/routing.c\<close>. Its state is four fixed-size
  arrays (a \<open>routing\<close> record): the node ids of the recipient slots (rows) and
  of the neighbour slots (columns), \<open>-1\<close> marking a free slot; the routing
  matrix of paths indexed by (recipient slot, neighbour slot); and the
  forwarding vector, the neighbour slot chosen for each recipient slot or \<open>-1\<close>.
  The operations are the slot searches \<^verbatim>\<open>get_recipient_index\<close> and
  \<^verbatim>\<open>get_neighbor_index\<close> (which allocate and initialise a slot on request),
  \<^verbatim>\<open>update_routing_given_new_path\<close> (store a neighbour's path, recompute the
  shortest one with ties kept on the previous choice, free an empty row, report
  whether the choice changed), the construction of \<^verbatim>\<open>ROUTE\<close> lines, the
  announcement after a change, \<^verbatim>\<open>remove_routing_neighbor\<close>,
  \<^verbatim>\<open>send_shortest_paths\<close> and \<^verbatim>\<open>init_routing\<close>. Writing the lines to the
  sockets is the connection layer's business: the functions here return the
  lines to be broadcast, in order. The process-wide \<^verbatim>\<open>self.id\<close> is a parameter.
\<close>

section \<open>State\<close>

record routing =
  recipient_ids :: "node_id list"
  neighbor_ids :: "node_id list"
  routing_table :: "path list list"
  forwarding_table :: "node_index list"

text \<open>The arrays are globals of static storage duration: before the first
  \<^verbatim>\<open>init_routing\<close> every byte is zero, so every slot looks allocated to node
  \<open>0\<close> with a zero-hop path through neighbour slot \<open>0\<close>.\<close>

definition routing_static :: routing where
  "routing_static =
     \<lparr>recipient_ids = replicate MAX_RECIPIENTS 0,
      neighbor_ids = replicate MAX_NEIGHBORS 0,
      routing_table = replicate MAX_RECIPIENTS
                        (replicate MAX_NEIGHBORS \<lparr>hop_count = 0, nodes = replicate MAX_NODES 0\<rparr>),
      forwarding_table = replicate MAX_RECIPIENTS 0\<rparr>"

text \<open>\<^verbatim>\<open>init_routing\<close>: both id arrays are reset to \<open>-1\<close>; the matrix and the
  forwarding vector keep their content, which is reinitialised row by row and
  column by column as slots are allocated.\<close>

definition init_routing :: "routing \<Rightarrow> routing" where
  "init_routing rt =
     rt\<lparr>recipient_ids := replicate MAX_RECIPIENTS NO_NODE_ID,
        neighbor_ids := replicate MAX_NEIGHBORS NO_NODE_ID\<rparr>"

section \<open>Slot allocation\<close>

text \<open>\<^verbatim>\<open>get_recipient_index(recipient_id, add_if_missing)\<close>: the first slot
  holding the id; otherwise \<open>-1\<close>, or with \<open>add_if_missing\<close> the first free slot,
  whose row is invalidated and whose forwarding entry is cleared; no free slot
  is a fatal error. The search compares with \<open>-1\<close> too, so the id \<open>-1\<close> finds
  the first free slot without allocating it.\<close>

definition get_recipient_index :: "node_id \<Rightarrow> bool \<Rightarrow> routing \<Rightarrow> error + node_index \<times> routing" where
  "get_recipient_index recipient_id add_if_missing rt =
     (case first_index (\<lambda>x. x = recipient_id) (recipient_ids rt) of
        Some i \<Rightarrow> Inr (int i, rt)
      | None \<Rightarrow>
          if \<not> add_if_missing then Inr (NO_NODE_INDEX, rt)
          else (case first_index (\<lambda>x. x = NO_NODE_ID) (recipient_ids rt) of
                  None \<Rightarrow> Inl Ran_out_of_recipients
                | Some i \<Rightarrow>
                    Inr (int i, rt\<lparr>recipient_ids := (recipient_ids rt)[i := recipient_id],
                                  routing_table := (routing_table rt)[i :=
                                     map (\<lambda>p. p\<lparr>hop_count := INVALID_PATH\<rparr>) (routing_table rt ! i)],
                                  forwarding_table := (forwarding_table rt)[i := NO_NODE_INDEX]\<rparr>)))"

text \<open>\<^verbatim>\<open>get_neighbor_index(neighbor_id, add_if_missing)\<close>: the same search over
  the neighbour slots; allocation invalidates the slot's column in every row.\<close>

definition get_neighbor_index :: "node_id \<Rightarrow> bool \<Rightarrow> routing \<Rightarrow> error + node_index \<times> routing" where
  "get_neighbor_index neighbor_id add_if_missing rt =
     (case first_index (\<lambda>x. x = neighbor_id) (neighbor_ids rt) of
        Some i \<Rightarrow> Inr (int i, rt)
      | None \<Rightarrow>
          if \<not> add_if_missing then Inr (NO_NODE_INDEX, rt)
          else (case first_index (\<lambda>x. x = NO_NODE_ID) (neighbor_ids rt) of
                  None \<Rightarrow> Inl Ran_out_of_neighbors
                | Some i \<Rightarrow>
                    Inr (int i, rt\<lparr>neighbor_ids := (neighbor_ids rt)[i := neighbor_id],
                                  routing_table := map (\<lambda>row. row[i := (row ! i)\<lparr>hop_count := INVALID_PATH\<rparr>])
                                                       (routing_table rt)\<rparr>)))"

section \<open>Updating the table with a neighbour's path\<close>

text \<open>The path to store (\<^verbatim>\<open>routing.c\<close>, the local \<^verbatim>\<open>path\<close>): invalid when absent
  or invalid, invalid when this node is among its first \<open>hop_count\<close> ids (loop
  avoidance), and otherwise a copy of the given path.\<close>

definition incoming_path :: "node_id \<Rightarrow> path option \<Rightarrow> path" where
  "incoming_path self_id path_in =
     (case path_in of
        None \<Rightarrow> invalid_path
      | Some p \<Rightarrow>
          if hop_count p = INVALID_PATH then invalid_path
          else if self_id \<in> set (take (nat (hop_count p)) (nodes p)) then invalid_path
          else copy_path invalid_path p)"

text \<open>One iteration of the search for the shortest path: neighbour slot \<open>ni\<close>
  replaces the current candidate when it is allocated, its path is valid, and
  there is no candidate yet or its hop count is strictly smaller.\<close>

definition closest_step :: "node_id list \<Rightarrow> path list \<Rightarrow> node_index \<Rightarrow> nat \<Rightarrow> node_index" where
  "closest_step nids row closest ni =
     (if nids ! ni \<noteq> NO_NODE_ID \<and> hop_count (row ! ni) \<noteq> INVALID_PATH \<and>
         (closest = NO_NODE_INDEX \<or> hop_count (row ! ni) < hop_count (row ! nat closest))
      then int ni else closest)"

definition find_closest_neighbor :: "node_id list \<Rightarrow> path list \<Rightarrow> node_index" where
  "find_closest_neighbor nids row = foldl (closest_step nids row) NO_NODE_INDEX [0..<MAX_NEIGHBORS]"

text \<open>The new choice for a row: the shortest candidate, but the previous choice
  when it is still a candidate of the same hop count (ties are kept).\<close>

definition choose_closest :: "node_id list \<Rightarrow> path list \<Rightarrow> node_index \<Rightarrow> node_index" where
  "choose_closest nids row old_closest =
     (let closest0 = find_closest_neighbor nids row in
      if old_closest \<noteq> NO_NODE_INDEX \<and> closest0 \<noteq> NO_NODE_INDEX \<and>
         hop_count (row ! nat old_closest) = hop_count (row ! nat closest0)
      then old_closest else closest0)"

text \<open>The body of \<^verbatim>\<open>update_routing_given_new_path\<close> once the neighbour slot
  \<open>n\<close> and the recipient slot \<open>r\<close> are known: remember the current choice and
  its path, store the new path in the cell, choose again, free the row when no
  candidate is left, record the choice, and report whether the chosen
  neighbour slot or the content of its path changed.\<close>

definition update_slot :: "node_id \<Rightarrow> path option \<Rightarrow> nat \<Rightarrow> nat \<Rightarrow> routing \<Rightarrow> bool \<times> routing" where
  "update_slot self_id path_in n r rt =
     (let path = incoming_path self_id path_in;
          old_closest = forwarding_table rt ! r;
          old_shortest = (if old_closest \<noteq> NO_NODE_INDEX
                          then copy_path invalid_path (routing_table rt ! r ! nat old_closest)
                          else invalid_path);
          row = (routing_table rt ! r)[n := copy_path (routing_table rt ! r ! n) path];
          closest = choose_closest (neighbor_ids rt) row old_closest
      in (old_closest \<noteq> closest \<or>
          (closest \<noteq> NO_NODE_INDEX \<and> \<not> are_paths_equal old_shortest (row ! nat closest)),
          rt\<lparr>routing_table := (routing_table rt)[r := row],
             recipient_ids := (if closest = NO_NODE_INDEX then (recipient_ids rt)[r := NO_NODE_ID]
                               else recipient_ids rt),
             forwarding_table := (forwarding_table rt)[r := closest]\<rparr>))"

text \<open>\<^verbatim>\<open>update_routing_given_new_path(neighbor_id, recipient_id, path_in)\<close>,
  with \<open>None\<close> for a NULL \<open>path_in\<close>: nothing for a path to this node or from
  this node; otherwise the neighbour and recipient slots are looked up
  (allocated when missing) and the slot is updated.\<close>

definition update_routing_given_new_path ::
  "node_id \<Rightarrow> node_id \<Rightarrow> node_id \<Rightarrow> path option \<Rightarrow> routing \<Rightarrow> error + bool \<times> routing" where
  "update_routing_given_new_path self_id neighbor_id recipient_id path_in rt =
     (if recipient_id = self_id then Inr (False, rt)
      else if neighbor_id = self_id then Inr (False, rt)
      else err_bind (get_neighbor_index neighbor_id True rt) (\<lambda>(neighbor, rt1).
           err_bind (get_recipient_index recipient_id True rt1) (\<lambda>(recipient, rt2).
             Inr (update_slot self_id path_in (nat neighbor) (nat recipient) rt2))))"

section \<open>ROUTE lines and announcements\<close>

text \<open>\<^verbatim>\<open>get_route_message\<close>: the path-absent form for a NULL or invalid path,
  the form with the printed path otherwise.\<close>

definition get_route_message :: "node_id \<Rightarrow> node_id \<Rightarrow> path option \<Rightarrow> error + string" where
  "get_route_message self_id recipient_id p =
     (let absent = ''ROUTE '' @ fmt_node_id self_id @ '' '' @ fmt_node_id recipient_id @ ''\<newline>'' in
      case p of
        None \<Rightarrow> Inr absent
      | Some q \<Rightarrow>
          if hop_count q = INVALID_PATH then Inr absent
          else err_bind (path_to_string self_id recipient_id q) (\<lambda>s.
                 Inr (''ROUTE '' @ fmt_node_id self_id @ '' '' @ fmt_node_id recipient_id @ '' '' @ s @ ''\<newline>'')))"

text \<open>\<^verbatim>\<open>announce_new_path(recipient_id)\<close>: the line announcing the current
  choice for the recipient (the path-absent form when it has no slot). A slot
  whose forwarding entry is \<open>-1\<close> makes the C code read
  \<^verbatim>\<open>routing_table[recipient][-1]\<close>, outside the row.\<close>

definition announce_new_path :: "node_id \<Rightarrow> node_id \<Rightarrow> routing \<Rightarrow> error + string" where
  "announce_new_path self_id recipient_id rt =
     err_bind (get_recipient_index recipient_id False rt) (\<lambda>(recipient, _).
       if recipient = NO_NODE_INDEX then get_route_message self_id recipient_id None
       else (let neighbor = forwarding_table rt ! nat recipient in
             if neighbor = NO_NODE_INDEX
             then Inl (Undefined_behaviour ''routing_table[recipient][-1] read in announce_new_path'')
             else get_route_message self_id recipient_id
                    (Some (routing_table rt ! nat recipient ! nat neighbor))))"

text \<open>\<^verbatim>\<open>update_routing_and_announce_given_new_path\<close>: the update, and the
  announcement line to broadcast when the choice changed.\<close>

definition update_routing_and_announce_given_new_path ::
  "node_id \<Rightarrow> node_id \<Rightarrow> node_id \<Rightarrow> path option \<Rightarrow> routing \<Rightarrow> error + routing \<times> string list" where
  "update_routing_and_announce_given_new_path self_id neighbor_id recipient_id path rt =
     err_bind (update_routing_given_new_path self_id neighbor_id recipient_id path rt) (\<lambda>(changed, rt').
       if changed then err_bind (announce_new_path self_id recipient_id rt') (\<lambda>m. Inr (rt', [m]))
       else Inr (rt', []))"

text \<open>The loop of \<^verbatim>\<open>remove_routing_neighbor\<close> over the recipient slots; the
  id of each slot is read when the loop reaches it, after the updates of the
  slots before it.\<close>

fun remove_neighbor_rows :: "node_id \<Rightarrow> node_id \<Rightarrow> nat list \<Rightarrow> routing \<Rightarrow> error + routing \<times> string list" where
  "remove_neighbor_rows self_id neighbor_id [] rt = Inr (rt, [])"
| "remove_neighbor_rows self_id neighbor_id (r # rs) rt =
     (let recipient_id = recipient_ids rt ! r in
      if recipient_id \<noteq> NO_NODE_ID
      then err_bind (update_routing_and_announce_given_new_path self_id neighbor_id recipient_id None rt)
             (\<lambda>(rt', ms). err_bind (remove_neighbor_rows self_id neighbor_id rs rt')
               (\<lambda>(rt'', ms'). Inr (rt'', ms @ ms')))
      else remove_neighbor_rows self_id neighbor_id rs rt)"

text \<open>\<^verbatim>\<open>remove_routing_neighbor(neighbor_id)\<close>: nothing for an unknown
  neighbour; otherwise every allocated row is updated as if the neighbour had
  announced the path-absent form, and then the neighbour slot is freed.\<close>

definition remove_routing_neighbor :: "node_id \<Rightarrow> node_id \<Rightarrow> routing \<Rightarrow> error + routing \<times> string list" where
  "remove_routing_neighbor self_id neighbor_id rt =
     err_bind (get_neighbor_index neighbor_id False rt) (\<lambda>(neighbor, _).
       if neighbor = NO_NODE_INDEX then Inr (rt, [])
       else err_bind (remove_neighbor_rows self_id neighbor_id [0..<MAX_RECIPIENTS] rt) (\<lambda>(rt', ms).
              Inr (rt'\<lparr>neighbor_ids := (neighbor_ids rt')[nat neighbor := NO_NODE_ID]\<rparr>, ms)))"

text \<open>The lines of \<^verbatim>\<open>send_shortest_paths\<close>: the self line, then one line per
  allocated recipient slot in slot order.\<close>

fun route_lines :: "node_id \<Rightarrow> routing \<Rightarrow> nat list \<Rightarrow> error + string list" where
  "route_lines self_id rt [] = Inr []"
| "route_lines self_id rt (r # rs) =
     (let recipient_id = recipient_ids rt ! r in
      if recipient_id \<noteq> NO_NODE_ID
      then (let neighbor = forwarding_table rt ! r in
            err_bind (get_route_message self_id recipient_id
                        (if neighbor = NO_NODE_INDEX then None else Some (routing_table rt ! r ! nat neighbor)))
              (\<lambda>m. err_bind (route_lines self_id rt rs) (\<lambda>ms. Inr (m # ms))))
      else route_lines self_id rt rs)"

definition shortest_path_lines :: "node_id \<Rightarrow> routing \<Rightarrow> error + string list" where
  "shortest_path_lines self_id rt =
     err_bind (route_lines self_id rt [0..<MAX_RECIPIENTS]) (\<lambda>ms.
       Inr ((''ROUTE '' @ fmt_node_id self_id @ '' '' @ fmt_node_id self_id @ '' '' @
             fmt_node_id self_id @ ''\<newline>'') # ms))"

section \<open>The table invariant\<close>

text \<open>A cell is a candidate when its neighbour slot is allocated and its path is
  valid; these are the cells the shortest-path search considers.\<close>

definition is_candidate :: "node_id list \<Rightarrow> path list \<Rightarrow> nat \<Rightarrow> bool" where
  "is_candidate nids row ni \<longleftrightarrow> nids ! ni \<noteq> NO_NODE_ID \<and> hop_count (row ! ni) \<noteq> INVALID_PATH"

text \<open>What the search over the first \<open>k\<close> slots computes: \<open>-1\<close> when there is
  no candidate, otherwise a candidate of minimal hop count.\<close>

definition closest_spec :: "node_id list \<Rightarrow> path list \<Rightarrow> nat \<Rightarrow> node_index \<Rightarrow> bool" where
  "closest_spec nids row k c \<longleftrightarrow>
     (if \<exists>ni<k. is_candidate nids row ni
      then 0 \<le> c \<and> nat c < k \<and> is_candidate nids row (nat c) \<and>
           (\<forall>ni<k. is_candidate nids row ni \<longrightarrow> hop_count (row ! nat c) \<le> hop_count (row ! ni))
      else c = NO_NODE_INDEX)"

definition valid_entry :: "routing \<Rightarrow> nat \<Rightarrow> nat \<Rightarrow> bool" where
  "valid_entry rt r n \<longleftrightarrow> is_candidate (neighbor_ids rt) (routing_table rt ! r) n"

text \<open>A path handed to \<^verbatim>\<open>update_routing_given_new_path\<close> is NULL or well
  formed (the \<^verbatim>\<open>ROUTE\<close> parser produces hop counts \<open>i - 1 \<ge> 0\<close> over arrays of
  \<open>i\<close> ids).\<close>

definition path_in_wf :: "path option \<Rightarrow> bool" where
  "path_in_wf p \<longleftrightarrow> (case p of None \<Rightarrow> True | Some q \<Rightarrow> path_wf q)"

text \<open>A stored path is sound when its hop count is a length its array holds and
  this node is not among its ids (loop freedom).\<close>

definition entry_ok :: "node_id \<Rightarrow> path \<Rightarrow> bool" where
  "entry_ok self_id p \<longleftrightarrow>
     0 \<le> hop_count p \<and> nat (hop_count p) \<le> length (nodes p) \<and> self_id \<notin> set (path_nodes p)"

text \<open>Forwarding agreement for row \<open>r\<close>: the chosen neighbour slot is in range,
  its cell is a candidate, and no candidate of the row has fewer hops.\<close>

definition chosen_ok :: "routing \<Rightarrow> nat \<Rightarrow> bool" where
  "chosen_ok rt r \<longleftrightarrow>
     (let f = forwarding_table rt ! r in
      0 \<le> f \<and> nat f < MAX_NEIGHBORS \<and> valid_entry rt r (nat f) \<and>
      (\<forall>n<MAX_NEIGHBORS. valid_entry rt r n \<longrightarrow>
          hop_count (routing_table rt ! r ! nat f) \<le> hop_count (routing_table rt ! r ! n)))"

definition entries_ok :: "node_id \<Rightarrow> routing \<Rightarrow> nat \<Rightarrow> bool" where
  "entries_ok self_id rt r \<longleftrightarrow>
     (\<forall>n<MAX_NEIGHBORS. valid_entry rt r n \<longrightarrow> entry_ok self_id (routing_table rt ! r ! n))"

definition row_inv :: "node_id \<Rightarrow> routing \<Rightarrow> nat \<Rightarrow> bool" where
  "row_inv self_id rt r \<longleftrightarrow>
     recipient_ids rt ! r \<noteq> self_id \<and> chosen_ok rt r \<and> entries_ok self_id rt r"

text \<open>Allocated slots hold distinct ids.\<close>

definition slot_ids_distinct :: "node_id list \<Rightarrow> bool" where
  "slot_ids_distinct xs \<longleftrightarrow>
     (\<forall>i<length xs. \<forall>j<length xs. i \<noteq> j \<longrightarrow> xs ! i = xs ! j \<longrightarrow> xs ! i = NO_NODE_ID)"

definition table_shape :: "routing \<Rightarrow> bool" where
  "table_shape rt \<longleftrightarrow>
     length (recipient_ids rt) = MAX_RECIPIENTS \<and> length (neighbor_ids rt) = MAX_NEIGHBORS \<and>
     length (forwarding_table rt) = MAX_RECIPIENTS \<and> length (routing_table rt) = MAX_RECIPIENTS \<and>
     (\<forall>row\<in>set (routing_table rt). length row = MAX_NEIGHBORS) \<and>
     slot_ids_distinct (recipient_ids rt) \<and> slot_ids_distinct (neighbor_ids rt)"

text \<open>The invariant: the arrays have their declared sizes, allocated slots hold
  distinct ids, and every allocated recipient slot satisfies the row
  invariant.\<close>

definition routing_inv :: "node_id \<Rightarrow> routing \<Rightarrow> bool" where
  "routing_inv self_id rt \<longleftrightarrow>
     table_shape rt \<and>
     (\<forall>r<MAX_RECIPIENTS. recipient_ids rt ! r \<noteq> NO_NODE_ID \<longrightarrow> row_inv self_id rt r)"

section \<open>Lemmas: the shortest-path search\<close>

lemma closest_spec_0: "closest_spec nids row 0 NO_NODE_INDEX"
  by (simp add: closest_spec_def)

lemma closest_spec_step:
  assumes "closest_spec nids row k c"
  shows "closest_spec nids row (Suc k) (closest_step nids row c k)"
proof (cases "is_candidate nids row k")
  case False
  with assms show ?thesis
    by (auto simp: closest_spec_def closest_step_def is_candidate_def less_Suc_eq split: if_splits)
next
  case True
  show ?thesis
  proof (cases "\<exists>ni<k. is_candidate nids row ni")
    case False
    with assms True show ?thesis
      by (auto simp: closest_spec_def closest_step_def is_candidate_def less_Suc_eq)
  next
    case ex: True
    with assms have c: "0 \<le> c" "nat c < k" "is_candidate nids row (nat c)"
      and min: "\<forall>ni<k. is_candidate nids row ni \<longrightarrow> hop_count (row ! nat c) \<le> hop_count (row ! ni)"
      by (auto simp: closest_spec_def)
    show ?thesis
    proof (cases "hop_count (row ! k) < hop_count (row ! nat c)")
      case lt: True
      with True c have "closest_step nids row c k = int k"
        by (auto simp: closest_step_def is_candidate_def)
      with lt min True show ?thesis
        by (auto simp: closest_spec_def less_Suc_eq intro: order.strict_implies_order
                 dest: order.strict_trans2)
    next
      case ge: False
      with c have "closest_step nids row c k = c"
        by (auto simp: closest_step_def)
      with ge c min show ?thesis
        by (auto simp: closest_spec_def less_Suc_eq)
    qed
  qed
qed

lemma closest_spec_foldl: "closest_spec nids row k (foldl (closest_step nids row) NO_NODE_INDEX [0..<k])"
proof (induction k)
  case 0
  then show ?case by (simp add: closest_spec_0)
next
  case (Suc k)
  then show ?case by (simp add: closest_spec_step)
qed

lemma find_closest_neighbor_spec:
  "closest_spec nids row MAX_NEIGHBORS (find_closest_neighbor nids row)"
  unfolding find_closest_neighbor_def by (rule closest_spec_foldl)


lemma slot_ids_distinct_update:
  assumes d: "slot_ids_distinct xs" and x: "x \<notin> set xs \<or> x = NO_NODE_ID"
  shows "slot_ids_distinct (xs[i := x])"
  unfolding slot_ids_distinct_def
proof (intro allI impI)
  fix a b
  assume a: "a < length (xs[i := x])" and b: "b < length (xs[i := x])" and ab: "a \<noteq> b"
    and eq: "xs[i := x] ! a = xs[i := x] ! b"
  show "xs[i := x] ! a = NO_NODE_ID"
  proof (cases "a = i \<or> b = i")
    case True
    with a b ab eq have "xs[i := x] ! a = x" and "x \<in> set xs \<or> x = NO_NODE_ID"
      by (auto simp: nth_list_update)
    with x show ?thesis by auto
  next
    case False
    with a b ab eq d show ?thesis by (simp add: slot_ids_distinct_def)
  qed
qed

lemma row_inv_cong:
  assumes "recipient_ids rt' ! r = recipient_ids rt ! r"
    and "forwarding_table rt' ! r = forwarding_table rt ! r"
    and "\<forall>m<MAX_NEIGHBORS. valid_entry rt' r m = valid_entry rt r m"
    and "\<forall>m<MAX_NEIGHBORS. valid_entry rt r m \<longrightarrow> routing_table rt' ! r ! m = routing_table rt ! r ! m"
  shows "row_inv self_id rt' r = row_inv self_id rt r"
  using assms unfolding row_inv_def chosen_ok_def entries_ok_def Let_def
  by (intro conj_cong refl; metis)

lemma get_neighbor_index_add:
  assumes "table_shape rt" "get_neighbor_index nbr True rt = Inr (n, rt1)"
  shows "0 \<le> n \<and> nat n < MAX_NEIGHBORS \<and> recipient_ids rt1 = recipient_ids rt \<and>
         forwarding_table rt1 = forwarding_table rt \<and> neighbor_ids rt1 ! nat n = nbr \<and>
         (rt1 = rt \<or>
          (neighbor_ids rt ! nat n = NO_NODE_ID \<and> nbr \<notin> set (neighbor_ids rt) \<and>
           neighbor_ids rt1 = (neighbor_ids rt)[nat n := nbr] \<and>
           routing_table rt1 = map (\<lambda>row. row[nat n := (row ! nat n)\<lparr>hop_count := INVALID_PATH\<rparr>]) (routing_table rt)))"
  using assms
  by (auto simp: get_neighbor_index_def table_shape_def first_index_Some_iff
           split: option.splits if_splits)

lemma get_neighbor_index_frame:
  assumes "table_shape rt" "get_neighbor_index nbr True rt = Inr (n, rt1)" "r < MAX_RECIPIENTS"
  shows "\<forall>m<MAX_NEIGHBORS. valid_entry rt1 r m = valid_entry rt r m \<and>
           (valid_entry rt r m \<longrightarrow> routing_table rt1 ! r ! m = routing_table rt ! r ! m)"
proof (cases "rt1 = rt")
  case True
  then show ?thesis by simp
next
  case False
  with get_neighbor_index_add [OF assms(1,2)]
  have n: "nat n < MAX_NEIGHBORS" and free: "neighbor_ids rt ! nat n = NO_NODE_ID"
    and ids: "neighbor_ids rt1 = (neighbor_ids rt)[nat n := nbr]"
    and tab: "routing_table rt1 = map (\<lambda>row. row[nat n := (row ! nat n)\<lparr>hop_count := INVALID_PATH\<rparr>]) (routing_table rt)"
    by auto
  have rows: "length (routing_table rt) = MAX_RECIPIENTS" "length (routing_table rt ! r) = MAX_NEIGHBORS"
    "length (neighbor_ids rt) = MAX_NEIGHBORS"
    using assms(1,3) by (auto simp: table_shape_def)
  show ?thesis
  proof (intro allI impI)
    fix m assume "m < MAX_NEIGHBORS"
    then show "valid_entry rt1 r m = valid_entry rt r m \<and>
               (valid_entry rt r m \<longrightarrow> routing_table rt1 ! r ! m = routing_table rt ! r ! m)"
      using n free rows assms(3)
      by (cases "m = nat n") (simp_all add: ids tab valid_entry_def is_candidate_def)
  qed
qed

lemma table_shape_get_neighbor_index:
  assumes "table_shape rt" "get_neighbor_index nbr True rt = Inr (n, rt1)"
  shows "table_shape rt1"
proof -
  note g = get_neighbor_index_add [OF assms]
  then show ?thesis
  proof (elim conjE disjE)
    assume "rt1 = rt"
    with assms(1) show ?thesis by simp
  next
    assume "neighbor_ids rt ! nat n = NO_NODE_ID" "nbr \<notin> set (neighbor_ids rt)"
      "neighbor_ids rt1 = (neighbor_ids rt)[nat n := nbr]"
      "routing_table rt1 = map (\<lambda>row. row[nat n := (row ! nat n)\<lparr>hop_count := INVALID_PATH\<rparr>]) (routing_table rt)"
    with g assms(1) show ?thesis
      by (auto simp: table_shape_def slot_ids_distinct_update)
  qed
qed

lemma routing_inv_get_neighbor_index:
  assumes "routing_inv self_id rt" "get_neighbor_index nbr True rt = Inr (n, rt1)"
  shows "routing_inv self_id rt1"
proof -
  have sh: "table_shape rt" using assms(1) by (simp add: routing_inv_def)
  note g = get_neighbor_index_add [OF sh assms(2)]
  have "row_inv self_id rt1 r = row_inv self_id rt r" if "r < MAX_RECIPIENTS" for r
    using g get_neighbor_index_frame [OF sh assms(2) that] by (intro row_inv_cong) simp_all
  with assms g table_shape_get_neighbor_index [OF sh assms(2)] show ?thesis
    by (simp add: routing_inv_def)
qed

lemma get_recipient_index_add:
  assumes "table_shape rt" "get_recipient_index rid True rt = Inr (rr, rt2)"
  shows "0 \<le> rr \<and> nat rr < MAX_RECIPIENTS \<and> neighbor_ids rt2 = neighbor_ids rt \<and>
         recipient_ids rt2 ! nat rr = rid \<and>
         (rt2 = rt \<or>
          (recipient_ids rt ! nat rr = NO_NODE_ID \<and> rid \<notin> set (recipient_ids rt) \<and>
           recipient_ids rt2 = (recipient_ids rt)[nat rr := rid] \<and>
           routing_table rt2 = (routing_table rt)[nat rr :=
              map (\<lambda>p. p\<lparr>hop_count := INVALID_PATH\<rparr>) (routing_table rt ! nat rr)] \<and>
           forwarding_table rt2 = (forwarding_table rt)[nat rr := NO_NODE_INDEX]))"
  using assms
  by (auto simp: get_recipient_index_def table_shape_def first_index_Some_iff
           split: option.splits if_splits)

lemma table_shape_get_recipient_index:
  assumes "table_shape rt" "get_recipient_index rid True rt = Inr (rr, rt2)"
  shows "table_shape rt2"
proof -
  note g = get_recipient_index_add [OF assms]
  then show ?thesis
  proof (elim conjE disjE)
    assume "rt2 = rt"
    with assms(1) show ?thesis by simp
  next
    assume a: "recipient_ids rt ! nat rr = NO_NODE_ID" "rid \<notin> set (recipient_ids rt)"
      "recipient_ids rt2 = (recipient_ids rt)[nat rr := rid]"
      "routing_table rt2 = (routing_table rt)[nat rr :=
              map (\<lambda>p. p\<lparr>hop_count := INVALID_PATH\<rparr>) (routing_table rt ! nat rr)]"
      "forwarding_table rt2 = (forwarding_table rt)[nat rr := NO_NODE_INDEX]"
    have "\<forall>row\<in>set (routing_table rt2). length row = MAX_NEIGHBORS"
      using assms(1) g a(4) by (auto simp: table_shape_def dest: set_update_subset_insert [THEN subsetD])
    with g a assms(1) show ?thesis
      by (auto simp: table_shape_def slot_ids_distinct_update)
  qed
qed

lemma get_recipient_index_other:
  assumes "table_shape rt" "get_recipient_index rid True rt = Inr (rr, rt2)" "j \<noteq> nat rr"
  shows "recipient_ids rt2 ! j = recipient_ids rt ! j \<and> forwarding_table rt2 ! j = forwarding_table rt ! j \<and>
         routing_table rt2 ! j = routing_table rt ! j"
  using get_recipient_index_add [OF assms(1,2)] assms(3) by (elim conjE disjE) simp_all

lemma update_slot_fields:
  fixes self_id path_in n r rt
  defines "row \<equiv> (routing_table rt ! r)[n := copy_path (routing_table rt ! r ! n) (incoming_path self_id path_in)]"
  defines "c \<equiv> choose_closest (neighbor_ids rt) row (forwarding_table rt ! r)"
  shows "neighbor_ids (snd (update_slot self_id path_in n r rt)) = neighbor_ids rt"
    and "routing_table (snd (update_slot self_id path_in n r rt)) = (routing_table rt)[r := row]"
    and "forwarding_table (snd (update_slot self_id path_in n r rt)) = (forwarding_table rt)[r := c]"
    and "recipient_ids (snd (update_slot self_id path_in n r rt)) =
           (if c = NO_NODE_INDEX then (recipient_ids rt)[r := NO_NODE_ID] else recipient_ids rt)"
    and "fst (update_slot self_id path_in n r rt) \<longleftrightarrow>
           forwarding_table rt ! r \<noteq> c \<or>
           (c \<noteq> NO_NODE_INDEX \<and>
            \<not> are_paths_equal (if forwarding_table rt ! r \<noteq> NO_NODE_INDEX
                                then copy_path invalid_path (routing_table rt ! r ! nat (forwarding_table rt ! r))
                                else invalid_path) (row ! nat c))"
  by (simp_all add: update_slot_def Let_def row_def c_def)

lemma update_routing_given_new_path_Inr:
  assumes "update_routing_given_new_path self_id nbr rid path_in rt = Inr (ch, rt')"
    and "rid \<noteq> self_id" "nbr \<noteq> self_id"
  obtains n rt1 rr rt2 where "get_neighbor_index nbr True rt = Inr (n, rt1)"
    and "get_recipient_index rid True rt1 = Inr (rr, rt2)"
    and "(ch, rt') = update_slot self_id path_in (nat n) (nat rr) rt2"
proof -
  from assms obtain n rt1 where gn: "get_neighbor_index nbr True rt = Inr (n, rt1)"
    by (auto simp: update_routing_given_new_path_def err_bind_def split: sum.splits)
  with assms obtain rr rt2 where gr: "get_recipient_index rid True rt1 = Inr (rr, rt2)"
    by (auto simp: update_routing_given_new_path_def err_bind_def split: sum.splits)
  from assms gn gr have "(ch, rt') = update_slot self_id path_in (nat n) (nat rr) rt2"
    by (simp add: update_routing_given_new_path_def)
  with gn gr that show ?thesis by blast
qed

lemma choose_closest_spec:
  assumes "old = NO_NODE_INDEX \<or> (0 \<le> old \<and> nat old < MAX_NEIGHBORS \<and> nids ! nat old \<noteq> NO_NODE_ID)"
  shows "closest_spec nids row MAX_NEIGHBORS (choose_closest nids row old)"
proof -
  define c0 where "c0 = find_closest_neighbor nids row"
  have spec0: "closest_spec nids row MAX_NEIGHBORS c0"
    unfolding c0_def by (rule find_closest_neighbor_spec)
  show ?thesis
  proof (cases "old \<noteq> NO_NODE_INDEX \<and> c0 \<noteq> NO_NODE_INDEX \<and> hop_count (row ! nat old) = hop_count (row ! nat c0)")
    case True
    with spec0 have ex: "\<exists>ni<MAX_NEIGHBORS. is_candidate nids row ni"
      and c0: "is_candidate nids row (nat c0)"
      and min: "\<forall>ni<MAX_NEIGHBORS. is_candidate nids row ni \<longrightarrow> hop_count (row ! nat c0) \<le> hop_count (row ! ni)"
      by (auto simp: closest_spec_def split: if_splits)
    with True assms have "is_candidate nids row (nat old)"
      by (auto simp: is_candidate_def)
    with True assms ex min show ?thesis
      by (auto simp: choose_closest_def c0_def [symmetric] closest_spec_def)
  next
    case False
    with spec0 show ?thesis by (auto simp: choose_closest_def c0_def [symmetric])
  qed
qed

lemma choose_closest_keeps_tied:
  assumes "0 \<le> old" "nat old < MAX_NEIGHBORS" "is_candidate nids row (nat old)"
    and "\<forall>m<MAX_NEIGHBORS. is_candidate nids row m \<longrightarrow> hop_count (row ! nat old) \<le> hop_count (row ! m)"
  shows "choose_closest nids row old = old"
proof -
  define c0 where "c0 = find_closest_neighbor nids row"
  have spec: "closest_spec nids row MAX_NEIGHBORS c0"
    unfolding c0_def by (rule find_closest_neighbor_spec)
  have ex: "\<exists>ni<MAX_NEIGHBORS. is_candidate nids row ni"
    using assms(2,3) by blast
  from spec ex have c0: "0 \<le> c0" "nat c0 < MAX_NEIGHBORS" "is_candidate nids row (nat c0)"
    and all: "\<forall>ni<MAX_NEIGHBORS. is_candidate nids row ni \<longrightarrow> hop_count (row ! nat c0) \<le> hop_count (row ! ni)"
    by (simp_all add: closest_spec_def)
  from all assms(2,3) have le: "hop_count (row ! nat c0) \<le> hop_count (row ! nat old)"
    by blast
  with assms(4) c0 have "hop_count (row ! nat old) = hop_count (row ! nat c0)"
    by (simp add: order_antisym)
  with assms c0 show ?thesis
    by (simp add: choose_closest_def c0_def [symmetric])
qed

lemma entry_ok_copy_path: "entry_ok self_id p \<Longrightarrow> entry_ok self_id (copy_path d p)"
  by (auto simp: entry_ok_def copy_path_def path_nodes_def)

lemma entry_ok_incoming_path:
  assumes "path_in_wf path_in" "hop_count (incoming_path self_id path_in) \<noteq> INVALID_PATH"
  shows "entry_ok self_id (incoming_path self_id path_in)"
  using assms
  by (auto simp: path_in_wf_def incoming_path_def path_wf_def entry_ok_def copy_path_def
                 path_nodes_def invalid_path_def min_def split: option.splits if_splits)

lemma update_slot_other_row:
  assumes "j \<noteq> r"
  shows "recipient_ids (snd (update_slot self_id path_in n r rt)) ! j = recipient_ids rt ! j"
    and "forwarding_table (snd (update_slot self_id path_in n r rt)) ! j = forwarding_table rt ! j"
    and "routing_table (snd (update_slot self_id path_in n r rt)) ! j = routing_table rt ! j"
    and "neighbor_ids (snd (update_slot self_id path_in n r rt)) = neighbor_ids rt"
  using assms by (simp_all add: update_slot_fields)

lemma table_shape_update_slot:
  assumes "table_shape rt" "r < MAX_RECIPIENTS"
  shows "table_shape (snd (update_slot self_id path_in n r rt))"
proof -
  have "length (routing_table rt ! r) = MAX_NEIGHBORS"
    using assms by (simp add: table_shape_def)
  then have "\<forall>row\<in>set (routing_table (snd (update_slot self_id path_in n r rt))). length row = MAX_NEIGHBORS"
    using assms by (auto simp: update_slot_fields table_shape_def dest: set_update_subset_insert [THEN subsetD])
  with assms show ?thesis
    by (auto simp: update_slot_fields table_shape_def slot_ids_distinct_update)
qed

text \<open>The row the update writes satisfies the row invariant whenever it stays
  allocated, provided the previous choice was a live neighbour slot (or none)
  and the other candidates of the row were sound.\<close>

lemma update_slot_row_inv:
  fixes rt :: routing and self_id :: node_id and path_in :: "path option" and n r :: nat
  defines "rt' \<equiv> snd (update_slot self_id path_in n r rt)"
  assumes sh: "table_shape rt" and r: "r < MAX_RECIPIENTS" and n: "n < MAX_NEIGHBORS"
    and wf: "path_in_wf path_in"
    and id: "recipient_ids rt ! r \<noteq> self_id"
    and old: "forwarding_table rt ! r = NO_NODE_INDEX \<or>
              (0 \<le> forwarding_table rt ! r \<and> nat (forwarding_table rt ! r) < MAX_NEIGHBORS \<and>
               neighbor_ids rt ! nat (forwarding_table rt ! r) \<noteq> NO_NODE_ID)"
    and ent: "\<forall>m<MAX_NEIGHBORS. m \<noteq> n \<longrightarrow> valid_entry rt r m \<longrightarrow> entry_ok self_id (routing_table rt ! r ! m)"
    and alloc: "recipient_ids rt' ! r \<noteq> NO_NODE_ID"
  shows "row_inv self_id rt' r"
proof -
  define row where "row = (routing_table rt ! r)[n := copy_path (routing_table rt ! r ! n) (incoming_path self_id path_in)]"
  define c where "c = choose_closest (neighbor_ids rt) row (forwarding_table rt ! r)"
  have len: "length (recipient_ids rt) = MAX_RECIPIENTS" "length (forwarding_table rt) = MAX_RECIPIENTS"
    "length (routing_table rt) = MAX_RECIPIENTS" "length (routing_table rt ! r) = MAX_NEIGHBORS"
    using sh r by (auto simp: table_shape_def)
  have f: "recipient_ids rt' ! r = (if c = NO_NODE_INDEX then NO_NODE_ID else recipient_ids rt ! r)"
    "forwarding_table rt' ! r = c" "routing_table rt' ! r = row" "neighbor_ids rt' = neighbor_ids rt"
    using len r by (simp_all add: rt'_def update_slot_fields row_def c_def)
  with alloc have c_ne: "c \<noteq> NO_NODE_INDEX" by auto
  have spec: "closest_spec (neighbor_ids rt) row MAX_NEIGHBORS c"
    unfolding c_def using old by (rule choose_closest_spec)
  with c_ne have ex: "\<exists>ni<MAX_NEIGHBORS. is_candidate (neighbor_ids rt) row ni"
    by (auto simp: closest_spec_def split: if_splits)
  with spec have c: "0 \<le> c" "nat c < MAX_NEIGHBORS" "is_candidate (neighbor_ids rt) row (nat c)"
    and min: "\<forall>m<MAX_NEIGHBORS. is_candidate (neighbor_ids rt) row m \<longrightarrow> hop_count (row ! nat c) \<le> hop_count (row ! m)"
    by (simp_all add: closest_spec_def)
  have ve: "valid_entry rt' r m = is_candidate (neighbor_ids rt) row m" for m
    using f by (simp add: valid_entry_def)
  have chosen: "chosen_ok rt' r"
    using c min f by (simp add: chosen_ok_def ve)
  have entries: "entries_ok self_id rt' r"
    unfolding entries_ok_def ve
  proof (intro allI impI)
    fix m assume m: "m < MAX_NEIGHBORS" and cand: "is_candidate (neighbor_ids rt) row m"
    show "entry_ok self_id (routing_table rt' ! r ! m)"
    proof (cases "m = n")
      case True
      with cand n len have "hop_count (incoming_path self_id path_in) \<noteq> INVALID_PATH"
        by (simp add: row_def is_candidate_def)
      with wf have "entry_ok self_id (incoming_path self_id path_in)"
        by (rule entry_ok_incoming_path)
      with True n len f show ?thesis
        by (simp add: row_def entry_ok_copy_path)
    next
      case False
      with cand m len have "valid_entry rt r m"
        by (simp add: row_def is_candidate_def valid_entry_def)
      with ent m False f len show ?thesis by (simp add: row_def)
    qed
  qed
  from f c_ne id chosen entries show ?thesis by (simp add: row_inv_def)
qed

text \<open>Claim C2: \<^verbatim>\<open>update_routing_given_new_path\<close> preserves the table
  invariant: after any successful update with a NULL or well-formed path, the
  arrays keep their sizes, allocated slots keep distinct ids, and every
  allocated recipient row forwards through an allocated neighbour whose path is
  valid and of minimal hop count, and no valid path of the row contains this
  node's id.\<close>

theorem update_routing_preserves_inv:
  assumes inv: "routing_inv self_id rt" and wf: "path_in_wf path_in"
    and upd: "update_routing_given_new_path self_id nbr rid path_in rt = Inr (ch, rt')"
  shows "routing_inv self_id rt'"
proof (cases "rid = self_id \<or> nbr = self_id")
  case True
  with upd inv show ?thesis by (auto simp: update_routing_given_new_path_def split: if_splits)
next
  case False
  then have ne: "rid \<noteq> self_id" "nbr \<noteq> self_id" by auto
  obtain n rt1 rr rt2 where gn: "get_neighbor_index nbr True rt = Inr (n, rt1)"
    and gr: "get_recipient_index rid True rt1 = Inr (rr, rt2)"
    and res: "(ch, rt') = update_slot self_id path_in (nat n) (nat rr) rt2"
    using update_routing_given_new_path_Inr [OF upd ne] by blast
  have sh: "table_shape rt" using inv by (simp add: routing_inv_def)
  have inv1: "routing_inv self_id rt1" using inv gn by (rule routing_inv_get_neighbor_index)
  then have sh1: "table_shape rt1" by (simp add: routing_inv_def)
  note g = get_recipient_index_add [OF sh1 gr]
  have sh2: "table_shape rt2" using sh1 gr by (rule table_shape_get_recipient_index)
  define r where "r = nat rr"
  have r: "r < MAX_RECIPIENTS" and n: "nat n < MAX_NEIGHBORS"
    using g get_neighbor_index_add [OF sh gn] by (simp_all add: r_def)
  have rt': "rt' = snd (update_slot self_id path_in (nat n) r rt2)"
    using res by (simp add: r_def prod_eq_iff)
  have shape': "table_shape rt'"
    unfolding rt' using sh2 r by (rule table_shape_update_slot)
  have other: "row_inv self_id rt' j" if j: "j < MAX_RECIPIENTS" "j \<noteq> r" "recipient_ids rt' ! j \<noteq> NO_NODE_ID" for j
  proof -
    have eq1: "row_inv self_id rt2 j = row_inv self_id rt1 j"
      using get_recipient_index_other [OF sh1 gr, of j] g j by (intro row_inv_cong) (simp_all add: r_def valid_entry_def)
    have eq2: "row_inv self_id rt' j = row_inv self_id rt2 j"
      unfolding rt' using update_slot_other_row [OF j(2)] by (intro row_inv_cong) (simp_all add: valid_entry_def)
    have "recipient_ids rt1 ! j \<noteq> NO_NODE_ID"
      using j get_recipient_index_other [OF sh1 gr, of j] update_slot_other_row [OF j(2)]
      by (simp add: rt' r_def)
    with inv1 j have "row_inv self_id rt1 j" by (simp add: routing_inv_def)
    with eq1 eq2 show ?thesis by simp
  qed
  have own: "row_inv self_id rt' r" if alloc: "recipient_ids rt' ! r \<noteq> NO_NODE_ID"
  proof -
    have "recipient_ids rt2 ! r \<noteq> NO_NODE_ID"
      using alloc sh2 r by (auto simp: rt' update_slot_fields table_shape_def split: if_splits)
    then have rid: "rid \<noteq> NO_NODE_ID" "recipient_ids rt2 ! r = rid"
      using g by (simp_all add: r_def)
    have oe: "(forwarding_table rt2 ! r = NO_NODE_INDEX \<or>
              (0 \<le> forwarding_table rt2 ! r \<and> nat (forwarding_table rt2 ! r) < MAX_NEIGHBORS \<and>
               neighbor_ids rt2 ! nat (forwarding_table rt2 ! r) \<noteq> NO_NODE_ID)) \<and>
          (\<forall>m<MAX_NEIGHBORS. m \<noteq> nat n \<longrightarrow> valid_entry rt2 r m \<longrightarrow> entry_ok self_id (routing_table rt2 ! r ! m))"
    proof (cases "rt2 = rt1")
      case True
      with inv1 r rid have "row_inv self_id rt1 r" by (simp add: routing_inv_def)
      with True show ?thesis
        by (auto simp: row_inv_def chosen_ok_def entries_ok_def valid_entry_def is_candidate_def Let_def)
    next
      case False
      with g sh1 r have "forwarding_table rt2 ! r = NO_NODE_INDEX"
        "\<forall>m<MAX_NEIGHBORS. hop_count (routing_table rt2 ! r ! m) = INVALID_PATH"
        by (auto simp: r_def table_shape_def)
      then show ?thesis by (auto simp: valid_entry_def is_candidate_def)
    qed
    then have old: "forwarding_table rt2 ! r = NO_NODE_INDEX \<or>
              (0 \<le> forwarding_table rt2 ! r \<and> nat (forwarding_table rt2 ! r) < MAX_NEIGHBORS \<and>
               neighbor_ids rt2 ! nat (forwarding_table rt2 ! r) \<noteq> NO_NODE_ID)"
      and ent: "\<forall>m<MAX_NEIGHBORS. m \<noteq> nat n \<longrightarrow> valid_entry rt2 r m \<longrightarrow> entry_ok self_id (routing_table rt2 ! r ! m)"
      by simp_all
    show ?thesis
      unfolding rt' using sh2 r n wf _ old ent alloc [unfolded rt']
      by (rule update_slot_row_inv) (simp add: rid ne)
  qed
  show ?thesis
    unfolding routing_inv_def using shape' other own by auto
qed


lemma routing_inv_init_routing_static: "routing_inv 10 (init_routing routing_static)"
  by (simp add: routing_inv_def table_shape_def init_routing_def routing_static_def slot_ids_distinct_def)

lemma update_example:
  "\<exists>rt'. update_routing_given_new_path 10 20 30 (Some \<lparr>hop_count = 1, nodes = [20, 30]\<rparr>)
          (init_routing routing_static) = Inr (True, rt')"
proof -
  let ?R = "init_routing routing_static"
  have f1: "first_index (\<lambda>x. x = NO_NODE_ID) (replicate 15 NO_NODE_ID) = Some 0"
    by (simp add: numeral_eq_Suc)
  have f20: "first_index (\<lambda>x. x = 20) (replicate 15 NO_NODE_ID) = None"
    and f30: "first_index (\<lambda>x. x = 30) (replicate 15 NO_NODE_ID) = None"
    by simp_all
  define R1 where "R1 = ?R\<lparr>neighbor_ids := (replicate MAX_NEIGHBORS NO_NODE_ID)[0 := 20],
      routing_table := map (\<lambda>row. row[0 := (row ! 0)\<lparr>hop_count := INVALID_PATH\<rparr>]) (routing_table ?R)\<rparr>"
  define R2 where "R2 = R1\<lparr>recipient_ids := (replicate MAX_RECIPIENTS NO_NODE_ID)[0 := 30],
      routing_table := (routing_table R1)[0 := map (\<lambda>p. p\<lparr>hop_count := INVALID_PATH\<rparr>) (routing_table R1 ! 0)],
      forwarding_table := (forwarding_table R1)[0 := NO_NODE_INDEX]\<rparr>"
  have gn: "get_neighbor_index 20 True ?R = Inr (0, R1)"
    by (simp add: get_neighbor_index_def init_routing_def f1 f20 R1_def)
  have gr: "get_recipient_index 30 True R1 = Inr (0, R2)"
    by (simp add: R1_def R2_def get_recipient_index_def init_routing_def f1 f30)
  have "update_routing_given_new_path 10 20 30 (Some \<lparr>hop_count = 1, nodes = [20, 30]\<rparr>) ?R =
        Inr (update_slot 10 (Some \<lparr>hop_count = 1, nodes = [20, 30]\<rparr>) 0 0 R2)"
    by (simp add: update_routing_given_new_path_def gn gr)
  moreover have "fst (update_slot 10 (Some \<lparr>hop_count = 1, nodes = [20, 30]\<rparr>) 0 0 R2)"
    unfolding R2_def R1_def by code_simp
  ultimately show ?thesis by (metis prod.collapse)
qed

theorem update_routing_preserves_inv_witness:
  "\<exists>rt'. update_routing_given_new_path 10 20 30 (Some \<lparr>hop_count = 1, nodes = [20, 30]\<rparr>)
            (init_routing routing_static) = Inr (True, rt') \<and> routing_inv 10 rt'"
proof -
  obtain rt' where upd: "update_routing_given_new_path 10 20 30 (Some \<lparr>hop_count = 1, nodes = [20, 30]\<rparr>)
                          (init_routing routing_static) = Inr (True, rt')"
    using update_example by blast
  have "routing_inv 10 (init_routing routing_static)"
    by (rule routing_inv_init_routing_static)
  moreover have "path_in_wf (Some \<lparr>hop_count = 1, nodes = [20, 30]\<rparr>)"
    by (simp add: path_in_wf_def path_wf_def)
  ultimately have "routing_inv 10 rt'"
    using upd by (rule update_routing_preserves_inv)
  with upd show ?thesis by blast
qed

text \<open>Claim C13: the routing arrays are globals that start zeroed, and a direct
  join that creates a one-node ring never calls \<^verbatim>\<open>init_routing\<close>. On the
  zeroed tables every neighbour slot already holds id \<open>0\<close>, so the first path
  from any neighbour other than node 0 cannot get a slot and the process exits
  with "Ran out of space for nodes in the routing tables".\<close>

theorem update_on_static_tables_fails:
  assumes "nbr \<noteq> 0" "nbr \<noteq> self_id" "rid \<noteq> self_id"
  shows "update_routing_given_new_path self_id nbr rid path_in routing_static = Inl Ran_out_of_neighbors"
proof -
  have f: "first_index (\<lambda>x. x = nbr) (replicate 15 0) = None"
    and f1: "first_index (\<lambda>x. x = NO_NODE_ID) (replicate 15 0) = None"
    using assms(1) by simp_all
  from assms(2,3) show ?thesis
    by (simp add: update_routing_given_new_path_def get_neighbor_index_def routing_static_def f f1)
qed

theorem update_on_static_tables_fails_witness:
  "update_routing_given_new_path 10 20 20 (Some \<lparr>hop_count = 0, nodes = [20]\<rparr>) routing_static = Inl Ran_out_of_neighbors"
  by (rule update_on_static_tables_fails) simp_all

end
