(* ===== verification/ReadLines.thy ===== *)
theory ReadLines
  imports Prelude
begin

text \<open>
  The line-framed reader of \<^verbatim>\<open>src/read-lines.c\<close>. A connection owns a
  fixed buffer of \<^verbatim>\<open>MAX_NODE_MESSAGE_SIZE\<close> bytes and an index, the length of
  the pending partial line at the buffer's start. One call of
  \<^verbatim>\<open>read_lines\<close> performs one \<^verbatim>\<open>read()\<close> into the free part of the buffer,
  scans for newlines, hands each complete line to the handler, and moves the
  remaining partial line to the buffer's start. The handler calls are returned
  as the list of lines, in call order; what the handler does with them is the
  dispatcher's business. The theory also holds the reference splitter of a byte
  stream into lines and a residual tail, against which the reader is
  compared.
\<close>

section \<open>State and results\<close>

datatype rl_result = RL_OK | RL_END | RL_ERROR | RL_OVERFLOW

text \<open>What \<^verbatim>\<open>read()\<close> returned: \<open>-1\<close>, or the bytes it stored (none at end of
  stream).\<close>

datatype read_outcome = Read_failed | Read_bytes "char list"

text \<open>The \<^verbatim>\<open>buffer\<close> and \<^verbatim>\<open>buffer_index\<close> members of \<^verbatim>\<open>struct Connection\<close>;
  the index is never negative, so it is a \<open>nat\<close>.\<close>

record line_buffer =
  buffer :: "char list"
  buffer_index :: nat

abbreviation NL :: char where "NL \<equiv> CHR ''\<newline>''"
abbreviation NUL :: char where "NUL \<equiv> CHR 0x00"

text \<open>The string a \<^verbatim>\<open>char *\<close> designates: the bytes up to the first NUL.\<close>

definition c_string :: "char list \<Rightarrow> string" where
  "c_string xs = takeWhile (\<lambda>c. c \<noteq> NUL) xs"

section \<open>The reader\<close>

text \<open>One iteration of the scanning loop (lines 17--23): at a newline the byte
  is overwritten with NUL, the handler receives the string starting at
  \<^verbatim>\<open>message_start_index\<close>, and the next message starts after the newline.\<close>

definition scan_step :: "char list \<times> nat \<times> string list \<Rightarrow> nat \<Rightarrow> char list \<times> nat \<times> string list" where
  "scan_step st i =
     (case st of (buf, start, ls) \<Rightarrow>
        if buf ! i = NL
        then (let buf' = buf[i := NUL] in (buf', Suc i, ls @ [c_string (drop start buf')]))
        else (buf, start, ls))"

text \<open>\<^verbatim>\<open>read_lines(fd, buffer, &buffer_index, buffer_size, handler)\<close>. The
  bytes of the read are stored at \<^verbatim>\<open>buffer + *buffer_index\<close>, but the scanning
  loop runs over the positions \<open>0 .. len-1\<close>, as the source has it.\<close>

definition read_lines :: "nat \<Rightarrow> read_outcome \<Rightarrow> line_buffer \<Rightarrow> rl_result \<times> line_buffer \<times> string list" where
  "read_lines buffer_size r st =
     (case r of
        Read_failed \<Rightarrow> (RL_ERROR, st, [])
      | Read_bytes bs \<Rightarrow>
          if bs = [] then (RL_END, st\<lparr>buffer_index := 0\<rparr>, [])
          else
            (let idx = buffer_index st; len = length bs;
                 buf = take idx (buffer st) @ bs @ drop (idx + len) (buffer st)
             in case foldl scan_step (buf, 0, []) [0..<len] of
                  (buf', start, ls) \<Rightarrow>
                    (let remainder_len = idx + len - start in
                     if remainder_len = buffer_size
                     then (RL_OVERFLOW, \<lparr>buffer = buf', buffer_index = 0\<rparr>, ls)
                     else (RL_OK, \<lparr>buffer = take remainder_len (drop start buf') @ drop remainder_len buf',
                                    buffer_index = remainder_len\<rparr>, ls))))"

text \<open>The same call in its two halves, for a caller whose handlers may
  change the index in between: the read and the scanning loop (lines 7--23),
  whose result is the read's length, \<^verbatim>\<open>message_start_index\<close>, the buffer
  and the lines; and the tail (lines 25--35), which reads
  \<^verbatim>\<open>*buffer_index\<close> again after the handlers have run. A remainder that
  reaches past the buffer makes the \<^verbatim>\<open>memmove\<close> read outside it.\<close>

datatype scan_result = Scan_failed | Scan_end | Scanned nat nat "char list" "string list"

definition read_scan :: "read_outcome \<Rightarrow> line_buffer \<Rightarrow> scan_result" where
  "read_scan r st =
     (case r of
        Read_failed \<Rightarrow> Scan_failed
      | Read_bytes bs \<Rightarrow>
          if bs = [] then Scan_end
          else
            (let idx = buffer_index st; len = length bs;
                 buf = take idx (buffer st) @ bs @ drop (idx + len) (buffer st)
             in case foldl scan_step (buf, 0, []) [0..<len] of
                  (buf', start, ls) \<Rightarrow> Scanned len start buf' ls))"

definition read_finish :: "nat \<Rightarrow> nat \<Rightarrow> nat \<Rightarrow> nat \<Rightarrow> char list \<Rightarrow> error + rl_result \<times> line_buffer" where
  "read_finish buffer_size idx len start buf' =
     (let remainder_len = idx + len - start in
      if remainder_len = buffer_size
      then Inr (RL_OVERFLOW, \<lparr>buffer = buf', buffer_index = 0\<rparr>)
      else if buffer_size < start + remainder_len
      then Inl (Undefined_behaviour ''memmove reads past the line buffer'')
      else Inr (RL_OK, \<lparr>buffer = take remainder_len (drop start buf') @ drop remainder_len buf',
                        buffer_index = remainder_len\<rparr>))"

section \<open>The reference splitter\<close>

text \<open>A byte stream read left to right: a newline completes the current line,
  any other byte extends it. The result is the complete lines and the residual
  tail.\<close>

definition nl_step :: "string list \<times> string \<Rightarrow> char \<Rightarrow> string list \<times> string" where
  "nl_step st c = (case st of (ls, cur) \<Rightarrow> if c = NL then (ls @ [cur], []) else (ls, cur @ [c]))"

definition split_lines :: "char list \<Rightarrow> string list \<times> string" where
  "split_lines bs = foldl nl_step ([], []) bs"

text \<open>The buffer after the scan of the first \<open>k\<close> positions: the newlines among
  them overwritten with NUL.\<close>

definition nul_newlines :: "nat \<Rightarrow> char list \<Rightarrow> char list" where
  "nul_newlines k buf = map (\<lambda>j. if j < k \<and> buf ! j = NL then NUL else buf ! j) [0..<length buf]"

text \<open>The contract of \<^verbatim>\<open>read()\<close>: it stores at most the requested
  \<^verbatim>\<open>buffer_size - *buffer_index\<close> bytes.\<close>

definition read_fits :: "nat \<Rightarrow> read_outcome \<Rightarrow> line_buffer \<Rightarrow> bool" where
  "read_fits buffer_size r st \<longleftrightarrow>
     (case r of Read_failed \<Rightarrow> True | Read_bytes bs \<Rightarrow> length bs \<le> buffer_size - buffer_index st)"

section \<open>Lemmas: the reference splitter and the scanning loop\<close>

lemma split_lines_snoc:
  "split_lines (xs @ [c]) = nl_step (split_lines xs) c"
  by (simp add: split_lines_def)

lemma split_lines_tail_no_NL: "NL \<notin> set (snd (split_lines xs))"
proof (induction xs rule: rev_induct)
  case Nil
  then show ?case by (simp add: split_lines_def)
next
  case (snoc x xs)
  then show ?case
    by (cases "split_lines xs") (simp add: split_lines_snoc nl_step_def)
qed

lemma split_lines_tail_suffix:
  "\<exists>p. xs = p @ snd (split_lines xs)"
proof (induction xs rule: rev_induct)
  case Nil
  then show ?case by (simp add: split_lines_def)
next
  case (snoc x xs)
  then show ?case
    by (cases "split_lines xs") (auto simp: split_lines_snoc nl_step_def)
qed

lemma split_lines_no_NL: "NL \<notin> set xs \<Longrightarrow> split_lines xs = ([], xs)"
proof (induction xs rule: rev_induct)
  case Nil
  then show ?case by (simp add: split_lines_def)
next
  case (snoc x xs)
  then show ?case by (auto simp: split_lines_snoc nl_step_def)
qed

lemma c_string_at:
  assumes "m < length xs" "xs ! m = NUL" "NUL \<notin> set (take m xs)"
  shows "c_string xs = take m xs"
proof -
  have "xs = take m xs @ xs ! m # drop (Suc m) xs"
    using assms(1) by (simp add: id_take_nth_drop)
  then have "c_string xs = c_string (take m xs @ NUL # drop (Suc m) xs)"
    using assms(2) by simp
  also have "\<dots> = take m xs"
    using assms(3) unfolding c_string_def by (subst takeWhile_append2) auto
  finally show ?thesis .
qed

lemma nul_newlines_0: "nul_newlines 0 buf = buf"
  by (simp add: nul_newlines_def map_nth)

lemma length_nul_newlines [simp]: "length (nul_newlines k buf) = length buf"
  by (simp add: nul_newlines_def)

lemma nth_nul_newlines:
  "j < length buf \<Longrightarrow> nul_newlines k buf ! j = (if j < k \<and> buf ! j = NL then NUL else buf ! j)"
  by (simp add: nul_newlines_def)

lemma nul_newlines_Suc_NL:
  "k < length buf \<Longrightarrow> buf ! k = NL \<Longrightarrow> nul_newlines (Suc k) buf = (nul_newlines k buf)[k := NUL]"
  by (rule nth_equalityI) (auto simp: nth_nul_newlines nth_list_update)

lemma nul_newlines_Suc_other:
  "buf ! k \<noteq> NL \<Longrightarrow> nul_newlines (Suc k) buf = nul_newlines k buf"
  by (rule nth_equalityI) (auto simp: nth_nul_newlines less_Suc_eq)

lemma split_lines_tail_drop:
  "snd (split_lines xs) = drop (length xs - length (snd (split_lines xs))) xs"
proof -
  obtain p where "xs = p @ snd (split_lines xs)" using split_lines_tail_suffix by blast
  then show ?thesis by (metis append_eq_conv_conj add_diff_cancel_right' length_append)
qed

lemma scan_step_line:
  assumes k: "k < length buf" and nl: "buf ! k = NL" and nul: "NUL \<notin> set (take k buf)"
    and cur: "cur = drop s (take k buf)" and s: "s \<le> k" and cur_nl: "NL \<notin> set cur"
  shows "c_string (drop s ((nul_newlines k buf)[k := NUL])) = cur"
proof -
  let ?b = "(nul_newlines k buf)[k := NUL]"
  have len: "length cur = k - s" using cur k by simp
  have seg: "take (k - s) (drop s ?b) = cur"
  proof (rule nth_equalityI)
    show "length (take (k - s) (drop s ?b)) = length cur" using len k s by simp
  next
    fix j assume "j < length (take (k - s) (drop s ?b))"
    then have j: "j < k - s" using k by simp
    have c: "cur ! j = buf ! (s + j)" using cur j s k by simp
    moreover have "cur ! j \<noteq> NL" using cur_nl j len nth_mem by metis
    ultimately show "take (k - s) (drop s ?b) ! j = cur ! j"
      using j s k by (simp add: nth_list_update nth_nul_newlines)
  qed
  have "c_string (drop s ?b) = take (k - s) (drop s ?b)"
  proof (rule c_string_at)
    show "k - s < length (drop s ?b)" using k s by simp
    show "drop s ?b ! (k - s) = NUL" using k s by simp
    have "set cur \<subseteq> set (take k buf)" using cur by (simp add: set_drop_subset)
    with nul seg show "NUL \<notin> set (take (k - s) (drop s ?b))" by auto
  qed
  with seg show ?thesis by simp
qed

lemma scan_fold:
  assumes "k \<le> length buf" "NUL \<notin> set (take k buf)"
  shows "foldl scan_step (buf, 0, []) [0..<k] =
           (nul_newlines k buf, k - length (snd (split_lines (take k buf))), fst (split_lines (take k buf)))"
  using assms
proof (induction k)
  case 0
  then show ?case by (simp add: nul_newlines_0 split_lines_def)
next
  case (Suc k)
  then have k: "k < length buf" and nul: "NUL \<notin> set (take k buf)"
    by (auto simp: take_Suc_conv_app_nth)
  obtain ls cur where sl: "split_lines (take k buf) = (ls, cur)" by fastforce
  define s where "s = k - length cur"
  have cur: "cur = drop s (take k buf)" and s: "s \<le> k"
    using split_lines_tail_drop [of "take k buf"] k by (simp_all add: sl s_def)
  have cur_nl: "NL \<notin> set cur" using split_lines_tail_no_NL [of "take k buf"] by (simp add: sl)
  have IH: "foldl scan_step (buf, 0, []) [0..<k] = (nul_newlines k buf, s, ls)"
    using Suc.IH k nul by (simp add: sl s_def)
  have bk: "nul_newlines k buf ! k = buf ! k" using k by (simp add: nth_nul_newlines)
  have tk: "take (Suc k) buf = take k buf @ [buf ! k]" using k by (simp add: take_Suc_conv_app_nth)
  have step: "foldl scan_step (buf, 0, []) [0..<Suc k] = scan_step (nul_newlines k buf, s, ls) k"
    using IH by simp
  show ?case
  proof (cases "buf ! k = NL")
    case True
    have line: "c_string (drop s ((nul_newlines k buf)[k := NUL])) = cur"
      using k True nul cur s cur_nl by (rule scan_step_line)
    have "scan_step (nul_newlines k buf, s, ls) k = ((nul_newlines k buf)[k := NUL], Suc k, ls @ [cur])"
      using bk True line by (simp add: scan_step_def Let_def)
    moreover have "split_lines (take (Suc k) buf) = (ls @ [cur], [])"
      using True by (simp add: tk split_lines_snoc sl nl_step_def)
    ultimately show ?thesis
      using k True unfolding step by (simp add: nul_newlines_Suc_NL)
  next
    case False
    have "scan_step (nul_newlines k buf, s, ls) k = (nul_newlines k buf, s, ls)"
      using bk False by (simp add: scan_step_def)
    moreover have "split_lines (take (Suc k) buf) = (ls, cur @ [buf ! k])"
      using False by (simp add: tk split_lines_snoc sl nl_step_def)
    moreover have "length cur \<le> k" using cur by simp
    ultimately show ?thesis
      using False unfolding step by (simp add: nul_newlines_Suc_other s_def)
  qed
qed

lemma scan_fold_shape:
  "foldl scan_step (buf, 0, []) [0..<k] = (b, s, ls) \<Longrightarrow> length b = length buf \<and> s \<le> k"
proof (induction k arbitrary: b s ls)
  case 0
  then show ?case by simp
next
  case (Suc k)
  obtain b0 s0 ls0 where f: "foldl scan_step (buf, 0, []) [0..<k] = (b0, s0, ls0)"
    by (metis prod_cases3)
  with Suc.prems have "scan_step (b0, s0, ls0) k = (b, s, ls)" by simp
  with Suc.IH [OF f] show ?case
    by (auto simp: scan_step_def Let_def split: if_splits)
qed

lemma scan_fold_no_NL:
  "\<forall>j<k. buf ! j \<noteq> NL \<Longrightarrow> foldl scan_step (buf, s, ls) [0..<k] = (buf, s, ls)"
  by (induction k) (simp_all add: scan_step_def)

lemma read_lines_framing:
  assumes idx: "buffer_index st = 0" and len: "length (buffer st) = buffer_size"
    and ne: "bs \<noteq> []" and fits: "length bs \<le> buffer_size" and nul: "NUL \<notin> set bs"
  shows "\<exists>res st'. read_lines buffer_size (Read_bytes bs) st = (res, st', fst (split_lines bs)) \<and>
           (if length (snd (split_lines bs)) = buffer_size
            then res = RL_OVERFLOW \<and> buffer_index st' = 0
            else res = RL_OK \<and> buffer_index st' = length (snd (split_lines bs)) \<and>
                 take (buffer_index st') (buffer st') = snd (split_lines bs) \<and>
                 length (buffer st') = buffer_size)"
proof -
  define buf where "buf = bs @ drop (length bs) (buffer st)"
  define tail where "tail = snd (split_lines bs)"
  define start where "start = length bs - length tail"
  have tb: "take (length bs) buf = bs" and lb: "length buf = buffer_size"
    using len fits by (simp_all add: buf_def)
  have fold: "foldl scan_step (buf, 0, []) [0..<length bs] =
                (nul_newlines (length bs) buf, start, fst (split_lines bs))"
    using scan_fold [of "length bs" buf] tb nul lb fits by (simp add: start_def tail_def)
  have tail: "tail = drop start bs"
    using split_lines_tail_drop [of bs] by (simp add: tail_def start_def)
  then have tl: "length tail \<le> length bs" by simp
  have rem: "length bs - start = length tail" using tl by (simp add: start_def)
  have keep: "take (length tail) (drop start (nul_newlines (length bs) buf)) = tail"
  proof (rule nth_equalityI)
    show "length (take (length tail) (drop start (nul_newlines (length bs) buf))) = length tail"
      using lb fits tl by (simp add: start_def)
  next
    fix j assume "j < length (take (length tail) (drop start (nul_newlines (length bs) buf)))"
    then have j: "j < length tail" by simp
    have "tail ! j \<noteq> NL" using split_lines_tail_no_NL [of bs] j nth_mem by (metis tail_def)
    moreover have "start + j < length bs" using j tl by (simp add: start_def)
    then have "tail ! j = buf ! (start + j)"
      by (metis tail nth_drop less_or_eq_imp_le add_lessD1 buf_def nth_append)
    ultimately show "take (length tail) (drop start (nul_newlines (length bs) buf)) ! j = tail ! j"
      using j tl lb fits by (simp add: nth_nul_newlines start_def)
  qed
  have rl: "read_lines buffer_size (Read_bytes bs) st =
       (if length tail = buffer_size then (RL_OVERFLOW, \<lparr>buffer = nul_newlines (length bs) buf, buffer_index = 0\<rparr>, fst (split_lines bs))
        else (RL_OK, \<lparr>buffer = take (length tail) (drop start (nul_newlines (length bs) buf)) @
                                 drop (length tail) (nul_newlines (length bs) buf),
                      buffer_index = length tail\<rparr>, fst (split_lines bs)))"
    using ne idx fold rem by (simp add: read_lines_def buf_def [symmetric] Let_def)
  show ?thesis
    using rl keep lb tl fits by (simp add: tail_def [symmetric] min_def)
qed

text \<open>Claim C3: reading into an empty buffer frames the bytes as the
  specification requires (spec, testable property 6): for a read of NUL-free
  bytes that fits the buffer, the handler receives exactly the complete lines,
  in order, and the residual tail is kept at the buffer's start, unless it
  fills the whole buffer, in which case the tail is dropped and
  \<^verbatim>\<open>RL_OVERFLOW\<close> is returned.\<close>

theorem read_lines_frames:
  assumes idx: "buffer_index st = 0" and len: "length (buffer st) = buffer_size"
    and ne: "bs \<noteq> []" and fits: "length bs \<le> buffer_size" and nul: "NUL \<notin> set bs"
  shows "\<exists>res st'. read_lines buffer_size (Read_bytes bs) st = (res, st', fst (split_lines bs)) \<and>
           (if length (snd (split_lines bs)) = buffer_size
            then res = RL_OVERFLOW \<and> buffer_index st' = 0
            else res = RL_OK \<and> buffer_index st' = length (snd (split_lines bs)) \<and>
                 take (buffer_index st') (buffer st') = snd (split_lines bs) \<and>
                 length (buffer st') = buffer_size)"
  using assms by (rule read_lines_framing)

text \<open>Claim C17: when a partial line is pending, the scanning loop looks at
  positions \<open>0 .. len-1\<close> of the buffer instead of the positions
  \<open>*buffer_index .. *buffer_index+len-1\<close> where the new bytes were stored. A
  read no longer than the pending partial line therefore delivers no line at
  all, even when it completes one: the bytes are only appended to the pending
  text. The witness shows the line \<^verbatim>\<open>ROUTE 10 20\<close> completed by a one-byte
  read and not delivered, while the reference splitter delivers it.\<close>

theorem read_lines_delays_lines:
  assumes short: "length bs \<le> buffer_index st" and idx: "buffer_index st \<le> length (buffer st)"
    and pend: "NL \<notin> set (take (buffer_index st) (buffer st))" and ne: "bs \<noteq> []"
  shows "\<exists>res st'. read_lines buffer_size (Read_bytes bs) st = (res, st', []) \<and>
           (res = RL_OK \<longrightarrow> take (buffer_index st') (buffer st') = take (buffer_index st) (buffer st) @ bs)"
proof -
  define idx where "idx = buffer_index st"
  define buf where "buf = take idx (buffer st) @ bs @ drop (idx + length bs) (buffer st)"
  have "\<forall>j<length bs. buf ! j \<noteq> NL"
  proof (intro allI impI)
    fix j assume "j < length bs"
    with short idx have j: "j < idx" "j < length (buffer st)" by (simp_all add: idx_def)
    then have "buf ! j = take idx (buffer st) ! j" by (simp add: buf_def nth_append)
    with pend j show "buf ! j \<noteq> NL" by (metis idx_def in_set_conv_nth length_take min.absorb2 idx)
  qed
  then have fold: "foldl scan_step (buf, 0, []) [0..<length bs] = (buf, 0, [])"
    by (rule scan_fold_no_NL)
  have "take (idx + length bs) buf = take idx (buffer st) @ bs"
    using idx by (simp add: buf_def idx_def)
  moreover have "idx \<le> length (buffer st)" using idx by (simp add: idx_def)
  ultimately show ?thesis using ne fold
    by (simp add: read_lines_def buf_def [symmetric] idx_def [symmetric] Let_def)
qed

lemma read_lines_shape:
  assumes len: "length (buffer st) = buffer_size" and idx: "buffer_index st < buffer_size"
    and fits: "read_fits buffer_size r st"
    and rl: "read_lines buffer_size r st = (res, st', ls)"
  shows "length (buffer st') = buffer_size \<and> buffer_index st' < buffer_size \<and>
         (res = RL_END \<or> res = RL_OVERFLOW \<longrightarrow> buffer_index st' = 0)"
proof (cases r)
  case Read_failed
  with rl len idx show ?thesis by (auto simp: read_lines_def)
next
  case (Read_bytes bs)
  show ?thesis
  proof (cases "bs = []")
    case True
    with Read_bytes rl len idx show ?thesis by (auto simp: read_lines_def)
  next
    case False
    define i where "i = buffer_index st"
    define buf where "buf = take i (buffer st) @ bs @ drop (i + length bs) (buffer st)"
    obtain b start ls0 where f: "foldl scan_step (buf, 0, []) [0..<length bs] = (b, start, ls0)"
      by (metis prod_cases3)
    from scan_fold_shape [OF f] have lb: "length b = length buf" and s: "start \<le> length bs" by simp_all
    have fit: "i + length bs \<le> buffer_size" using fits idx by (simp add: read_fits_def Read_bytes i_def)
    then have lbuf: "length buf = buffer_size" using len by (simp add: buf_def)
    have res: "read_lines buffer_size r st =
        (if i + length bs - start = buffer_size then (RL_OVERFLOW, \<lparr>buffer = b, buffer_index = 0\<rparr>, ls0)
         else (RL_OK, \<lparr>buffer = take (i + length bs - start) (drop start b) @ drop (i + length bs - start) b,
                      buffer_index = i + length bs - start\<rparr>, ls0))"
      using False f by (simp add: Read_bytes read_lines_def buf_def [symmetric] i_def [symmetric] Let_def)
    show ?thesis
    proof (cases "i + length bs - start = buffer_size")
      case True
      with res rl lb lbuf idx show ?thesis by (auto simp: i_def)
    next
      case ne: False
      have "i + length bs - start < buffer_size" using ne fit s by linarith
      with res rl lb lbuf ne s fit show ?thesis by (auto simp: min_def)
    qed
  qed
qed

text \<open>The two halves compose to \<open>read_lines\<close> when the index is not
  changed in between.\<close>

lemma read_lines_halves:
  assumes idx: "buffer_index st \<le> buffer_size" and fits: "read_fits buffer_size r st"
  shows "read_lines buffer_size r st =
           (case read_scan r st of
              Scan_failed \<Rightarrow> (RL_ERROR, st, [])
            | Scan_end \<Rightarrow> (RL_END, st\<lparr>buffer_index := 0\<rparr>, [])
            | Scanned n start b ls \<Rightarrow>
                (case read_finish buffer_size (buffer_index st) n start b of
                   Inr (res, lb) \<Rightarrow> (res, lb, ls)
                 | Inl e \<Rightarrow> (RL_ERROR, st, [])))"
proof (cases r)
  case Read_failed
  then show ?thesis by (simp add: read_lines_def read_scan_def)
next
  case (Read_bytes bs)
  define i where "i = buffer_index st"
  define buf where "buf = take i (buffer st) @ bs @ drop (i + length bs) (buffer st)"
  obtain b start ls0 where f: "foldl scan_step (buf, 0, []) [0..<length bs] = (b, start, ls0)"
    by (metis prod_cases3)
  have "start \<le> length bs" using scan_fold_shape [OF f] by simp
  moreover have "i + length bs \<le> buffer_size" using fits idx by (simp add: read_fits_def Read_bytes i_def)
  ultimately show ?thesis using f
    by (simp add: Read_bytes read_lines_def read_scan_def read_finish_def buf_def [symmetric]
                  i_def [symmetric] Let_def)
qed

lemma read_scan_shape:
  assumes len: "length (buffer st) = buffer_size" and idx: "buffer_index st < buffer_size"
    and fits: "read_fits buffer_size r st" and sc: "read_scan r st = Scanned n start b ls"
  shows "length b = buffer_size \<and> start \<le> n"
proof (cases r)
  case Read_failed
  with sc show ?thesis by (simp add: read_scan_def)
next
  case (Read_bytes bs)
  define i where "i = buffer_index st"
  define buf where "buf = take i (buffer st) @ bs @ drop (i + length bs) (buffer st)"
  obtain b0 start0 ls0 where f: "foldl scan_step (buf, 0, []) [0..<length bs] = (b0, start0, ls0)"
    by (metis prod_cases3)
  have "i + length bs \<le> buffer_size" using fits idx by (simp add: read_fits_def Read_bytes i_def)
  then have "length buf = buffer_size" using len by (simp add: buf_def)
  moreover have "b = b0" "start = start0" "n = length bs"
    using sc f by (auto simp: Read_bytes read_scan_def buf_def [symmetric] i_def [symmetric] Let_def split: if_splits)
  ultimately show ?thesis using scan_fold_shape [OF f] by simp
qed

lemma read_finish_shape:
  assumes "read_finish buffer_size i n start b = Inr (res, lb)" "length b = buffer_size" "0 < buffer_size"
  shows "length (buffer lb) = buffer_size \<and> buffer_index lb < buffer_size"
  using assms by (auto simp: read_finish_def Let_def min_def split: if_splits)

text \<open>Claim C23: whatever \<^verbatim>\<open>read()\<close> returns within its contract, the
  buffer keeps its size and the index stays below it, so the next
  \<^verbatim>\<open>read()\<close> asks for at least one byte and the \<^verbatim>\<open>memmove\<close> stays in the
  buffer; end of stream and overflow reset the index to 0.\<close>

theorem read_lines_bounds:
  assumes len: "length (buffer st) = buffer_size" and idx: "buffer_index st < buffer_size"
    and fits: "read_fits buffer_size r st"
    and rl: "read_lines buffer_size r st = (res, st', ls)"
  shows "length (buffer st') = buffer_size \<and> buffer_index st' < buffer_size \<and>
         (res = RL_END \<or> res = RL_OVERFLOW \<longrightarrow> buffer_index st' = 0)"
  using assms by (rule read_lines_shape)

theorem read_lines_frames_witness:
  "\<exists>res st'. read_lines 256 (Read_bytes ''ROUTE 10 20\<newline>CHA'')
                 \<lparr>buffer = replicate 256 CHR ''x'', buffer_index = 0\<rparr> = (res, st', [''ROUTE 10 20'']) \<and>
              res = RL_OK \<and> buffer_index st' = 3 \<and> take (buffer_index st') (buffer st') = ''CHA'' \<and>
              length (buffer st') = 256"
  using read_lines_frames [of "\<lparr>buffer = replicate 256 CHR ''x'', buffer_index = 0\<rparr>" 256 "''ROUTE 10 20\<newline>CHA''"]
  by (simp add: split_lines_def nl_step_def numeral_3_eq_3)

theorem read_lines_delays_lines_witness:
  "(\<exists>res st'. read_lines 256 (Read_bytes ''\<newline>'')
                 \<lparr>buffer = ''ROUTE 10 20'' @ replicate 245 NUL, buffer_index = 11\<rparr> = (res, st', []) \<and>
              (res = RL_OK \<longrightarrow> take (buffer_index st') (buffer st') = ''ROUTE 10 20\<newline>'')) \<and>
   fst (split_lines (''ROUTE 10 20'' @ ''\<newline>'')) = [''ROUTE 10 20'']"
  using read_lines_delays_lines [of "''\<newline>''" "\<lparr>buffer = ''ROUTE 10 20'' @ replicate 245 NUL, buffer_index = 11\<rparr>" 256]
  by (simp add: split_lines_def nl_step_def)

theorem read_lines_bounds_witness:
  "case read_lines 256 (Read_bytes ''PRED 10\<newline>SU'') \<lparr>buffer = replicate 256 NUL, buffer_index = 0\<rparr> of
     (res, st', ls) \<Rightarrow> length (buffer st') = 256 \<and> buffer_index st' < 256 \<and>
                      (res = RL_END \<or> res = RL_OVERFLOW \<longrightarrow> buffer_index st' = 0)"
proof -
  obtain res st' ls where rl: "read_lines 256 (Read_bytes ''PRED 10\<newline>SU'') \<lparr>buffer = replicate 256 NUL, buffer_index = 0\<rparr> = (res, st', ls)"
    by (metis prod_cases3)
  have "length (buffer st') = 256 \<and> buffer_index st' < 256 \<and> (res = RL_END \<or> res = RL_OVERFLOW \<longrightarrow> buffer_index st' = 0)"
    by (rule read_lines_bounds [OF _ _ _ rl]) (simp_all add: read_fits_def)
  with rl show ?thesis by simp
qed

end
