(* ===== verification/Connections.thy ===== *)
theory Connections
  imports ReadLines
begin

text \<open>
  The connection registry of \<^verbatim>\<open>src/connections.c\<close>: the fixed array
  \<^verbatim>\<open>connections[MAX_CONNECTIONS]\<close>, a slot being free when its socket is
  \<open>-1\<close>; the four role pointers \<^verbatim>\<open>new_node_conn\<close>, \<^verbatim>\<open>pred_conn\<close>,
  \<^verbatim>\<open>succ_conn\<close> and \<^verbatim>\<open>outbound_chord_conn\<close>, each NULL or the address of a
  slot, modelled as \<open>None\<close> or the slot index; and the descriptor set
  \<^verbatim>\<open>select_inputs\<close> of \<^verbatim>\<open>main.c\<close>, which \<^verbatim>\<open>add_connection\<close> and
  \<^verbatim>\<open>close_connection\<close> maintain. A connection that no role pointer designates
  is an inbound chord. The invariant \<open>reg_inv\<close> is the registry half of the
  specification's role exclusivity: every role pointer designates a live slot,
  no two role pointers designate the same slot, and live slots hold distinct
  sockets.
\<close>

section \<open>State\<close>

text \<open>\<^verbatim>\<open>struct Connection\<close>: the framing buffer and index are the fields of
  \<open>line_buffer\<close>, which the record extends; the address strings are the
  contents of the C strings.\<close>

record connection = line_buffer +
  socket :: int
  node_id :: node_id
  ip_addr :: string
  tcp_port :: string

type_synonym conn_ptr = "nat option"

record registry =
  connections :: "connection list"
  new_node_conn :: conn_ptr
  pred_conn :: conn_ptr
  succ_conn :: conn_ptr
  outbound_chord_conn :: conn_ptr
  select_inputs :: "int set"

text \<open>The registry is a global of static storage duration: all zero before
  \<^verbatim>\<open>init_connections_array\<close>.\<close>

definition connection_static :: connection where
  "connection_static =
     \<lparr>buffer = replicate MAX_NODE_MESSAGE_SIZE NUL, buffer_index = 0,
      socket = 0, node_id = 0, ip_addr = [], tcp_port = []\<rparr>"

definition registry_static :: registry where
  "registry_static =
     \<lparr>connections = replicate MAX_CONNECTIONS connection_static,
      new_node_conn = None, pred_conn = None, succ_conn = None, outbound_chord_conn = None,
      select_inputs = {}\<rparr>"

section \<open>Operations\<close>

definition init_connections_array :: "registry \<Rightarrow> registry" where
  "init_connections_array reg =
     reg\<lparr>connections := map (\<lambda>c. c\<lparr>socket := -1\<rparr>) (connections reg)\<rparr>"

text \<open>\<^verbatim>\<open>add_connection(socket)\<close>: the socket joins the \<^verbatim>\<open>select()\<close> set and
  takes the first free slot, whose identity, index and address strings are
  reset; no free slot is a fatal error.\<close>

definition add_connection :: "int \<Rightarrow> registry \<Rightarrow> error + nat \<times> registry" where
  "add_connection s reg =
     (let reg1 = reg\<lparr>select_inputs := insert s (select_inputs reg)\<rparr> in
      case first_index (\<lambda>c. socket c = -1) (connections reg1) of
        None \<Rightarrow> Inl No_connection_space
      | Some i \<Rightarrow>
          Inr (i, reg1\<lparr>connections := (connections reg1)[i :=
                  (connections reg1 ! i)\<lparr>socket := s, node_id := NO_NODE_ID, buffer_index := 0,
                                         ip_addr := [], tcp_port := []\<rparr>]\<rparr>))"

text \<open>Clearing the role pointers that designate a slot (lines 42--45 of
  \<^verbatim>\<open>close_connection\<close>).\<close>

definition clear_roles :: "conn_ptr \<Rightarrow> registry \<Rightarrow> registry" where
  "clear_roles c reg =
     reg\<lparr>new_node_conn := (if new_node_conn reg = c then None else new_node_conn reg),
        pred_conn := (if pred_conn reg = c then None else pred_conn reg),
        succ_conn := (if succ_conn reg = c then None else succ_conn reg),
        outbound_chord_conn := (if outbound_chord_conn reg = c then None else outbound_chord_conn reg)\<rparr>"

text \<open>\<^verbatim>\<open>close_connection(connection)\<close>: nothing for NULL or a free slot;
  otherwise the socket is closed and leaves the \<^verbatim>\<open>select()\<close> set, the slot is
  freed and every role pointer to it is cleared. The return value of
  \<^verbatim>\<open>close()\<close> is ignored by every caller.\<close>

definition close_connection :: "conn_ptr \<Rightarrow> registry \<Rightarrow> registry" where
  "close_connection c reg =
     (case c of
        None \<Rightarrow> reg
      | Some i \<Rightarrow>
          if socket (connections reg ! i) = -1 then reg
          else clear_roles c
                 (reg\<lparr>select_inputs := select_inputs reg - {socket (connections reg ! i)},
                      connections := (connections reg)[i := (connections reg ! i)\<lparr>socket := -1\<rparr>]\<rparr>))"

definition find_connection_by_socket :: "int \<Rightarrow> registry \<Rightarrow> conn_ptr" where
  "find_connection_by_socket s reg = first_index (\<lambda>c. socket c = s) (connections reg)"

definition find_connection_by_node_id :: "node_id \<Rightarrow> registry \<Rightarrow> conn_ptr" where
  "find_connection_by_node_id n reg =
     first_index (\<lambda>c. socket c \<noteq> -1 \<and> node_id c = n) (connections reg)"

definition is_inbound_chord :: "conn_ptr \<Rightarrow> registry \<Rightarrow> bool" where
  "is_inbound_chord c reg \<longleftrightarrow>
     c \<noteq> new_node_conn reg \<and> c \<noteq> pred_conn reg \<and> c \<noteq> succ_conn reg \<and> c \<noteq> outbound_chord_conn reg"

section \<open>The registry invariant\<close>

definition live :: "registry \<Rightarrow> nat \<Rightarrow> bool" where
  "live reg i \<longleftrightarrow> i < length (connections reg) \<and> socket (connections reg ! i) \<noteq> -1"

definition roles :: "registry \<Rightarrow> conn_ptr list" where
  "roles reg = [new_node_conn reg, pred_conn reg, succ_conn reg, outbound_chord_conn reg]"

text \<open>A role pointer is sound when it is NULL or designates a live slot.\<close>

definition ptr_ok :: "registry \<Rightarrow> conn_ptr \<Rightarrow> bool" where
  "ptr_ok reg c \<longleftrightarrow> (case c of None \<Rightarrow> True | Some i \<Rightarrow> live reg i)"

definition roles_distinct :: "registry \<Rightarrow> bool" where
  "roles_distinct reg \<longleftrightarrow> distinct (filter (\<lambda>c. c \<noteq> None) (roles reg))"

definition sockets_distinct :: "registry \<Rightarrow> bool" where
  "sockets_distinct reg \<longleftrightarrow>
     (\<forall>i j. live reg i \<longrightarrow> live reg j \<longrightarrow>
        socket (connections reg ! i) = socket (connections reg ! j) \<longrightarrow> i = j)"

definition reg_inv :: "registry \<Rightarrow> bool" where
  "reg_inv reg \<longleftrightarrow>
     length (connections reg) = MAX_CONNECTIONS \<and> (\<forall>c\<in>set (roles reg). ptr_ok reg c) \<and>
     roles_distinct reg \<and> sockets_distinct reg"

section \<open>Lemmas: closing and adding connections\<close>

lemma roles_clear_roles: "roles (clear_roles c reg) = map (\<lambda>p. if p = c then None else p) (roles reg)"
  by (simp add: roles_def clear_roles_def)

lemma connections_clear_roles [simp]:
  "connections (clear_roles c reg) = connections reg"
  "select_inputs (clear_roles c reg) = select_inputs reg"
  by (simp_all add: clear_roles_def)

lemma live_clear_roles [simp]: "live (clear_roles c reg) = live reg"
  by (simp add: live_def fun_eq_iff)

lemma filter_Some_clear:
  "filter (\<lambda>x. x \<noteq> None) (map (\<lambda>p. if p = c then None else p) xs) =
   filter (\<lambda>x. x \<noteq> c) (filter (\<lambda>x. x \<noteq> None) xs)"
  by (induction xs) auto

lemma distinct_filter_Some_clear:
  "distinct (filter (\<lambda>x. x \<noteq> None) xs) \<Longrightarrow>
   distinct (filter (\<lambda>x. x \<noteq> None) (map (\<lambda>p. if p = c then None else p) xs))"
  unfolding filter_Some_clear by (rule distinct_filter)

lemma close_connection_live:
  "live (close_connection c reg) j \<longleftrightarrow> live reg j \<and> c \<noteq> Some j"
  by (cases c; cases "c = Some j") (auto simp: close_connection_def live_def)

lemma close_connection_socket:
  "live (close_connection c reg) j \<Longrightarrow> socket (connections (close_connection c reg) ! j) = socket (connections reg ! j)"
  by (cases c; cases "c = Some j") (auto simp: close_connection_def live_def)

lemma close_connection_roles:
  assumes "reg_inv reg"
  shows "roles (close_connection c reg) = map (\<lambda>p. if p = c then None else p) (roles reg)"
proof (cases c)
  case None
  then show ?thesis by (simp add: close_connection_def map_idI)
next
  case (Some i)
  show ?thesis
  proof (cases "socket (connections reg ! i) = -1")
    case True
    have "\<forall>p\<in>set (roles reg). p \<noteq> Some i"
      using assms True by (auto simp: reg_inv_def ptr_ok_def live_def)
    then have "map (\<lambda>p. if p = c then None else p) (roles reg) = roles reg"
      using Some by (simp add: map_idI)
    with Some True show ?thesis by (simp add: close_connection_def)
  next
    case False
    with Some show ?thesis
      by (simp add: close_connection_def roles_clear_roles) (simp add: roles_def)
  qed
qed

text \<open>Claim C19: \<^verbatim>\<open>close_connection\<close> keeps the registry invariant,
  and afterwards no role pointer designates the closed slot and the slot is
  free, whatever pointer it is given (NULL, a free slot or a live one).\<close>

theorem close_connection_inv:
  assumes inv: "reg_inv reg"
  shows "reg_inv (close_connection c reg) \<and> (c \<noteq> None \<longrightarrow> c \<notin> set (roles (close_connection c reg))) \<and>
         (\<forall>i. c = Some i \<longrightarrow> \<not> live (close_connection c reg) i)"
proof -
  let ?r = "close_connection c reg"
  have len: "length (connections ?r) = MAX_CONNECTIONS"
    using inv by (simp add: close_connection_def reg_inv_def split: option.splits)
  have roles: "roles ?r = map (\<lambda>p. if p = c then None else p) (roles reg)"
    using inv by (rule close_connection_roles)
  have ptr: "\<forall>p\<in>set (roles ?r). ptr_ok ?r p"
    using inv by (auto simp: roles reg_inv_def ptr_ok_def close_connection_live split: option.splits)
  have dist: "roles_distinct ?r"
    using inv unfolding roles_distinct_def roles reg_inv_def by (blast intro: distinct_filter_Some_clear)
  have socks: "sockets_distinct ?r"
    using inv by (auto simp: sockets_distinct_def reg_inv_def close_connection_live close_connection_socket)
  show ?thesis
    using len ptr dist socks by (auto simp: reg_inv_def roles close_connection_live)
qed

lemma add_connection_Inr:
  assumes "add_connection s reg = Inr (i, reg')"
  shows "i < length (connections reg) \<and> socket (connections reg ! i) = -1 \<and>
         (\<forall>j<i. socket (connections reg ! j) \<noteq> -1) \<and> roles reg' = roles reg \<and>
         connections reg' = (connections reg)[i := (connections reg ! i)\<lparr>socket := s, node_id := NO_NODE_ID,
                               buffer_index := 0, ip_addr := [], tcp_port := []\<rparr>] \<and>
         select_inputs reg' = insert s (select_inputs reg)"
  using assms
  by (auto simp: add_connection_def first_index_Some_iff roles_def Let_def split: option.splits)

lemma add_connection_full:
  assumes "length (connections reg) = MAX_CONNECTIONS"
  shows "add_connection s reg = Inl No_connection_space \<longleftrightarrow> (\<forall>i<MAX_CONNECTIONS. live reg i)"
proof -
  have "add_connection s reg = Inl No_connection_space \<longleftrightarrow>
        first_index (\<lambda>c. socket c = -1) (connections reg) = None"
    by (simp add: add_connection_def Let_def del: first_index_None_iff split: option.splits)
  also have "\<dots> \<longleftrightarrow> (\<forall>i<MAX_CONNECTIONS. live reg i)"
    using assms by (auto simp: live_def all_set_conv_all_nth)
  finally show ?thesis .
qed

lemma add_connection_inv:
  assumes inv: "reg_inv reg" and fresh: "\<forall>i. live reg i \<longrightarrow> socket (connections reg ! i) \<noteq> s"
    and s: "s \<noteq> -1" and add: "add_connection s reg = Inr (i, reg')"
  shows "reg_inv reg' \<and> find_connection_by_socket s reg' = Some i \<and> is_inbound_chord (Some i) reg'"
proof -
  have len: "length (connections reg) = MAX_CONNECTIONS" using inv by (simp add: reg_inv_def)
  note a = add_connection_Inr [OF add]
  have i: "i < MAX_CONNECTIONS" "\<not> live reg i" using a len by (simp_all add: live_def)
  have live': "live reg' j \<longleftrightarrow> live reg j \<or> j = i" for j
    using a s by (cases "j = i") (auto simp: live_def)
  have sock': "socket (connections reg' ! j) = (if j = i then s else socket (connections reg ! j))"
    if "j < MAX_CONNECTIONS" for j
    using a that len by simp
  have notrole: "Some i \<notin> set (roles reg)"
    using inv i by (auto simp: reg_inv_def ptr_ok_def)
  have chord: "is_inbound_chord (Some i) reg'"
    using notrole a by (simp add: is_inbound_chord_def roles_def)
  have other: "socket (connections reg' ! j) \<noteq> s" if "j < MAX_CONNECTIONS" "j \<noteq> i" for j
    using that fresh s sock' by (auto simp: live_def len)
  have find: "find_connection_by_socket s reg' = Some i"
    unfolding find_connection_by_socket_def first_index_Some_iff
    using a i other sock' len by auto
  have lenr: "length (connections reg') = MAX_CONNECTIONS" using a len by simp
  have ptr: "\<forall>c\<in>set (roles reg'). ptr_ok reg' c"
    using inv a live' by (auto simp: reg_inv_def ptr_ok_def split: option.splits)
  have dist: "roles_distinct reg'" using inv a by (simp add: reg_inv_def roles_distinct_def)
  have socks: "sockets_distinct reg'"
    unfolding sockets_distinct_def
  proof (intro allI impI)
    fix j k assume j: "live reg' j" and k: "live reg' k"
      and eq: "socket (connections reg' ! j) = socket (connections reg' ! k)"
    have jk: "j < MAX_CONNECTIONS" "k < MAX_CONNECTIONS" using j k lenr by (simp_all add: live_def)
    show "j = k"
    proof (cases "j = i \<or> k = i")
      case True
      with eq jk other sock' show ?thesis by metis
    next
      case False
      with j k eq inv live' sock' jk show ?thesis by (simp add: reg_inv_def sockets_distinct_def)
    qed
  qed
  show ?thesis using lenr ptr dist socks find chord by (simp add: reg_inv_def)
qed

text \<open>Claim C18: \<^verbatim>\<open>add_connection\<close> with a fresh socket fails exactly when
  every slot is live; otherwise it keeps the registry invariant, the socket is
  found again by \<^verbatim>\<open>find_connection_by_socket\<close> at the slot returned, the new
  connection has no role (it counts as an inbound chord until a role pointer
  is set), its identity is unknown and its framing buffer is empty, and no
  other slot changes.\<close>

theorem add_connection_spec:
  assumes inv: "reg_inv reg" and fresh: "\<forall>i. live reg i \<longrightarrow> socket (connections reg ! i) \<noteq> s"
    and s: "s \<noteq> -1"
  shows "(add_connection s reg = Inl No_connection_space \<longleftrightarrow> (\<forall>i<MAX_CONNECTIONS. live reg i)) \<and>
         (\<forall>i reg'. add_connection s reg = Inr (i, reg') \<longrightarrow>
            reg_inv reg' \<and> find_connection_by_socket s reg' = Some i \<and> is_inbound_chord (Some i) reg' \<and>
            node_id (connections reg' ! i) = NO_NODE_ID \<and> buffer_index (connections reg' ! i) = 0 \<and>
            roles reg' = roles reg \<and> (\<forall>j. j \<noteq> i \<longrightarrow> connections reg' ! j = connections reg ! j))"
proof -
  have len: "length (connections reg) = MAX_CONNECTIONS" using inv by (simp add: reg_inv_def)
  have "\<forall>i reg'. add_connection s reg = Inr (i, reg') \<longrightarrow>
            reg_inv reg' \<and> find_connection_by_socket s reg' = Some i \<and> is_inbound_chord (Some i) reg' \<and>
            node_id (connections reg' ! i) = NO_NODE_ID \<and> buffer_index (connections reg' ! i) = 0 \<and>
            roles reg' = roles reg \<and> (\<forall>j. j \<noteq> i \<longrightarrow> connections reg' ! j = connections reg ! j)"
  proof (intro allI impI)
    fix i reg' assume add: "add_connection s reg = Inr (i, reg')"
    from add_connection_inv [OF inv fresh s add] add_connection_Inr [OF add]
    show "reg_inv reg' \<and> find_connection_by_socket s reg' = Some i \<and> is_inbound_chord (Some i) reg' \<and>
            node_id (connections reg' ! i) = NO_NODE_ID \<and> buffer_index (connections reg' ! i) = 0 \<and>
            roles reg' = roles reg \<and> (\<forall>j. j \<noteq> i \<longrightarrow> connections reg' ! j = connections reg ! j)"
      by simp
  qed
  with add_connection_full [OF len] show ?thesis by blast
qed

lemma reg_inv_set_pred:
  assumes "reg_inv reg" "live reg i" "Some i \<notin> set (roles reg)" "pred_conn reg = None"
  shows "reg_inv (reg\<lparr>pred_conn := Some i\<rparr>)"
  using assms by (auto simp: reg_inv_def roles_def ptr_ok_def roles_distinct_def live_def sockets_distinct_def)

lemma reg_inv_init: "reg_inv (init_connections_array registry_static)"
  by (auto simp add: reg_inv_def init_connections_array_def registry_static_def roles_def ptr_ok_def
                roles_distinct_def sockets_distinct_def live_def)

lemma add_connection_init:
  "\<exists>reg'. add_connection 5 (init_connections_array registry_static) = Inr (0, reg')"
proof -
  have "first_index (\<lambda>c. socket c = -1) (map (\<lambda>c. c\<lparr>socket := -1\<rparr>) (replicate 18 connection_static)) = Some 0"
    by (simp add: numeral_eq_Suc)
  then show ?thesis
    by (simp add: add_connection_def init_connections_array_def registry_static_def Let_def)
qed

theorem add_connection_spec_witness:
  "(add_connection 5 (init_connections_array registry_static) = Inl No_connection_space \<longleftrightarrow>
      (\<forall>i<MAX_CONNECTIONS. live (init_connections_array registry_static) i)) \<and>
   (\<exists>reg'. add_connection 5 (init_connections_array registry_static) = Inr (0, reg') \<and>
      reg_inv reg' \<and> find_connection_by_socket 5 reg' = Some 0 \<and> is_inbound_chord (Some 0) reg' \<and>
      node_id (connections reg' ! 0) = NO_NODE_ID)"
proof -
  have fresh: "\<forall>i. live (init_connections_array registry_static) i \<longrightarrow>
                  socket (connections (init_connections_array registry_static) ! i) \<noteq> 5"
    by (simp add: live_def init_connections_array_def registry_static_def)
  note spec = add_connection_spec [OF reg_inv_init fresh]
  obtain reg' where add: "add_connection 5 (init_connections_array registry_static) = Inr (0, reg')"
    using add_connection_init by blast
  with spec show ?thesis by auto
qed

theorem close_connection_inv_witness:
  "\<exists>reg'. add_connection 5 (init_connections_array registry_static) = Inr (0, reg') \<and>
     reg_inv (close_connection (Some 0) (reg'\<lparr>pred_conn := Some 0\<rparr>)) \<and>
     Some 0 \<notin> set (roles (close_connection (Some 0) (reg'\<lparr>pred_conn := Some 0\<rparr>))) \<and>
     \<not> live (close_connection (Some 0) (reg'\<lparr>pred_conn := Some 0\<rparr>)) 0"
proof -
  obtain reg' where add: "add_connection 5 (init_connections_array registry_static) = Inr (0, reg')"
    using add_connection_init by blast
  have fresh: "\<forall>i. live (init_connections_array registry_static) i \<longrightarrow>
                  socket (connections (init_connections_array registry_static) ! i) \<noteq> 5"
    by (simp add: live_def init_connections_array_def registry_static_def)
  have inv: "reg_inv reg'" and ch: "is_inbound_chord (Some 0) reg'"
    using add_connection_inv [OF reg_inv_init fresh _ add] by simp_all
  have "live reg' 0" using add_connection_Inr [OF add] by (simp add: live_def)
  moreover have "Some 0 \<notin> set (roles reg')" "pred_conn reg' = None"
    using ch add_connection_Inr [OF add]
    by (auto simp: is_inbound_chord_def roles_def init_connections_array_def registry_static_def)
  ultimately have "reg_inv (reg'\<lparr>pred_conn := Some 0\<rparr>)"
    using inv by (simp add: reg_inv_set_pred)
  from close_connection_inv [OF this, of "Some 0"] add show ?thesis by blast
qed

end
