(* ===== verification/Scan.thy ===== *)
theory Scan
  imports Paths
begin

text \<open>
  The formatted input and output of the wire protocol. Every message handler of
  \<^verbatim>\<open>src/ring.c\<close> and every command of \<^verbatim>\<open>src/main.c\<close> recognises its line with
  \<^verbatim>\<open>sscanf\<close> and a format built from \<^verbatim>\<open>NODE_ID_IN\<close> (\<^verbatim>\<open>%hhd\<close>), \<^verbatim>\<open>%Ns\<close>,
  \<^verbatim>\<open>%*s\<close> and \<^verbatim>\<open>%n\<close>, and compares the number of conversions with the number
  it needs. This theory models the C library function on exactly those
  directives (\<open>sscanf\<close> over a format string, as the source writes it) and the
  \<^verbatim>\<open>printf\<close> conversions the messages are printed with, and shows that every
  message line the program prints is read back field by field by the format
  that recognises it.
\<close>

section \<open>Directives of a scanf format\<close>

datatype fmt_item =
    F_space            \<comment> \<open>a white-space character: skips any white space, possibly none\<close>
  | F_lit char         \<comment> \<open>an ordinary character: must match the next input character\<close>
  | F_hhd              \<comment> \<open>\<^verbatim>\<open>%hhd\<close>\<close>
  | F_str nat          \<comment> \<open>\<^verbatim>\<open>%Ns\<close>, at most \<open>N\<close> characters\<close>
  | F_skip_str         \<comment> \<open>\<^verbatim>\<open>%*s\<close>, assignment suppressed\<close>
  | F_n                \<comment> \<open>\<^verbatim>\<open>%n\<close>, the number of characters consumed so far\<close>
  | F_unsupported      \<comment> \<open>a directive the program never uses\<close>

datatype scan_val = V_int int | V_str string | V_pos nat

text \<open>\<^verbatim>\<open>isspace\<close> in the C locale.\<close>

definition is_space :: "char \<Rightarrow> bool" where
  "is_space c \<longleftrightarrow> c = CHR '' '' \<or> ((9::nat) \<le> of_char c \<and> of_char c \<le> (13::nat))"

text \<open>The directives of a format string.\<close>

fun parse_fmt :: "string \<Rightarrow> fmt_item list" where
  "parse_fmt [] = []"
| "parse_fmt (c # cs) =
     (if c = CHR ''%'' then
        (if take 3 cs = ''hhd'' then F_hhd # parse_fmt (drop 3 cs)
         else if take 2 cs = ''*s'' then F_skip_str # parse_fmt (drop 2 cs)
         else if take 1 cs = ''n'' then F_n # parse_fmt (drop 1 cs)
         else (let ds = takeWhile is_digit cs in
               if ds \<noteq> [] \<and> take 1 (drop (length ds) cs) = ''s''
               then F_str (nat (atoi_digits ds)) # parse_fmt (drop (Suc (length ds)) cs)
               else [F_unsupported]))
      else if is_space c then F_space # parse_fmt cs
      else F_lit c # parse_fmt cs)"

section \<open>The scanner\<close>

text \<open>The integer a \<^verbatim>\<open>%d\<close> conversion reads after the white space: an optional
  sign and at least one decimal digit; \<open>None\<close> is a matching failure.\<close>

definition scan_int :: "string \<Rightarrow> (int \<times> string) option" where
  "scan_int s =
     (let (sign, r) = (case s of c # r' \<Rightarrow> if c = CHR ''-'' then (-1, r')
                                         else if c = CHR ''+'' then (1, r') else (1, s)
                              | [] \<Rightarrow> (1, s));
          ds = takeWhile is_digit r
      in if ds = [] then None else Some (sign * atoi_digits ds, drop (length ds) r))"

text \<open>\<^verbatim>\<open>sscanf(input, format, ...)\<close>: the values assigned, in order. Scanning
  stops at the first directive that fails; \<^verbatim>\<open>%hhd\<close> stores the low byte of
  the value read, as glibc does, and \<^verbatim>\<open>%n\<close> assigns without counting.
  The number the C function returns is \<open>scan_count\<close> of the result.\<close>

fun scan :: "fmt_item list \<Rightarrow> string \<Rightarrow> nat \<Rightarrow> scan_val list" where
  "scan [] s k = []"
| "scan (F_space # fs) s k =
     (let s' = dropWhile is_space s in scan fs s' (k + (length s - length s')))"
| "scan (F_lit c # fs) s k =
     (case s of c' # s' \<Rightarrow> if c' = c then scan fs s' (Suc k) else [] | [] \<Rightarrow> [])"
| "scan (F_hhd # fs) s k =
     (let s1 = dropWhile is_space s; k1 = k + (length s - length s1) in
      case scan_int s1 of
        None \<Rightarrow> []
      | Some (v, s2) \<Rightarrow> V_int (to_signed_char v) # scan fs s2 (k1 + (length s1 - length s2)))"
| "scan (F_str w # fs) s k =
     (let s1 = dropWhile is_space s; tok = take w (takeWhile (\<lambda>c. \<not> is_space c) s1) in
      if tok = [] then []
      else V_str tok # scan fs (drop (length tok) s1) (k + (length s - length s1) + length tok))"
| "scan (F_skip_str # fs) s k =
     (let s1 = dropWhile is_space s; tok = takeWhile (\<lambda>c. \<not> is_space c) s1 in
      if tok = [] then []
      else scan fs (drop (length tok) s1) (k + (length s - length s1) + length tok))"
| "scan (F_n # fs) s k = V_pos k # scan fs s k"
| "scan (F_unsupported # fs) s k = []"

definition sscanf :: "string \<Rightarrow> string \<Rightarrow> scan_val list" where
  "sscanf format input = scan (parse_fmt format) input 0"

definition scan_count :: "scan_val list \<Rightarrow> nat" where
  "scan_count vs = length (filter (\<lambda>v. case v of V_pos _ \<Rightarrow> False | _ \<Rightarrow> True) vs)"

text \<open>A string \<^verbatim>\<open>%Ns\<close> reads back whole: non-empty, at most \<open>N\<close>
  characters, no white space; and the text after a conversion that ends it.\<close>

definition is_token :: "nat \<Rightarrow> string \<Rightarrow> bool" where
  "is_token w s \<longleftrightarrow> s \<noteq> [] \<and> length s \<le> w \<and> (\<forall>c\<in>set s. \<not> is_space c)"

definition starts_with_space :: "string \<Rightarrow> bool" where
  "starts_with_space s \<longleftrightarrow> s = [] \<or> is_space (hd s)"

section \<open>Printing\<close>

text \<open>\<^verbatim>\<open>printf("%2d", n)\<close>: decimal, padded with spaces to width two.\<close>

definition fmt_int2 :: "int \<Rightarrow> string" where
  "fmt_int2 n =
     (let s = (if n < 0 then CHR ''-'' # dec_digits (nat (- n)) else dec_digits (nat n))
      in replicate (2 - length s) CHR '' '' @ s)"

text \<open>The node-to-node lines of \<^verbatim>\<open>ring.c\<close>, without their final newline:
  \<^verbatim>\<open>"ENTRY %02hhd %s %s\n"\<close> (lines 112, 435), \<^verbatim>\<open>"SUCC %02hhd %s %s\n"\<close>
  (lines 404, 434, 477, 538), \<^verbatim>\<open>"SUCC %2d %s %s\n"\<close> (line 325),
  \<^verbatim>\<open>"PRED %02hhd\n"\<close> (lines 346, 416, 557) and \<^verbatim>\<open>"CHORD %02hhd\n"\<close>
  (line 150).\<close>

definition entry_msg :: "node_id \<Rightarrow> string \<Rightarrow> string \<Rightarrow> string" where
  "entry_msg n ip port = ''ENTRY '' @ fmt_node_id n @ '' '' @ ip @ '' '' @ port"

definition succ_msg :: "node_id \<Rightarrow> string \<Rightarrow> string \<Rightarrow> string" where
  "succ_msg n ip port = ''SUCC '' @ fmt_node_id n @ '' '' @ ip @ '' '' @ port"

definition succ_msg_2d :: "node_id \<Rightarrow> string \<Rightarrow> string \<Rightarrow> string" where
  "succ_msg_2d n ip port = ''SUCC '' @ fmt_int2 n @ '' '' @ ip @ '' '' @ port"

definition pred_msg :: "node_id \<Rightarrow> string" where
  "pred_msg n = ''PRED '' @ fmt_node_id n"

definition chord_msg :: "node_id \<Rightarrow> string" where
  "chord_msg n = ''CHORD '' @ fmt_node_id n"

section \<open>Lemmas: scanning printed fields\<close>

lemma is_space_digit_char [simp]: "d < 10 \<Longrightarrow> \<not> is_space (digit_char d)"
  by (auto simp: is_space_def dest: arg_cong [where f = "of_char :: char \<Rightarrow> nat"])

lemma digit_char_not_space [simp]: "d < 10 \<Longrightarrow> digit_char d \<noteq> CHR '' ''"
  using is_space_digit_char by (auto simp: is_space_def)

lemma not_digit_space: "is_space c \<Longrightarrow> \<not> is_digit c"
  by (auto simp: is_space_def is_digit_def)

lemma dropWhile_space_token:
  "s \<noteq> [] \<Longrightarrow> \<not> is_space (hd s) \<Longrightarrow> dropWhile is_space (s @ r) = s @ r"
  by (cases s) simp_all

lemma scan_str_token:
  assumes "is_token w tok" "starts_with_space rest"
  shows "scan (F_str w # fs) (tok @ rest) k = V_str tok # scan fs rest (k + length tok)"
proof -
  have ne: "tok \<noteq> []" and ns: "\<forall>c\<in>set tok. \<not> is_space c" and w: "length tok \<le> w"
    using assms(1) by (simp_all add: is_token_def)
  have d: "dropWhile is_space (tok @ rest) = tok @ rest"
    using ne ns by (cases tok) simp_all
  have t: "takeWhile (\<lambda>c. \<not> is_space c) (tok @ rest) = tok"
    using ns assms(2) by (cases rest) (simp_all add: starts_with_space_def takeWhile_append2)
  have "0 < w" using ne w by (cases tok) auto
  then show ?thesis using d t w ne by (simp add: Let_def)
qed

lemma scan_space_token:
  assumes "is_token w tok"
  shows "scan (F_space # fs) (CHR '' '' # tok @ rest) k = scan fs (tok @ rest) (Suc k)"
proof -
  have "tok \<noteq> []" "\<not> is_space (hd tok)" using assms by (auto simp: is_token_def)
  then show ?thesis by (simp add: is_space_def dropWhile_space_token Let_def)
qed

lemma scan_int_node_id:
  assumes "0 \<le> n" "n \<le> MAX_NODE_ID" "starts_with_space rest"
  shows "scan_int (fmt_node_id n @ rest) = Some (n, rest)"
proof -
  define a where "a = nat n div 10"
  define b where "b = nat n mod 10"
  have ab: "a < 10" "b < 10" using assms by (simp_all add: a_def b_def)
  have f: "fmt_node_id n = [digit_char a, digit_char b]"
    using fmt_node_id_two_digits [OF assms(1,2)] by (simp add: a_def b_def)
  have "takeWhile is_digit rest = []"
    using assms(3) by (cases rest) (simp_all add: starts_with_space_def not_digit_space)
  moreover have "digit_char a \<noteq> CHR ''-''" "digit_char a \<noteq> CHR ''+''"
    using ab by (auto dest: arg_cong [where f = "of_char :: char \<Rightarrow> nat"])
  moreover have "int (10 * a + b) = n" using assms by (simp add: a_def b_def)
  ultimately show ?thesis
    using ab by (simp add: scan_int_def f atoi_two_digits)
qed

lemma scan_hhd_node_id:
  assumes "0 \<le> n" "n \<le> MAX_NODE_ID" "starts_with_space rest"
  shows "scan (F_hhd # fs) (fmt_node_id n @ rest) k = V_int n # scan fs rest (k + 2)"
proof -
  have f: "fmt_node_id n = [digit_char (nat n div 10), digit_char (nat n mod 10)]"
    using assms(1,2) by (rule fmt_node_id_two_digits)
  have d: "dropWhile is_space (fmt_node_id n @ rest) = fmt_node_id n @ rest"
    using assms by (simp add: f)
  have l: "length (fmt_node_id n) = 2" by (simp add: f)
  have i: "scan_int (fmt_node_id n @ rest) = Some (n, rest)"
    using assms by (rule scan_int_node_id)
  show ?thesis using assms by (simp add: d l i Let_def)
qed

lemma scan_space_node_id:
  assumes "0 \<le> n" "n \<le> MAX_NODE_ID"
  shows "scan (F_space # fs) (CHR '' '' # fmt_node_id n @ r) k = scan fs (fmt_node_id n @ r) (Suc k)"
proof -
  have f: "fmt_node_id n = [digit_char (nat n div 10), digit_char (nat n mod 10)]"
    using assms by (rule fmt_node_id_two_digits)
  have "dropWhile is_space (CHR '' '' # fmt_node_id n @ r) = fmt_node_id n @ r"
    using assms by (simp add: f is_space_def)
  then show ?thesis by (simp add: Let_def)
qed

lemma starts_with_space_sp [simp]: "starts_with_space (CHR '' '' # r)"
  by (simp add: starts_with_space_def is_space_def)

lemma starts_with_space_Nil [simp]: "starts_with_space []"
  by (simp add: starts_with_space_def)

lemma scan_space_token_Nil:
  "is_token w tok \<Longrightarrow> scan (F_space # fs) (CHR '' '' # tok) k = scan fs tok (Suc k)"
  using scan_space_token [of w tok fs "[]" k] by simp

lemma scan_str_token_Nil:
  "is_token w tok \<Longrightarrow> scan (F_str w # fs) tok k = V_str tok # scan fs [] (k + length tok)"
  using scan_str_token [of w tok "[]" fs k] by simp

lemma fmt_entry:
  "parse_fmt ''ENTRY %hhd %15s %5s'' =
     map F_lit ''ENTRY'' @ [F_space, F_hhd, F_space, F_str 15, F_space, F_str 5]"
  by (simp add: is_space_def is_digit_def atoi_digits_def)

lemma fmt_int2_node_id:
  assumes "0 \<le> n" "n \<le> MAX_NODE_ID"
  shows "fmt_int2 n = (if n < 10 then [CHR '' '', digit_char (nat n)] else fmt_node_id n)"
proof (cases "n < 10")
  case True
  then show ?thesis using assms by (simp add: fmt_int2_def dec_digits.simps)
next
  case False
  have a: "nat n div 10 < 10" "\<not> nat n < 10" using False assms by (simp_all add: nat_less_iff)
  have "dec_digits (nat n) = [digit_char (nat n div 10), digit_char (nat n mod 10)]"
    using a by (simp add: dec_digits.simps)
  with False assms show ?thesis by (simp add: fmt_int2_def fmt_node_id_two_digits)
qed

lemma scan_space_hhd_int2:
  assumes "0 \<le> n" "n \<le> MAX_NODE_ID" "starts_with_space r"
  shows "scan (F_space # F_hhd # fs) (CHR '' '' # fmt_int2 n @ r) k = V_int n # scan fs r (k + 3)"
proof (cases "n < 10")
  case True
  define d where "d = nat n"
  have d: "d < 10" "int d = n" using True assms by (simp_all add: d_def)
  have f: "fmt_int2 n = [CHR '' '', digit_char d]" using True assms by (simp add: fmt_int2_node_id d_def)
  have "takeWhile is_digit r = []"
    using assms(3) by (cases r) (simp_all add: starts_with_space_def not_digit_space)
  moreover have "digit_char d \<noteq> CHR ''-''" "digit_char d \<noteq> CHR ''+''"
    using d by (auto dest: arg_cong [where f = "of_char :: char \<Rightarrow> nat"])
  ultimately have "scan_int (digit_char d # r) = Some (n, r)"
    using d by (simp add: scan_int_def atoi_digits_def)
  then show ?thesis using d assms by (simp add: f is_space_def Let_def numeral_3_eq_3)
next
  case False
  then have "fmt_int2 n = fmt_node_id n" using assms by (simp add: fmt_int2_node_id)
  then show ?thesis
    using assms by (simp add: scan_space_node_id scan_hhd_node_id numeral_3_eq_3 del: scan.simps(2,4))
qed

lemma fmt_succ:
  "parse_fmt ''SUCC %hhd %15s %5s'' =
     map F_lit ''SUCC'' @ [F_space, F_hhd, F_space, F_str 15, F_space, F_str 5]"
  by (simp add: is_space_def is_digit_def atoi_digits_def)

lemma fmt_pred: "parse_fmt ''PRED %hhd'' = map F_lit ''PRED'' @ [F_space, F_hhd]"
  by (simp add: is_space_def is_digit_def)

lemma fmt_chord: "parse_fmt ''CHORD %hhd'' = map F_lit ''CHORD'' @ [F_space, F_hhd]"
  by (simp add: is_space_def is_digit_def)

lemma scan_space_node_id_Nil:
  "0 \<le> n \<Longrightarrow> n \<le> MAX_NODE_ID \<Longrightarrow> scan (F_space # fs) (CHR '' '' # fmt_node_id n) k = scan fs (fmt_node_id n) (Suc k)"
  using scan_space_node_id [of n fs "[]" k] by simp

lemma scan_hhd_node_id_Nil:
  "0 \<le> n \<Longrightarrow> n \<le> MAX_NODE_ID \<Longrightarrow> scan (F_hhd # fs) (fmt_node_id n) k = V_int n # scan fs [] (k + 2)"
  using scan_hhd_node_id [of n "[]" fs k] by simp

lemmas scan_token_simps = scan_space_node_id_Nil scan_hhd_node_id_Nil scan_space_node_id scan_hhd_node_id scan_space_token scan_str_token
  scan_space_token_Nil scan_str_token_Nil scan_space_hhd_int2

text \<open>Claim C5: every node-to-node line the ring prints with a node id in
  \<open>0..99\<close> and address tokens that fit the receiving directive is read back
  by the format of its handler, field by field: \<^verbatim>\<open>ENTRY\<close> and \<^verbatim>\<open>SUCC\<close> (with
  \<^verbatim>\<open>%02hhd\<close>, and with the \<^verbatim>\<open>%2d\<close> of the forwarded \<^verbatim>\<open>SUCC\<close> of
  \<^verbatim>\<open>handle_message_from_succ\<close>, whose space padding the white-space
  directive absorbs), \<^verbatim>\<open>PRED\<close> and \<^verbatim>\<open>CHORD\<close>.\<close>

theorem protocol_lines_roundtrip:
  assumes n: "0 \<le> n" "n \<le> MAX_NODE_ID" and ip: "is_token 15 ip" and port: "is_token 5 port"
  shows "sscanf ''ENTRY %hhd %15s %5s'' (entry_msg n ip port) = [V_int n, V_str ip, V_str port] \<and>
         sscanf ''SUCC %hhd %15s %5s'' (succ_msg n ip port) = [V_int n, V_str ip, V_str port] \<and>
         sscanf ''SUCC %hhd %15s %5s'' (succ_msg_2d n ip port) = [V_int n, V_str ip, V_str port] \<and>
         sscanf ''PRED %hhd'' (pred_msg n) = [V_int n] \<and>
         sscanf ''CHORD %hhd'' (chord_msg n) = [V_int n]"
  using n ip port
  by (simp add: sscanf_def entry_msg_def succ_msg_def succ_msg_2d_def pred_msg_def chord_msg_def
                fmt_entry fmt_succ fmt_pred fmt_chord scan_token_simps
           del: scan.simps(2,4,5) parse_fmt.simps)

theorem protocol_lines_roundtrip_witness:
  "sscanf ''ENTRY %hhd %15s %5s'' (entry_msg 10 ''127.0.0.1'' ''5000'') = [V_int 10, V_str ''127.0.0.1'', V_str ''5000''] \<and>
   sscanf ''SUCC %hhd %15s %5s'' (succ_msg 10 ''127.0.0.1'' ''5000'') = [V_int 10, V_str ''127.0.0.1'', V_str ''5000''] \<and>
   sscanf ''SUCC %hhd %15s %5s'' (succ_msg_2d 10 ''127.0.0.1'' ''5000'') = [V_int 10, V_str ''127.0.0.1'', V_str ''5000''] \<and>
   sscanf ''PRED %hhd'' (pred_msg 10) = [V_int 10] \<and>
   sscanf ''CHORD %hhd'' (chord_msg 10) = [V_int 10]"
  by (rule protocol_lines_roundtrip) (simp_all add: is_token_def is_space_def)

end
