(* ===== verification/RingIO.thy ===== *)
theory RingIO
  imports Routing Connections Scan
begin

text \<open>
  The process-wide state of a node and the operations of \<^verbatim>\<open>src/ring.c\<close>,
  \<^verbatim>\<open>src/routing.c\<close> and \<^verbatim>\<open>src/connections.c\<close> that write to sockets.
  The globals of \<^verbatim>\<open>ring.c\<close> (\<^verbatim>\<open>connection_state\<close>, \<^verbatim>\<open>self\<close>, \<^verbatim>\<open>succ\<close>,
  \<^verbatim>\<open>second_succ\<close>, the two \<^verbatim>\<open>awaiting\<close> flags, \<^verbatim>\<open>ring_id_str\<close>), the
  connection registry, the routing tables and the timer of \<^verbatim>\<open>main.c\<close> form one
  record, threaded through every operation, with the globals of
  \<^verbatim>\<open>main.c\<close> (\<^verbatim>\<open>input_state\<close>, \<^verbatim>\<open>should_exit\<close>) and of
  \<^verbatim>\<open>node-server.c\<close> (\<^verbatim>\<open>node_arr\<close>, \<^verbatim>\<open>node_list_action\<close>). The
  environment is part of the state: the sockets whose peer has gone (a write
  to them fails), the outcomes of the next \<^verbatim>\<open>connect()\<close> attempts, the next
  replies of the directory server (\<open>None\<close>: none within the one-second
  wait), and the logs of what was written to each socket, sent to the
  directory server and shown to the user as chat.

  A failed write (\<^verbatim>\<open>conn_printf\<close>) calls \<^verbatim>\<open>handle_broken_socket\<close> at once,
  before the writer continues, and that handler writes, connects and announces
  in its turn. The operations here therefore take the broken-socket handler as
  a parameter \<open>hbs\<close>; \<open>RingHandlers\<close> defines it and ties the knot with a
  bound on the nesting depth.
\<close>

section \<open>State\<close>

datatype connection_state = DISCONNECTED | AWAITING_NODE_LIST | AWAITING_USER_SELECTION | CONNECTING | CONNECTED

text \<open>\<^verbatim>\<open>struct Node\<close> of \<^verbatim>\<open>main.h\<close>.\<close>

record node_info =
  nd_id :: node_id
  nd_ip :: string
  nd_port :: string

text \<open>The handlers \<^verbatim>\<open>set_timeout\<close> is ever given: \<^verbatim>\<open>pred_timeout\<close> only.\<close>

datatype timer = Pred_timeout

text \<open>What \<^verbatim>\<open>connect_to_node\<close> meets: \<^verbatim>\<open>socket()\<close> fails; the socket is
  created (descriptor given) but the address does not resolve or
  \<^verbatim>\<open>connect()\<close> fails; or the connection is established.\<close>

datatype connect_outcome = Socket_failed | Connect_failed int | Connected int

text \<open>\<^verbatim>\<open>enum InputState\<close> of \<^verbatim>\<open>main.h\<close> and \<^verbatim>\<open>enum NodeListAction\<close> of
  \<^verbatim>\<open>node-server.h\<close>.\<close>

datatype input_state = COMMAND | JOIN_NODE_SELECTION | CHORD_NODE_SELECTION

datatype node_list_action = UNEXPECTED_NODE_LIST | JOIN_ACTION | CHORD_ACTION

record node_state =
  connection_state :: connection_state
  self :: node_info
  succ :: node_info
  second_succ :: node_info
  awaiting_succ :: bool
  awaiting_pred :: bool
  ring_id_str :: string
  reg :: registry
  rt :: routing
  timeout_handler :: "timer option"
  input_state :: input_state
  should_exit :: bool
  node_arr :: "node_info list"
  node_list_action :: node_list_action
  stdin_buf :: line_buffer
  sent :: "(int \<times> string) list"
  ns_sent :: "string list"
  delivered :: "(node_id \<times> string) list"
  broken :: "int set"
  connects :: "connect_outcome list"
  ns_replies :: "string option list"

type_synonym handler = "node_state \<Rightarrow> error + node_state"
type_synonym broken_handler = "int \<Rightarrow> handler"

subsection \<open>Start-up\<close>

abbreviation USER_COMMAND_BUF_SIZE :: nat where "USER_COMMAND_BUF_SIZE \<equiv> 256"

text \<open>The state \<^verbatim>\<open>main()\<close> reaches before its loop: every global zero (the
  static storage of C), the own address from the command line, the registry
  initialised, \<^verbatim>\<open>DISCONNECTED\<close>, and the environment given.\<close>

definition initial_state :: "string \<Rightarrow> string \<Rightarrow> int set \<Rightarrow> connect_outcome list \<Rightarrow> string option list \<Rightarrow> node_state" where
  "initial_state ip port brk plan replies =
     \<lparr>connection_state = DISCONNECTED,
      self = \<lparr>nd_id = 0, nd_ip = ip, nd_port = port\<rparr>,
      succ = \<lparr>nd_id = 0, nd_ip = [], nd_port = []\<rparr>,
      second_succ = \<lparr>nd_id = 0, nd_ip = [], nd_port = []\<rparr>,
      awaiting_succ = False, awaiting_pred = False, ring_id_str = [],
      reg = init_connections_array registry_static,
      rt = routing_static,
      timeout_handler = None, input_state = COMMAND, should_exit = False,
      node_arr = [], node_list_action = UNEXPECTED_NODE_LIST,
      stdin_buf = \<lparr>buffer = replicate USER_COMMAND_BUF_SIZE NUL, buffer_index = 0\<rparr>,
      sent = [], ns_sent = [], delivered = [],
      broken = brk, connects = plan, ns_replies = replies\<rparr>"

section \<open>Writing to a socket\<close>

text \<open>\<^verbatim>\<open>conn_printf(socket, ...)\<close>: the line, cut by \<^verbatim>\<open>vsnprintf\<close> to the
  256-byte buffer, is written; when the write fails (a broken socket, or the
  descriptor \<open>-1\<close>) the broken-socket handler runs on the socket before the
  caller sees the failure. The result is whether the write succeeded.\<close>

definition conn_printf :: "broken_handler \<Rightarrow> int \<Rightarrow> string \<Rightarrow> node_state \<Rightarrow> error + bool \<times> node_state" where
  "conn_printf hbs s msg st =
     (if s = -1 \<or> s \<in> broken st
      then err_bind (hbs s st) (\<lambda>st'. Inr (False, st'))
      else Inr (True, st\<lparr>sent := sent st @ [(s, take (MAX_NODE_MESSAGE_SIZE - 1) msg)]\<rparr>))"

text \<open>The socket of a slot, read when the write happens.\<close>

definition sock_of :: "nat \<Rightarrow> node_state \<Rightarrow> int" where
  "sock_of c st = socket (connections (reg st) ! c)"

text \<open>The lines \<^verbatim>\<open>send_shortest_paths\<close> writes for the recipient slots, one
  per allocated slot, stopping at the first failed write.\<close>

fun send_route_lines :: "broken_handler \<Rightarrow> nat \<Rightarrow> nat list \<Rightarrow> node_state \<Rightarrow> error + bool \<times> node_state" where
  "send_route_lines hbs c [] st = Inr (True, st)"
| "send_route_lines hbs c (r # rs) st =
     (let recipient_id = recipient_ids (rt st) ! r in
      if recipient_id \<noteq> NO_NODE_ID
      then (let neighbor = forwarding_table (rt st) ! r in
            err_bind (get_route_message (nd_id (self st)) recipient_id
                        (if neighbor = NO_NODE_INDEX then None else Some (routing_table (rt st) ! r ! nat neighbor)))
              (\<lambda>m. err_bind (conn_printf hbs (sock_of c st) m st) (\<lambda>(ok, st').
                     if ok then send_route_lines hbs c rs st' else Inr (False, st'))))
      else send_route_lines hbs c rs st)"

text \<open>\<^verbatim>\<open>send_shortest_paths(conn)\<close>: the self line, then the table.\<close>

definition send_shortest_paths :: "broken_handler \<Rightarrow> nat \<Rightarrow> node_state \<Rightarrow> error + bool \<times> node_state" where
  "send_shortest_paths hbs c st =
     (let me = fmt_node_id (nd_id (self st)) in
      err_bind (conn_printf hbs (sock_of c st) (''ROUTE '' @ me @ '' '' @ me @ '' '' @ me @ ''\<newline>'') st)
        (\<lambda>(ok, st'). if ok then send_route_lines hbs c [0..<MAX_RECIPIENTS] st' else Inr (False, st')))"

text \<open>The frequent \<^verbatim>\<open>if (conn_printf(...) < 0 || send_shortest_paths(...) < 0)
  return;\<close>: the continuation runs only when every write succeeded.\<close>

definition then_if_ok :: "(node_state \<Rightarrow> error + bool \<times> node_state) \<Rightarrow> handler \<Rightarrow> handler" where
  "then_if_ok w k st = err_bind (w st) (\<lambda>(ok, st'). if ok then k st' else Inr st')"

section \<open>Announcements and neighbour removal with their writes\<close>

text \<open>The broadcast loop of \<^verbatim>\<open>announce_new_path\<close>: every live slot, its socket
  read when the loop reaches it, is written the line; a failure does not stop
  the loop.\<close>

fun broadcast :: "broken_handler \<Rightarrow> string \<Rightarrow> nat list \<Rightarrow> handler" where
  "broadcast hbs msg [] st = Inr st"
| "broadcast hbs msg (i # is) st =
     (if sock_of i st \<noteq> -1
      then err_bind (conn_printf hbs (sock_of i st) msg st) (\<lambda>(_, st'). broadcast hbs msg is st')
      else broadcast hbs msg is st)"

definition announce_new_path_io :: "broken_handler \<Rightarrow> node_id \<Rightarrow> handler" where
  "announce_new_path_io hbs recipient_id st =
     err_bind (announce_new_path (nd_id (self st)) recipient_id (rt st))
       (\<lambda>msg. broadcast hbs msg [0..<MAX_CONNECTIONS] st)"

definition update_routing_and_announce_io :: "broken_handler \<Rightarrow> node_id \<Rightarrow> node_id \<Rightarrow> path option \<Rightarrow> handler" where
  "update_routing_and_announce_io hbs neighbor_id recipient_id p st =
     err_bind (update_routing_given_new_path (nd_id (self st)) neighbor_id recipient_id p (rt st))
       (\<lambda>(changed, rt'). if changed then announce_new_path_io hbs recipient_id (st\<lparr>rt := rt'\<rparr>)
                          else Inr (st\<lparr>rt := rt'\<rparr>))"

fun remove_neighbor_rows_io :: "broken_handler \<Rightarrow> node_id \<Rightarrow> nat list \<Rightarrow> handler" where
  "remove_neighbor_rows_io hbs neighbor_id [] st = Inr st"
| "remove_neighbor_rows_io hbs neighbor_id (r # rs) st =
     (let recipient_id = recipient_ids (rt st) ! r in
      if recipient_id \<noteq> NO_NODE_ID
      then err_bind (update_routing_and_announce_io hbs neighbor_id recipient_id None st)
             (remove_neighbor_rows_io hbs neighbor_id rs)
      else remove_neighbor_rows_io hbs neighbor_id rs st)"

text \<open>\<^verbatim>\<open>remove_routing_neighbor(neighbor_id)\<close> with its announcements: the slot
  index is looked up once, before the loop, and freed after it.\<close>

definition remove_routing_neighbor_io :: "broken_handler \<Rightarrow> node_id \<Rightarrow> handler" where
  "remove_routing_neighbor_io hbs neighbor_id st =
     err_bind (get_neighbor_index neighbor_id False (rt st)) (\<lambda>(neighbor, _).
       if neighbor = NO_NODE_INDEX then Inr st
       else err_bind (remove_neighbor_rows_io hbs neighbor_id [0..<MAX_RECIPIENTS] st) (\<lambda>st'.
              Inr (st'\<lparr>rt := (rt st')\<lparr>neighbor_ids := (neighbor_ids (rt st'))[nat neighbor := NO_NODE_ID]\<rparr>\<rparr>)))"

text \<open>\<^verbatim>\<open>remove_neighbor_connection(node_id)\<close> (\<^verbatim>\<open>ring.c\<close>): the routing
  tables forget a neighbour once no connection to it is left.\<close>

definition remove_neighbor_connection :: "broken_handler \<Rightarrow> node_id \<Rightarrow> handler" where
  "remove_neighbor_connection hbs nid st =
     (if nid \<noteq> NO_NODE_ID \<and> find_connection_by_node_id nid (reg st) = None
      then remove_routing_neighbor_io hbs nid st else Inr st)"

text \<open>\<^verbatim>\<open>forward_message(sender_id, recipient_id, chat_message)\<close>: the
  \<^verbatim>\<open>CHAT\<close> line goes to the connection of the chosen neighbour. A recipient
  slot without a choice makes the C code read \<^verbatim>\<open>neighbor_ids[-1]\<close>, and a
  neighbour without a connection makes it dereference NULL.\<close>

definition forward_message :: "broken_handler \<Rightarrow> node_id \<Rightarrow> node_id \<Rightarrow> string \<Rightarrow> node_state \<Rightarrow> error + bool \<times> node_state" where
  "forward_message hbs sender_id recipient_id chat st =
     err_bind (get_recipient_index recipient_id False (rt st)) (\<lambda>(r, _).
       if r = NO_NODE_INDEX then Inr (False, st)
       else (let f = forwarding_table (rt st) ! nat r in
             if f = NO_NODE_INDEX then Inl (Undefined_behaviour ''neighbor_ids[-1] read in forward_message'')
             else (let neighbor_id = neighbor_ids (rt st) ! nat f in
                   case find_connection_by_node_id neighbor_id (reg st) of
                     None \<Rightarrow> Inl (Undefined_behaviour ''NULL neighbor_conn dereferenced in forward_message'')
                   | Some c \<Rightarrow> conn_printf hbs (sock_of c st)
                                 (''CHAT '' @ fmt_node_id sender_id @ '' '' @ fmt_node_id recipient_id @ '' '' @
                                  chat @ ''\<newline>'') st)))"

section \<open>Connecting, leaving and joining\<close>

text \<open>The next planned outcome of a connection attempt; an exhausted plan is a
  failing \<^verbatim>\<open>socket()\<close>.\<close>

definition next_connect :: "node_state \<Rightarrow> connect_outcome \<times> node_state" where
  "next_connect st = (case connects st of [] \<Rightarrow> (Socket_failed, st) | c # cs \<Rightarrow> (c, st\<lparr>connects := cs\<rparr>))"

text \<open>\<^verbatim>\<open>connect_to_node(node)\<close>: the socket is registered and the slot is given
  the node's identity before the address is resolved and \<^verbatim>\<open>connect()\<close> is
  called; when those fail the function returns NULL and the slot stays live.\<close>

definition connect_to_node :: "node_info \<Rightarrow> node_state \<Rightarrow> error + conn_ptr \<times> node_state" where
  "connect_to_node node st =
     (case next_connect st of
        (Socket_failed, st1) \<Rightarrow> Inr (None, st1)
      | (Connect_failed s, st1) \<Rightarrow> err_bind (add_connection s (reg st1)) (\<lambda>(i, reg1).
            Inr (None, st1\<lparr>reg := reg1\<lparr>connections := (connections reg1)[i :=
                   (connections reg1 ! i)\<lparr>node_id := nd_id node, ip_addr := nd_ip node, tcp_port := nd_port node\<rparr>]\<rparr>\<rparr>))
      | (Connected s, st1) \<Rightarrow> err_bind (add_connection s (reg st1)) (\<lambda>(i, reg1).
            Inr (Some i, st1\<lparr>reg := reg1\<lparr>connections := (connections reg1)[i :=
                   (connections reg1 ! i)\<lparr>node_id := nd_id node, ip_addr := nd_ip node, tcp_port := nd_port node\<rparr>]\<rparr>\<rparr>)))"

definition close_all :: "registry \<Rightarrow> registry" where
  "close_all reg0 = foldl (\<lambda>r i. close_connection (Some i) r) reg0 [0..<MAX_CONNECTIONS]"

text \<open>\<^verbatim>\<open>leave_ring()\<close>: unregister when connected through the directory, close
  every connection, and return to \<^verbatim>\<open>DISCONNECTED\<close>. The pending timer is
  left as it is.\<close>

definition leave_ring :: "node_state \<Rightarrow> node_state" where
  "leave_ring st =
     (let st1 = (if connection_state st = CONNECTED \<and> ring_id_str st \<noteq> []
                 then st\<lparr>ns_sent := ns_sent st @ [take 12 (''UNREG '' @ ring_id_str st @ '' '' @ fmt_node_id (nd_id (self st)))]\<rparr>
                 else st)
      in st1\<lparr>reg := close_all (reg st1), connection_state := DISCONNECTED\<rparr>)"

text \<open>\<^verbatim>\<open>on_join_end()\<close>: connected, and registered unless direct join was used.\<close>

definition on_join_end :: "node_state \<Rightarrow> node_state" where
  "on_join_end st =
     (let st1 = st\<lparr>connection_state := CONNECTED\<rparr> in
      if ring_id_str st \<noteq> []
      then st1\<lparr>ns_sent := ns_sent st1 @ [''REG '' @ ring_id_str st @ '' '' @ fmt_node_id (nd_id (self st)) @ '' '' @
                                         nd_ip (self st) @ '' '' @ nd_port (self st)]\<rparr>
      else st1)"

definition set_reg_succ :: "conn_ptr \<Rightarrow> node_state \<Rightarrow> node_state" where
  "set_reg_succ c st = st\<lparr>reg := (reg st)\<lparr>succ_conn := c\<rparr>\<rparr>"

text \<open>\<^verbatim>\<open>join_ring()\<close>: the routing tables are reset, the node waits for both
  \<^verbatim>\<open>SUCC\<close> and \<^verbatim>\<open>PRED\<close>, connects to the chosen successor, sends it
  \<^verbatim>\<open>ENTRY\<close> and the table, and arms the one-second predecessor timer.\<close>

definition join_ring :: "broken_handler \<Rightarrow> handler" where
  "join_ring hbs st =
     (let st1 = st\<lparr>rt := init_routing (rt st), connection_state := CONNECTING,
                   awaiting_succ := True, awaiting_pred := True,
                   reg := (reg st)\<lparr>pred_conn := None, outbound_chord_conn := None, new_node_conn := None\<rparr>\<rparr>
      in err_bind (connect_to_node (succ st1) st1) (\<lambda>(c, st2).
           let st3 = set_reg_succ c st2 in
           case c of
             None \<Rightarrow> Inr (leave_ring st3)
           | Some i \<Rightarrow>
               then_if_ok (conn_printf hbs (sock_of i st3)
                             (entry_msg (nd_id (self st3)) (nd_ip (self st3)) (nd_port (self st3)) @ ''\<newline>''))
                 (then_if_ok (send_shortest_paths hbs i)
                    (\<lambda>st4. Inr (st4\<lparr>timeout_handler := Some Pred_timeout\<rparr>))) st3))"

text \<open>\<^verbatim>\<open>create_outbound_chord(node)\<close>. The early return for a node already
  connected is commented out in the source, so the chord is attempted anyway.\<close>

definition create_outbound_chord :: "broken_handler \<Rightarrow> node_info \<Rightarrow> handler" where
  "create_outbound_chord hbs node st =
     err_bind (connect_to_node node st) (\<lambda>(c, st1).
       let st2 = st1\<lparr>reg := (reg st1)\<lparr>outbound_chord_conn := c\<rparr>\<rparr> in
       case c of
         None \<Rightarrow> Inr st2
       | Some i \<Rightarrow> then_if_ok (conn_printf hbs (sock_of i st2) (chord_msg (nd_id (self st2)) @ ''\<newline>''))
                    (then_if_ok (send_shortest_paths hbs i) Inr) st2)"


section \<open>Writes that succeed\<close>

text \<open>The state in which no live connection's socket is broken, the entry a
  successful \<^verbatim>\<open>conn_printf\<close> adds to the log, the entries of a line
  broadcast to every live connection, and the state after a pure routing
  operation whose lines are broadcast.\<close>

definition healthy :: "node_state \<Rightarrow> bool" where
  "healthy st \<longleftrightarrow> (\<forall>i<MAX_CONNECTIONS. sock_of i st \<noteq> -1 \<longrightarrow> sock_of i st \<notin> broken st)"

definition written :: "int \<Rightarrow> string \<Rightarrow> int \<times> string" where
  "written s m = (s, take (MAX_NODE_MESSAGE_SIZE - 1) m)"

definition broadcast_log :: "node_state \<Rightarrow> string \<Rightarrow> (int \<times> string) list" where
  "broadcast_log st m = map (\<lambda>i. written (sock_of i st) m) (filter (\<lambda>i. sock_of i st \<noteq> -1) [0..<MAX_CONNECTIONS])"

definition emit :: "node_state \<Rightarrow> routing \<Rightarrow> string list \<Rightarrow> node_state" where
  "emit st rt' ms = st\<lparr>rt := rt', sent := sent st @ concat (map (broadcast_log st) ms)\<rparr>"

section \<open>Lemmas: writes that succeed\<close>

lemma conn_printf_ok:
  "s \<noteq> -1 \<Longrightarrow> s \<notin> broken st \<Longrightarrow> conn_printf hbs s m st = Inr (True, st\<lparr>sent := sent st @ [written s m]\<rparr>)"
  by (simp add: conn_printf_def written_def)

lemma sock_of_sent [simp]: "sock_of c (st\<lparr>sent := x\<rparr>) = sock_of c st"
  by (simp add: sock_of_def)

lemma send_route_lines_ok:
  assumes "sock_of c st \<noteq> -1" "sock_of c st \<notin> broken st"
  shows "send_route_lines hbs c rs st =
           (case route_lines (nd_id (self st)) (rt st) rs of
              Inl e \<Rightarrow> Inl e
            | Inr ms \<Rightarrow> Inr (True, st\<lparr>sent := sent st @ map (written (sock_of c st)) ms\<rparr>))"
  using assms
proof (induction rs arbitrary: st)
  case Nil
  then show ?case by simp
next
  case (Cons r rs)
  define m where "m = get_route_message (nd_id (self st)) (recipient_ids (rt st) ! r)
                        (if forwarding_table (rt st) ! r = NO_NODE_INDEX then None
                         else Some (routing_table (rt st) ! r ! nat (forwarding_table (rt st) ! r)))"
  show ?case
  proof (cases "recipient_ids (rt st) ! r \<noteq> NO_NODE_ID")
    case False
    then show ?thesis using Cons.IH [OF Cons.prems] by simp
  next
    case True
    show ?thesis
    proof (cases m)
      case (Inl e)
      then show ?thesis using True by (simp add: m_def [symmetric] Let_def)
    next
      case (Inr l)
      have "send_route_lines hbs c rs (st\<lparr>sent := sent st @ [written (sock_of c st) l]\<rparr>) =
              (case route_lines (nd_id (self st)) (rt st) rs of
                 Inl e \<Rightarrow> Inl e
               | Inr ms \<Rightarrow> Inr (True, st\<lparr>sent := sent st @ written (sock_of c st) l # map (written (sock_of c st)) ms\<rparr>))"
        using Cons.IH [of "st\<lparr>sent := sent st @ [written (sock_of c st) l]\<rparr>"] Cons.prems
        by (simp split: sum.split)
      then show ?thesis using True Inr Cons.prems
        by (simp add: m_def [symmetric] Let_def conn_printf_ok split: sum.split)
    qed
  qed
qed

lemma broadcast_ok:
  assumes "healthy st" "set ixs \<subseteq> {..<MAX_CONNECTIONS}"
  shows "broadcast hbs m ixs st =
           Inr (st\<lparr>sent := sent st @ map (\<lambda>i. written (sock_of i st) m) (filter (\<lambda>i. sock_of i st \<noteq> -1) ixs)\<rparr>)"
  using assms
proof (induction ixs arbitrary: st)
  case Nil
  then show ?case by simp
next
  case (Cons i ixs)
  have h: "healthy (st\<lparr>sent := x\<rparr>)" for x using Cons.prems(1) by (simp add: healthy_def)
  show ?case
    using Cons.prems Cons.IH [OF h] Cons.IH [OF h, of "sent st"] by (auto simp: healthy_def conn_printf_ok)
qed

lemma sock_of_rt [simp]: "sock_of c (st\<lparr>rt := x\<rparr>) = sock_of c st"
  by (simp add: sock_of_def)

lemma broadcast_log_rt [simp]: "broadcast_log (st\<lparr>rt := x\<rparr>) = broadcast_log st"
  unfolding broadcast_log_def by simp

lemma broadcast_log_sent [simp]: "broadcast_log (st\<lparr>sent := x\<rparr>) = broadcast_log st"
  unfolding broadcast_log_def by simp

lemma healthy_rt [simp]: "healthy (st\<lparr>rt := x\<rparr>) = healthy st"
  unfolding healthy_def by simp

lemma healthy_sent [simp]: "healthy (st\<lparr>sent := x\<rparr>) = healthy st"
  unfolding healthy_def by simp

lemma broadcast_all:
  "healthy st \<Longrightarrow> broadcast hbs m [0..<MAX_CONNECTIONS] st = Inr (st\<lparr>sent := sent st @ broadcast_log st m\<rparr>)"
proof -
  assume h: "healthy st"
  have "set [0..<MAX_CONNECTIONS] \<subseteq> {..<MAX_CONNECTIONS}" by auto
  then show ?thesis using broadcast_ok [OF h] by (simp add: broadcast_log_def)
qed

lemma announce_new_path_io_ok:
  "healthy st \<Longrightarrow> announce_new_path_io hbs rid st =
     err_bind (announce_new_path (nd_id (self st)) rid (rt st)) (\<lambda>m. Inr (emit st (rt st) [m]))"
  by (simp add: announce_new_path_io_def broadcast_all [simplified] emit_def err_bind_def split: sum.split)

lemma update_routing_and_announce_io_ok:
  "healthy st \<Longrightarrow> update_routing_and_announce_io hbs nbr rid p st =
     err_bind (update_routing_and_announce_given_new_path (nd_id (self st)) nbr rid p (rt st))
       (\<lambda>(rt', ms). Inr (emit st rt' ms))"
  by (auto simp: update_routing_and_announce_io_def update_routing_and_announce_given_new_path_def
                 announce_new_path_io_ok emit_def err_bind_def split: sum.split prod.split)

lemma emit_emit: "emit (emit st rt1 ms1) rt2 ms2 = emit st rt2 (ms1 @ ms2)"
  by (simp add: emit_def)

lemma emit_fields [simp]:
  "self (emit st r ms) = self st" "healthy (emit st r ms) = healthy st" "rt (emit st r ms) = r"
  by (simp_all add: emit_def)

lemma emit_Nil: "emit st (rt st) [] = st"
  by (simp add: emit_def)

lemma remove_neighbor_rows_io_ok:
  "healthy st \<Longrightarrow> remove_neighbor_rows_io hbs nbr rs st =
     err_bind (remove_neighbor_rows (nd_id (self st)) nbr rs (rt st)) (\<lambda>(rt', ms). Inr (emit st rt' ms))"
proof (induction rs arbitrary: st)
  case Nil
  then show ?case by (simp add: emit_Nil)
next
  case (Cons r rs)
  show ?case
  proof (cases "recipient_ids (rt st) ! r \<noteq> NO_NODE_ID")
    case False
    then show ?thesis using Cons by simp
  next
    case True
    show ?thesis
    proof (cases "update_routing_and_announce_given_new_path (nd_id (self st)) nbr (recipient_ids (rt st) ! r) None (rt st)")
      case (Inl e)
      then show ?thesis using True Cons.prems by (simp add: update_routing_and_announce_io_ok)
    next
      case (Inr a)
      obtain rt1 ms1 where a: "a = (rt1, ms1)" by (cases a)
      have ih: "remove_neighbor_rows_io hbs nbr rs (emit st rt1 ms1) =
                  err_bind (remove_neighbor_rows (nd_id (self st)) nbr rs rt1) (\<lambda>(rt', ms). Inr (emit (emit st rt1 ms1) rt' ms))"
        using Cons.IH [of "emit st rt1 ms1"] Cons.prems by simp
      show ?thesis using True Inr a Cons.prems ih
        by (auto simp: update_routing_and_announce_io_ok emit_emit err_bind_def split: sum.split prod.split)
    qed
  qed
qed


lemma remove_routing_neighbor_io_ok:
  "healthy st \<Longrightarrow> remove_routing_neighbor_io hbs nbr st =
     err_bind (remove_routing_neighbor (nd_id (self st)) nbr (rt st)) (\<lambda>(rt', ms). Inr (emit st rt' ms))"
  by (auto simp: remove_routing_neighbor_io_def remove_routing_neighbor_def remove_neighbor_rows_io_ok
                 emit_def err_bind_def split: sum.split prod.split)

section \<open>Refinement of the pure routing operations\<close>

text \<open>Claim C11: with a working socket, \<^verbatim>\<open>send_shortest_paths\<close> writes to it
  exactly the lines of the pure table dump \<open>shortest_path_lines\<close>, in order,
  each cut to the 255 bytes of \<^verbatim>\<open>conn_printf\<close>'s buffer, and fails exactly
  when the dump does; nothing else of the state changes and the
  broken-socket handler is never called.\<close>

theorem send_shortest_paths_refines:
  assumes "sock_of c st \<noteq> -1" "sock_of c st \<notin> broken st"
  shows "send_shortest_paths hbs c st =
           (case shortest_path_lines (nd_id (self st)) (rt st) of
              Inl e \<Rightarrow> Inl e
            | Inr ls \<Rightarrow> Inr (True, st\<lparr>sent := sent st @ map (written (sock_of c st)) ls\<rparr>))"
  using assms
  by (auto simp: send_shortest_paths_def shortest_path_lines_def conn_printf_ok send_route_lines_ok err_bind_def Let_def
           split: sum.splits)


text \<open>Claim C10: when no live connection is broken,
  \<^verbatim>\<open>remove_routing_neighbor\<close> with its writes is the pure
  \<open>remove_routing_neighbor\<close> of the routing engine followed by the broadcast
  of each announcement it returns to every live connection, in order: the
  properties proved of the pure tables hold of the program's.\<close>

theorem remove_routing_neighbor_io_refines:
  assumes "healthy st"
  shows "remove_routing_neighbor_io hbs nbr st =
           err_bind (remove_routing_neighbor (nd_id (self st)) nbr (rt st))
             (\<lambda>(rt', ms). Inr (st\<lparr>rt := rt', sent := sent st @ concat (map (broadcast_log st) ms)\<rparr>))"
  using remove_routing_neighbor_io_ok [OF assms] by (simp add: emit_def)

theorem send_shortest_paths_refines_witness:
  "send_shortest_paths (\<lambda>s st. Inl Fuel_exhausted) 0 ((initial_state ''10.0.0.1'' ''58001'' {} [] [])\<lparr>reg := registry_static\<rparr>) =
     (case shortest_path_lines (nd_id (self ((initial_state ''10.0.0.1'' ''58001'' {} [] [])\<lparr>reg := registry_static\<rparr>)))
             (rt ((initial_state ''10.0.0.1'' ''58001'' {} [] [])\<lparr>reg := registry_static\<rparr>)) of
        Inl e \<Rightarrow> Inl e
      | Inr ls \<Rightarrow> Inr (True, ((initial_state ''10.0.0.1'' ''58001'' {} [] [])\<lparr>reg := registry_static\<rparr>)\<lparr>sent :=
                    sent ((initial_state ''10.0.0.1'' ''58001'' {} [] [])\<lparr>reg := registry_static\<rparr>) @
                    map (written (sock_of 0 ((initial_state ''10.0.0.1'' ''58001'' {} [] [])\<lparr>reg := registry_static\<rparr>))) ls\<rparr>))"
  by (rule send_shortest_paths_refines) (simp_all add: sock_of_def registry_static_def connection_static_def initial_state_def)

theorem remove_routing_neighbor_io_refines_witness:
  "remove_routing_neighbor_io (\<lambda>s st. Inl Fuel_exhausted) 20 (initial_state ''10.0.0.1'' ''58001'' {} [] []) =
     err_bind (remove_routing_neighbor (nd_id (self (initial_state ''10.0.0.1'' ''58001'' {} [] []))) 20
                 (rt (initial_state ''10.0.0.1'' ''58001'' {} [] [])))
       (\<lambda>(rt', ms). Inr ((initial_state ''10.0.0.1'' ''58001'' {} [] [])\<lparr>rt := rt',
          sent := sent (initial_state ''10.0.0.1'' ''58001'' {} [] []) @
                  concat (map (broadcast_log (initial_state ''10.0.0.1'' ''58001'' {} [] [])) ms)\<rparr>))"
  by (rule remove_routing_neighbor_io_refines) (simp add: healthy_def initial_state_def)

end
