(* ===== verification/RingHandlers.thy ===== *)
theory RingHandlers
  imports RingIO
begin

text \<open>
  The message handlers of \<^verbatim>\<open>src/ring.c\<close>, one definition per handler or per
  block of a handler, and the dispatch by role (\<^verbatim>\<open>handle_message\<close>) and the
  broken-socket handling (\<^verbatim>\<open>handle_broken_socket\<close>). A line is recognised by
  the \<^verbatim>\<open>sscanf\<close> of its handler; a match of the conversions the handler counts
  is a match of the list of values \<open>sscanf\<close> returns (the formats have no other
  way to reach that count). Dereferences of a NULL role pointer are the result
  \<open>Inl (Undefined_behaviour _)\<close>, the \<^verbatim>\<open>error("Assertion failed ...")\<close>
  exits are \<open>Inl (Assertion_failed _)\<close>.

  \<^verbatim>\<open>handle_broken_socket\<close> can run inside any write of any handler, itself
  included; \<open>handle_broken_socket n\<close> allows \<open>n\<close> nested runs and yields
  \<open>Fuel_exhausted\<close> beyond them.
\<close>

section \<open>Helpers\<close>

definition set_node_id :: "nat \<Rightarrow> node_id \<Rightarrow> node_state \<Rightarrow> node_state" where
  "set_node_id c i st =
     st\<lparr>reg := (reg st)\<lparr>connections := (connections (reg st))[c := (connections (reg st) ! c)\<lparr>node_id := i\<rparr>]\<rparr>\<rparr>"

definition close_st :: "conn_ptr \<Rightarrow> node_state \<Rightarrow> node_state" where
  "close_st c st = st\<lparr>reg := close_connection c (reg st)\<rparr>"

definition node_id_of :: "nat \<Rightarrow> node_state \<Rightarrow> node_id" where
  "node_id_of c st = node_id (connections (reg st) ! c)"

definition mk_node :: "node_id \<Rightarrow> string \<Rightarrow> string \<Rightarrow> node_info" where
  "mk_node i ip port = \<lparr>nd_id = i, nd_ip = ip, nd_port = port\<rparr>"

definition succ_line :: "node_info \<Rightarrow> string" where
  "succ_line n = succ_msg (nd_id n) (nd_ip n) (nd_port n) @ ''\<newline>''"

definition ub_null :: "string \<Rightarrow> error + 'a" where
  "ub_null what = Inl (Undefined_behaviour (''NULL '' @ what @ '' dereferenced''))"

text \<open>The test of \<^verbatim>\<open>handle_broken_succ_socket\<close> and of the \<^verbatim>\<open>PRED\<close> handler
  before they close a chord that has become a ring link.\<close>

definition is_degenerate_chord :: "conn_ptr \<Rightarrow> registry \<Rightarrow> bool" where
  "is_degenerate_chord conn r \<longleftrightarrow>
     conn \<noteq> None \<and> (conn = outbound_chord_conn r \<or> is_inbound_chord conn r)"

section \<open>Messages valid on any link\<close>

text \<open>The first block of \<^verbatim>\<open>handle_message_from_any_node\<close>: a \<^verbatim>\<open>ROUTE\<close>
  line with a path, from the connection \<open>conn\<close> (NULL when the line's
  connection was closed by an earlier line of the same read). \<open>None\<close>: not
  such a line.\<close>

definition handle_route_with_path :: "broken_handler \<Rightarrow> string \<Rightarrow> conn_ptr \<Rightarrow> node_state \<Rightarrow> (error + node_state) option" where
  "handle_route_with_path hbs msg conn st =
     (case sscanf ''ROUTE %hhd %hhd %47s'' msg of
        [V_int nbr, V_int rid, V_str ps] \<Rightarrow> Some
          (case conn of None \<Rightarrow> ub_null ''conn'' | Some c \<Rightarrow>
           if nbr \<noteq> node_id_of c st then Inr st
           else if nbr = nd_id (self st) then Inr st
           else (case parse_path_str ps of
                   Inl e \<Rightarrow> Inl e
                 | Inr None \<Rightarrow> Inr st
                 | Inr (Some p) \<Rightarrow>
                     if nbr = rid \<and> hop_count p \<noteq> 0 then Inr st
                     else if nbr \<noteq> rid \<and> hop_count p = 0 then Inr st
                     else update_routing_and_announce_io hbs nbr rid (Some p) st))
      | _ \<Rightarrow> None)"

definition handle_route_without_path :: "broken_handler \<Rightarrow> string \<Rightarrow> conn_ptr \<Rightarrow> node_state \<Rightarrow> (error + node_state) option" where
  "handle_route_without_path hbs msg conn st =
     (case sscanf ''ROUTE %hhd %hhd'' msg of
        [V_int nbr, V_int rid] \<Rightarrow> Some
          (if nbr = nd_id (self st) then Inr st
           else (case conn of None \<Rightarrow> ub_null ''conn'' | Some c \<Rightarrow>
                 if nbr \<noteq> node_id_of c st then Inr st
                 else if rid = nd_id (self st) then Inr st
                 else update_routing_and_announce_io hbs nbr rid None st))
      | _ \<Rightarrow> None)"

text \<open>A \<^verbatim>\<open>CHAT\<close> line: shown to the user when addressed to this node,
  forwarded otherwise. The text starts after the single space that must follow
  the recipient id.\<close>

definition handle_chat :: "broken_handler \<Rightarrow> string \<Rightarrow> node_state \<Rightarrow> (error + node_state) option" where
  "handle_chat hbs msg st =
     (case sscanf ''CHAT %hhd %hhd%n'' msg of
        [V_int sid, V_int rid, V_pos p] \<Rightarrow>
          if p < length msg \<and> msg ! p = CHR '' '' then Some
            (let chat = drop (Suc p) msg in
             if rid = nd_id (self st) then Inr (st\<lparr>delivered := delivered st @ [(sid, chat)]\<rparr>)
             else err_bind (forward_message hbs sid rid chat st) (\<lambda>(_, st'). Inr st'))
          else None
      | _ \<Rightarrow> None)"

definition handle_message_from_any_node :: "broken_handler \<Rightarrow> string \<Rightarrow> conn_ptr \<Rightarrow> node_state \<Rightarrow> (error + node_state) option" where
  "handle_message_from_any_node hbs msg conn st =
     (case handle_route_with_path hbs msg conn st of
        Some r \<Rightarrow> Some r
      | None \<Rightarrow> (case handle_route_without_path hbs msg conn st of
                   Some r \<Rightarrow> Some r
                 | None \<Rightarrow> handle_chat hbs msg st))"

text \<open>\<^verbatim>\<open>if (handle_message_from_any_node(message, conn)) return; warn(...)\<close>.\<close>

definition any_or_warn :: "broken_handler \<Rightarrow> string \<Rightarrow> conn_ptr \<Rightarrow> handler" where
  "any_or_warn hbs msg conn st =
     (case handle_message_from_any_node hbs msg conn st of Some r \<Rightarrow> r | None \<Rightarrow> Inr st)"

section \<open>Messages from the successor\<close>

text \<open>\<^verbatim>\<open>SUCC id ip port\<close>: the successor names its successor.\<close>

definition handle_succ_line :: "string \<Rightarrow> node_state \<Rightarrow> (error + node_state) option" where
  "handle_succ_line msg st =
     (case sscanf ''SUCC %hhd %15s %5s'' msg of
        [V_int i, V_str ip, V_str port] \<Rightarrow> Some
          (if i = nd_id (succ st) then Inr st
           else (let st1 = st\<lparr>second_succ := mk_node i ip port, awaiting_succ := False\<rparr> in
                 if connection_state st1 = CONNECTING \<and> \<not> awaiting_pred st1 then Inr (on_join_end st1)
                 else Inr st1))
      | _ \<Rightarrow> None)"

text \<open>\<^verbatim>\<open>ENTRY id ip port\<close> from the successor: a node enters between this
  node and its successor. The predecessor is told its new second successor,
  the old successor link is closed, and the entering node becomes the
  successor.\<close>

definition handle_entry_from_succ :: "broken_handler \<Rightarrow> string \<Rightarrow> node_state \<Rightarrow> (error + node_state) option" where
  "handle_entry_from_succ hbs msg st =
     (case sscanf ''ENTRY %hhd %15s %5s'' msg of
        [V_int i, V_str ip, V_str port] \<Rightarrow> Some
          (if i = nd_id (self st) \<or> find_connection_by_node_id i (reg st) \<noteq> None \<or> i = nd_id (second_succ st)
           then Inr (leave_ring st)
           else (case pred_conn (reg st) of
                   None \<Rightarrow> ub_null ''pred_conn''
                 | Some p \<Rightarrow>
                     then_if_ok (conn_printf hbs (sock_of p st) (succ_msg_2d i ip port @ ''\<newline>''))
                       (\<lambda>st1. err_bind (remove_neighbor_connection hbs (nd_id (succ st1))
                                         (close_st (succ_conn (reg st1)) st1)) (\<lambda>st2.
                          let st3 = st2\<lparr>second_succ := succ st2, succ := mk_node i ip port\<rparr> in
                          err_bind (connect_to_node (succ st3) st3) (\<lambda>(c, st4).
                            let st5 = set_reg_succ c st4 in
                            case c of
                              None \<Rightarrow> Inr (leave_ring st5)
                            | Some k \<Rightarrow> then_if_ok (conn_printf hbs (sock_of k st5) (pred_msg (nd_id (self st5)) @ ''\<newline>''))
                                         (then_if_ok (send_shortest_paths hbs k) Inr) st5))) st))
      | _ \<Rightarrow> None)"

definition handle_message_from_succ :: "broken_handler \<Rightarrow> string \<Rightarrow> handler" where
  "handle_message_from_succ hbs msg st =
     (case handle_succ_line msg st of
        Some r \<Rightarrow> r
      | None \<Rightarrow> (case handle_entry_from_succ hbs msg st of
                   Some r \<Rightarrow> r
                 | None \<Rightarrow> any_or_warn hbs msg (succ_conn (reg st)) st))"

section \<open>Messages from the predecessor\<close>

definition handle_message_from_pred :: "broken_handler \<Rightarrow> string \<Rightarrow> handler" where
  "handle_message_from_pred hbs msg st =
     (if take 6 msg = ''ENTRY '' \<and> connection_state st = CONNECTING then Inr (leave_ring st)
      else any_or_warn hbs msg (pred_conn (reg st)) st)"

section \<open>Messages from a new connection\<close>

text \<open>\<^verbatim>\<open>ENTRY\<close> on the new connection \<open>k\<close>, with this node alone in its
  ring: the two nodes become each other's successor and predecessor.\<close>

definition entry_when_alone :: "broken_handler \<Rightarrow> nat \<Rightarrow> node_id \<Rightarrow> string \<Rightarrow> string \<Rightarrow> handler" where
  "entry_when_alone hbs k i ip port st =
     (let st0 = set_node_id k i st in
      if connection_state st0 = DISCONNECTED then Inr (close_st (new_node_conn (reg st0)) st0)
      else if i = nd_id (self st0) then Inr (close_st (new_node_conn (reg st0)) st0)
      else (let st1 = st0\<lparr>succ := mk_node i ip port, second_succ := self st0\<rparr> in
            then_if_ok (conn_printf hbs (sock_of k st1) (succ_line (succ st1)))
              (\<lambda>st2. err_bind (connect_to_node (succ st2) st2) (\<lambda>(c, st3).
                 let st4 = set_reg_succ c st3 in
                 case c of
                   None \<Rightarrow> Inr (leave_ring st4)
                 | Some j \<Rightarrow>
                     then_if_ok (conn_printf hbs (sock_of j st4) (pred_msg (nd_id (self st4)) @ ''\<newline>''))
                       (then_if_ok (send_shortest_paths hbs j)
                          (\<lambda>st5. if pred_conn (reg st5) \<noteq> None
                                 then Inl (Assertion_failed ''(pred_conn == NULL) when alone and accepting an entry request'')
                                 else Inr (st5\<lparr>reg := (reg st5)\<lparr>pred_conn := new_node_conn (reg st5),
                                                                  new_node_conn := None\<rparr>\<rparr>))) st4)) st1))"

text \<open>\<^verbatim>\<open>ENTRY\<close> on the new connection \<open>k\<close> in a ring of two or more: the
  entering node is told its successor, the old predecessor is told about the
  entry, and the entering node replaces the old predecessor.\<close>

definition entry_when_connected :: "broken_handler \<Rightarrow> nat \<Rightarrow> node_id \<Rightarrow> string \<Rightarrow> string \<Rightarrow> handler" where
  "entry_when_connected hbs k i ip port st =
     (let st0 = set_node_id k i st in
      then_if_ok (conn_printf hbs (sock_of k st0) (succ_line (succ st0)))
        (then_if_ok (\<lambda>st1. case pred_conn (reg st1) of
                              None \<Rightarrow> ub_null ''pred_conn''
                            | Some p \<Rightarrow> conn_printf hbs (sock_of p st1) (entry_msg i ip port @ ''\<newline>'') st1)
          (then_if_ok (send_shortest_paths hbs k)
             (\<lambda>st2. case pred_conn (reg st2) of
                      None \<Rightarrow> ub_null ''pred_conn''
                    | Some p \<Rightarrow>
                        err_bind (remove_neighbor_connection hbs (node_id_of p st2) (close_st (Some p) st2)) (\<lambda>st3.
                          Inr (st3\<lparr>reg := (reg st3)\<lparr>pred_conn := new_node_conn (reg st3), new_node_conn := None\<rparr>\<rparr>))))) st0)"

text \<open>The \<^verbatim>\<open>ENTRY\<close> branch of \<^verbatim>\<open>handle_message_from_new_node\<close>; its first
  statement in both accepting cases dereferences \<^verbatim>\<open>new_node_conn\<close>.\<close>

definition handle_new_entry :: "broken_handler \<Rightarrow> string \<Rightarrow> node_state \<Rightarrow> (error + node_state) option" where
  "handle_new_entry hbs msg st =
     (case sscanf ''ENTRY %hhd %15s %5s'' msg of
        [V_int i, V_str ip, V_str port] \<Rightarrow> Some
          (if connection_state st = DISCONNECTED \<or>
              (connection_state st = CONNECTED \<and> nd_id (succ st) = nd_id (self st))
           then (case new_node_conn (reg st) of None \<Rightarrow> ub_null ''new_node_conn''
                 | Some k \<Rightarrow> entry_when_alone hbs k i ip port st)
           else if connection_state st = CONNECTED
           then (case new_node_conn (reg st) of None \<Rightarrow> ub_null ''new_node_conn''
                 | Some k \<Rightarrow> entry_when_connected hbs k i ip port st)
           else Inr (close_st (new_node_conn (reg st)) st))
      | _ \<Rightarrow> None)"

text \<open>\<^verbatim>\<open>PRED id\<close>: the new connection is this node's predecessor. A previous
  predecessor link is closed, a chord to the same node is closed as
  degenerate, and the timer is cancelled.\<close>

definition handle_new_pred :: "broken_handler \<Rightarrow> string \<Rightarrow> node_state \<Rightarrow> (error + node_state) option" where
  "handle_new_pred hbs msg st =
     (case sscanf ''PRED %hhd'' msg of
        [V_int i] \<Rightarrow> Some
          (if connection_state st = DISCONNECTED then Inr (close_st (new_node_conn (reg st)) st)
           else (let st1 = (if pred_conn (reg st) \<noteq> None then close_st (pred_conn (reg st)) st else st);
                     conn = find_connection_by_node_id i (reg st1)
                 in err_bind (if is_degenerate_chord conn (reg st1)
                              then remove_neighbor_connection hbs i (close_st conn st1) else Inr st1) (\<lambda>st2.
                      case new_node_conn (reg st2) of
                        None \<Rightarrow> ub_null ''new_node_conn''
                      | Some k \<Rightarrow>
                          (let st3 = set_node_id k i st2;
                               st4 = st3\<lparr>reg := (reg st3)\<lparr>pred_conn := Some k, new_node_conn := None\<rparr>,
                                         timeout_handler := None\<rparr>
                           in then_if_ok (conn_printf hbs (sock_of k st4) (succ_line (succ st4)))
                                (then_if_ok (send_shortest_paths hbs k)
                                   (\<lambda>st5. let st6 = st5\<lparr>awaiting_pred := False\<rparr> in
                                          Inr (if connection_state st6 = CONNECTING \<and> \<not> awaiting_succ st6
                                               then on_join_end st6 else st6))) st4))))
      | _ \<Rightarrow> None)"

text \<open>\<^verbatim>\<open>CHORD id\<close>: the new connection becomes an inbound chord, unless a
  connection to that node exists; then the line is ignored and the connection
  stays the new connection.\<close>

definition handle_new_chord :: "broken_handler \<Rightarrow> string \<Rightarrow> node_state \<Rightarrow> (error + node_state) option" where
  "handle_new_chord hbs msg st =
     (case sscanf ''CHORD %hhd'' msg of
        [V_int i] \<Rightarrow> Some
          (if find_connection_by_node_id i (reg st) \<noteq> None then Inr st
           else (case new_node_conn (reg st) of
                   None \<Rightarrow> ub_null ''new_node_conn''
                 | Some k \<Rightarrow> then_if_ok (send_shortest_paths hbs k)
                              (\<lambda>st1. Inr (st1\<lparr>reg := (reg st1)\<lparr>new_node_conn := None\<rparr>\<rparr>)) (set_node_id k i st)))
      | _ \<Rightarrow> None)"

definition handle_message_from_new_node :: "broken_handler \<Rightarrow> string \<Rightarrow> handler" where
  "handle_message_from_new_node hbs msg st =
     (case handle_new_entry hbs msg st of
        Some r \<Rightarrow> r
      | None \<Rightarrow> (case handle_new_pred hbs msg st of
                   Some r \<Rightarrow> r
                 | None \<Rightarrow> (case handle_new_chord hbs msg st of Some r \<Rightarrow> r | None \<Rightarrow> Inr st)))"

section \<open>Broken links\<close>

text \<open>\<^verbatim>\<open>handle_broken_succ_socket()\<close>: the second successor is promoted and
  the node reconnects to it, after telling its predecessor.\<close>

definition handle_broken_succ_socket :: "broken_handler \<Rightarrow> handler" where
  "handle_broken_succ_socket hbs st =
     (if connection_state st \<noteq> CONNECTED then Inr (leave_ring st)
      else (let st1 = st\<lparr>awaiting_succ := True, succ := second_succ st\<rparr> in
            if nd_id (succ st1) = nd_id (self st1) then Inr st1
            else (case pred_conn (reg st1) of
                    None \<Rightarrow> Inr (leave_ring st1)
                  | Some p \<Rightarrow>
                      if node_id_of p st1 = NO_NODE_ID then Inr (leave_ring st1)
                      else then_if_ok (conn_printf hbs (sock_of p st1) (succ_line (succ st1)))
                        (\<lambda>st2. let conn = find_connection_by_node_id (nd_id (succ st2)) (reg st2) in
                           err_bind (if is_degenerate_chord conn (reg st2)
                                     then remove_neighbor_connection hbs (nd_id (succ st2)) (close_st conn st2)
                                     else Inr st2) (\<lambda>st3.
                           err_bind (connect_to_node (succ st3) st3) (\<lambda>(c, st4).
                             let st5 = set_reg_succ c st4 in
                             case c of
                               None \<Rightarrow> Inr (leave_ring st5)
                             | Some k \<Rightarrow> then_if_ok (conn_printf hbs (sock_of k st5) (pred_msg (nd_id (self st5)) @ ''\<newline>''))
                                          (then_if_ok (send_shortest_paths hbs k) Inr) st5))) st1)))"

text \<open>\<^verbatim>\<open>handle_broken_pred_socket()\<close>: the predecessor's routes are dropped
  (only if no other connection to it is left; the broken one is still open
  here) and, unless the node is now alone, the one-second timer is armed.\<close>

definition handle_broken_pred_socket :: "broken_handler \<Rightarrow> handler" where
  "handle_broken_pred_socket hbs st =
     (if connection_state st \<noteq> CONNECTED then Inr (leave_ring st)
      else (case pred_conn (reg st) of
              None \<Rightarrow> ub_null ''pred_conn''
            | Some p \<Rightarrow>
                err_bind (remove_neighbor_connection hbs (node_id_of p st) st) (\<lambda>st1.
                  let st2 = st1\<lparr>reg := (reg st1)\<lparr>pred_conn := None\<rparr>\<rparr> in
                  Inr (if nd_id (self st2) = nd_id (second_succ st2) then st2
                       else st2\<lparr>timeout_handler := Some Pred_timeout\<rparr>))))"

text \<open>\<^verbatim>\<open>handle_broken_socket(socket)\<close> without its recursion: the role
  handler, then the connection is closed and its node forgotten by the routing
  tables if no other connection to it is left.\<close>

definition handle_broken_socket_body :: "broken_handler \<Rightarrow> broken_handler" where
  "handle_broken_socket_body hbs s st =
     (let conn = find_connection_by_socket s (reg st) in
      err_bind
        (if conn = new_node_conn (reg st) then Inr (st\<lparr>reg := (reg st)\<lparr>new_node_conn := None\<rparr>\<rparr>)
         else if conn = pred_conn (reg st) then handle_broken_pred_socket hbs st
         else if conn = succ_conn (reg st) then handle_broken_succ_socket hbs st
         else (case conn of
                 None \<Rightarrow> ub_null ''conn''
               | Some c \<Rightarrow> if node_id_of c st = NO_NODE_ID
                           then Inl (Assertion_failed ''(conn->node_id != -1) for a chord connection at handle_broken_socket()'')
                           else Inr st))
        (\<lambda>st1. case conn of
                 None \<Rightarrow> ub_null ''conn''
               | Some c \<Rightarrow> remove_neighbor_connection hbs (node_id_of c st1) (close_st conn st1)))"

fun handle_broken_socket :: "nat \<Rightarrow> broken_handler" where
  "handle_broken_socket 0 s st = Inl Fuel_exhausted"
| "handle_broken_socket (Suc n) s st = handle_broken_socket_body (handle_broken_socket n) s st"

section \<open>Dispatch\<close>

text \<open>\<^verbatim>\<open>handle_message(socket, message)\<close>: the line goes to the handler of
  the role of its connection.\<close>

definition handle_message :: "broken_handler \<Rightarrow> int \<Rightarrow> string \<Rightarrow> handler" where
  "handle_message hbs s msg st =
     (let conn = find_connection_by_socket s (reg st) in
      if conn = new_node_conn (reg st) then handle_message_from_new_node hbs msg st
      else if conn = pred_conn (reg st) then handle_message_from_pred hbs msg st
      else if conn = succ_conn (reg st) then handle_message_from_succ hbs msg st
      else (case conn of
              None \<Rightarrow> ub_null ''conn''
            | Some c \<Rightarrow> if node_id_of c st = NO_NODE_ID
                        then Inl (Assertion_failed ''(conn->node_id != -1) for a chord connection at handle_message()'')
                        else any_or_warn hbs msg conn st))"

text \<open>\<^verbatim>\<open>pred_timeout()\<close>.\<close>

definition pred_timeout :: "node_state \<Rightarrow> node_state" where
  "pred_timeout st = leave_ring st"

end
