(* ===== verification/NodeServer.thy ===== *)
theory NodeServer
  imports RingIO
begin

text \<open>
  The directory client of \<^verbatim>\<open>src/node-server.c\<close>: the parser of a
  \<^verbatim>\<open>NODESLIST\<close> reply into the global \<^verbatim>\<open>node_arr\<close> and
  \<^verbatim>\<open>request_node_list\<close>, which sends \<^verbatim>\<open>NODES\<close>, waits one second for the
  reply and acts on it: an empty ring is joined at once, otherwise the user is
  asked to choose a successor (after an id collision is resolved) or a chord
  peer. The UDP datagrams are the logs and replies of the state.
\<close>

section \<open>Parsing the node list\<close>

text \<open>The filter of chord mode (line 63): a listed node is offered for a
  chord unless it is this node or a node it is connected to.\<close>

definition chord_candidate :: "node_id \<Rightarrow> registry \<Rightarrow> node_info \<Rightarrow> bool" where
  "chord_candidate self_id r n \<longleftrightarrow> self_id \<noteq> nd_id n \<and> find_connection_by_node_id (nd_id n) r = None"

text \<open>The test of line 63: outside chord mode every scanned node is kept.\<close>

definition kept_node :: "bool \<Rightarrow> node_id \<Rightarrow> registry \<Rightarrow> node_info \<Rightarrow> bool" where
  "kept_node chord_mode self_id r n \<longleftrightarrow> \<not> chord_mode \<or> chord_candidate self_id r n"

definition ub_node_arr_overflow :: error where
  "ub_node_arr_overflow = Undefined_behaviour ''node_arr.nodes written past MAX_NODES''"

text \<open>One line of the loop (lines 59--65): the line is scanned into
  \<^verbatim>\<open>node_arr.nodes[n]\<close>, a line with fewer than three fields ends the process,
  and the node is kept (\<open>n\<close> advances) unless chord mode filters it.\<close>

definition parse_node_entry :: "bool \<Rightarrow> node_id \<Rightarrow> registry \<Rightarrow> string \<Rightarrow> node_info list \<Rightarrow> error + node_info list" where
  "parse_node_entry chord_mode self_id r s acc =
     (case sscanf ''%hhd %15s %5s\<newline>'' s of
        [V_int i, V_str ip, V_str port] \<Rightarrow>
          (let node = \<lparr>nd_id = i, nd_ip = ip, nd_port = port\<rparr> in
           Inr (if kept_node chord_mode self_id r node then acc @ [node] else acc))
      | _ \<Rightarrow> Inl (Fatal ''Failed to parse node list.''))"

text \<open>The loop of \<^verbatim>\<open>parse_node_list\<close> over the lines after the header, \<open>s\<close>
  the rest of the reply from the current line on, \<open>acc\<close> the nodes kept so
  far. There is no check of \<open>n\<close> against \<^verbatim>\<open>MAX_NODES\<close>: scanning a line
  when sixteen nodes are kept writes past the array. The next line starts after
  the next newline (lines 68--70).\<close>

function parse_node_lines :: "bool \<Rightarrow> node_id \<Rightarrow> registry \<Rightarrow> string \<Rightarrow> node_info list \<Rightarrow> error + node_info list" where
  "parse_node_lines chord_mode self_id r s acc =
     (if s = [] then Inr acc
      else if MAX_NODES \<le> length acc
      then Inl ub_node_arr_overflow
      else err_bind (parse_node_entry chord_mode self_id r s acc)
             (\<lambda>acc'. parse_node_lines chord_mode self_id r (drop 1 (dropWhile (\<lambda>c. c \<noteq> NL) s)) acc'))"
  by pat_completeness auto
termination
  by (relation "measure (\<lambda>(_, _, _, s, _). length s)")
     (auto intro: length_skip_line_less [simplified])

declare parse_node_lines.simps [simp del]

text \<open>\<^verbatim>\<open>parse_node_list(message, length, chord_mode)\<close>: the header must end
  at byte 13 and the reply with a newline, else the process exits. A reply of
  at most 13 bytes makes the test read a byte that \<^verbatim>\<open>recvfrom\<close> did not
  write.\<close>

definition parse_node_list :: "string \<Rightarrow> bool \<Rightarrow> node_id \<Rightarrow> registry \<Rightarrow> error + node_info list" where
  "parse_node_list message chord_mode self_id r =
     (if length message \<le> 13 then Inl (Undefined_behaviour ''message[13] read past the received bytes'')
      else if message ! 13 \<noteq> NL then Inl (Fatal ''Malformed node list header.'')
      else if last message \<noteq> NL then Inl (Fatal ''Node list doesn't end with a line feed character.'')
      else parse_node_lines chord_mode self_id r (drop 14 message) [])"

text \<open>The smallest id in \<open>0..99\<close> that no listed node uses, \<open>100\<close> when all
  are taken (the value of \<^verbatim>\<open>new_id\<close> after its loop).\<close>

definition smallest_unused_id :: "node_info list \<Rightarrow> node_id" where
  "smallest_unused_id arr =
     (case first_index (\<lambda>k. int k \<notin> nd_id ` set arr) [0..<100] of Some k \<Rightarrow> int k | None \<Rightarrow> 100)"

section \<open>Requesting the node list\<close>

definition next_ns_reply :: "node_state \<Rightarrow> string option \<times> node_state" where
  "next_ns_reply st = (case ns_replies st of [] \<Rightarrow> (None, st) | r # rs \<Rightarrow> (r, st\<lparr>ns_replies := rs\<rparr>))"

text \<open>What \<^verbatim>\<open>request_node_list\<close> does with a parsed list when joining: an
  empty list makes this node the whole ring; otherwise a used id is replaced by
  the smallest unused one and the user is asked to choose. When all ids are
  used the state is set to \<^verbatim>\<open>DISCONNECTED\<close>, but the id is replaced anyway and
  the state is overwritten on the next line.\<close>

definition join_with_list :: "node_state \<Rightarrow> node_state" where
  "join_with_list st =
     (if node_arr st = []
      then on_join_end (st\<lparr>succ := self st, second_succ := self st, rt := init_routing (rt st)\<rparr>)
      else (let st1 = (if nd_id (self st) \<in> nd_id ` set (node_arr st)
                       then (let st2 = (if smallest_unused_id (node_arr st) \<ge> 100
                                        then st\<lparr>connection_state := DISCONNECTED\<rparr> else st)
                             in st2\<lparr>self := (self st2)\<lparr>nd_id := to_signed_char (smallest_unused_id (node_arr st))\<rparr>\<rparr>)
                       else st)
            in st1\<lparr>connection_state := AWAITING_USER_SELECTION, input_state := JOIN_NODE_SELECTION\<rparr>))"

text \<open>\<^verbatim>\<open>request_node_list(ring_id_str)\<close>. A timeout abandons the operation
  with \<^verbatim>\<open>leave_ring\<close>; a reply other than \<^verbatim>\<open>NODESLIST\<close> is ignored.\<close>

definition request_node_list :: "node_state \<Rightarrow> error + node_state" where
  "request_node_list st =
     (let st1 = st\<lparr>ns_sent := ns_sent st @ [''NODES '' @ ring_id_str st]\<rparr> in
      case next_ns_reply st1 of
        (None, st2) \<Rightarrow> Inr (leave_ring st2)
      | (Some reply, st2) \<Rightarrow>
          if take 10 reply \<noteq> ''NODESLIST '' then Inr st2
          else err_bind (parse_node_list reply (node_list_action st2 = CHORD_ACTION) (nd_id (self st2)) (reg st2))
                 (\<lambda>arr. let st3 = st2\<lparr>node_arr := arr\<rparr> in
                         if node_list_action st3 = JOIN_ACTION then Inr (join_with_list st3)
                         else if node_list_action st3 = CHORD_ACTION \<and> arr \<noteq> []
                         then Inr (st3\<lparr>input_state := CHORD_NODE_SELECTION\<rparr>)
                         else Inr st3))"

section \<open>The directory's reply\<close>

text \<open>A \<^verbatim>\<open>NODESLIST\<close> reply as the directory server writes it (the server
  is not part of the sources; the format is the protocol's): the header line,
  then one line \<open><id> <ip> <port>\<close> per node, ids with two digits. A node
  that can be listed has an id in \<open>0..99\<close> and address fields that fit the
  \<^verbatim>\<open>%15s\<close> and \<^verbatim>\<open>%5s\<close> of the parser.\<close>

definition node_line :: "node_info \<Rightarrow> string" where
  "node_line n = fmt_node_id (nd_id n) @ '' '' @ nd_ip n @ '' '' @ nd_port n @ ''\<newline>''"

definition nodeslist_msg :: "string \<Rightarrow> node_info list \<Rightarrow> string" where
  "nodeslist_msg ring ns = ''NODESLIST '' @ ring @ ''\<newline>'' @ concat (map node_line ns)"

definition node_ok :: "node_info \<Rightarrow> bool" where
  "node_ok n \<longleftrightarrow> 0 \<le> nd_id n \<and> nd_id n \<le> MAX_NODE_ID \<and> is_token 15 (nd_ip n) \<and> is_token 5 (nd_port n)"

section \<open>Lemmas: the parser on a printed list\<close>

text \<open>The loop on a concrete reply, one line at a time.\<close>

lemma parse_node_lines_eval:
  "parse_node_lines cm sid r [] acc = Inr acc"
  "s \<noteq> [] \<Longrightarrow> parse_node_lines cm sid r s acc =
     (if MAX_NODES \<le> length acc
      then Inl ub_node_arr_overflow
      else err_bind (parse_node_entry cm sid r s acc)
             (\<lambda>acc'. parse_node_lines cm sid r (drop 1 (dropWhile (\<lambda>c. c \<noteq> NL) s)) acc'))"
  by (subst parse_node_lines.simps, simp)+

lemma fmt_node_line:
  "parse_fmt ''%hhd %15s %5s\<newline>'' = [F_hhd, F_space, F_str 15, F_space, F_str 5, F_space]"
  by (simp add: is_space_def is_digit_def atoi_digits_def)

lemma starts_with_space_NL [simp]: "starts_with_space (NL # r)"
  by (simp add: starts_with_space_def is_space_def)

lemma scan_last_space: "scan [F_space] s k = []"
  by (simp add: Let_def)

lemma sscanf_node_line:
  assumes "node_ok n"
  shows "sscanf ''%hhd %15s %5s\<newline>'' (node_line n @ rest) = [V_int (nd_id n), V_str (nd_ip n), V_str (nd_port n)]"
proof -
  have a: "0 \<le> nd_id n" "nd_id n \<le> MAX_NODE_ID" "is_token 15 (nd_ip n)" "is_token 5 (nd_port n)"
    using assms by (simp_all add: node_ok_def)
  show ?thesis
    using a by (simp add: node_line_def sscanf_def fmt_node_line scan_token_simps scan_last_space
                     del: scan.simps(2,4,5) parse_fmt.simps)
qed

lemma is_space_NL: "is_space NL"
  by (simp add: is_space_def)

lemma token_no_NL: "is_token w s \<Longrightarrow> \<forall>c\<in>set s. c \<noteq> NL"
  using is_space_NL by (auto simp: is_token_def)

lemma digit_char_not_NL: "d < 10 \<Longrightarrow> digit_char d \<noteq> NL"
  using is_space_NL is_space_digit_char by metis

lemma fmt_node_id_no_NL: "0 \<le> n \<Longrightarrow> n \<le> MAX_NODE_ID \<Longrightarrow> \<forall>c\<in>set (fmt_node_id n). c \<noteq> NL"
proof -
  assume "0 \<le> n" "n \<le> MAX_NODE_ID"
  then have f: "fmt_node_id n = [digit_char (nat n div 10), digit_char (nat n mod 10)]"
    by (rule fmt_node_id_two_digits)
  have "nat n div 10 < 10" "nat n mod 10 < 10" using \<open>n \<le> MAX_NODE_ID\<close> by simp_all
  then show ?thesis by (simp add: f digit_char_not_NL)
qed

lemma skip_node_line:
  assumes "node_ok n"
  shows "drop (Suc 0) (dropWhile (\<lambda>c. c \<noteq> NL) (node_line n @ rest)) = rest"
proof -
  have a: "0 \<le> nd_id n" "nd_id n \<le> MAX_NODE_ID" "is_token 15 (nd_ip n)" "is_token 5 (nd_port n)"
    using assms by (simp_all add: node_ok_def)
  have "\<forall>c\<in>set (fmt_node_id (nd_id n)). c \<noteq> NL" "\<forall>c\<in>set (nd_ip n). c \<noteq> NL" "\<forall>c\<in>set (nd_port n). c \<noteq> NL"
    using fmt_node_id_no_NL [OF a(1,2)] token_no_NL [OF a(3)] token_no_NL [OF a(4)] by simp_all
  then show ?thesis by (simp add: node_line_def dropWhile_append2)
qed

lemma node_info_eta [simp]: "\<lparr>nd_id = nd_id n, nd_ip = nd_ip n, nd_port = nd_port n\<rparr> = n"
  by (cases n) simp

lemma node_line_ne [simp]: "node_line n \<noteq> []"
  by (simp add: node_line_def)

lemma parse_node_lines_printed:
  assumes "list_all node_ok ns" "length acc + length ns \<le> MAX_NODES"
  shows "parse_node_lines cm sid r (concat (map node_line ns)) acc =
           Inr (acc @ (if cm then filter (chord_candidate sid r) ns else ns))"
  using assms
proof (induction ns arbitrary: acc)
  case Nil
  then show ?case by (subst parse_node_lines.simps) simp
next
  case (Cons n ns)
  have ok: "node_ok n" using Cons.prems(1) by simp
  have lt: "\<not> MAX_NODES \<le> length acc" using Cons.prems(2) by simp
  have step: "parse_node_lines cm sid r (node_line n @ concat (map node_line ns)) acc =
                parse_node_lines cm sid r (concat (map node_line ns))
                  (if \<not> cm \<or> chord_candidate sid r n then acc @ [n] else acc)"
    by (subst parse_node_lines.simps)
       (simp add: lt sscanf_node_line [OF ok] skip_node_line [OF ok] parse_node_entry_def kept_node_def)
  have c: "concat (map node_line (n # ns)) = node_line n @ concat (map node_line ns)" by simp
  show ?case
  proof (cases "\<not> cm \<or> chord_candidate sid r n")
    case True
    have "parse_node_lines cm sid r (concat (map node_line ns)) (acc @ [n]) =
            Inr ((acc @ [n]) @ (if cm then filter (chord_candidate sid r) ns else ns))"
      using Cons.prems by (intro Cons.IH) auto
    then show ?thesis unfolding c step using True by simp
  next
    case False
    have "parse_node_lines cm sid r (concat (map node_line ns)) acc =
            Inr (acc @ (if cm then filter (chord_candidate sid r) ns else ns))"
      using Cons.prems by (intro Cons.IH) auto
    then show ?thesis unfolding c step using False by simp
  qed
qed

lemma node_lines_last: "ns \<noteq> [] \<Longrightarrow> last (concat (map node_line ns)) = NL"
proof (induction ns)
  case Nil
  then show ?case by simp
next
  case (Cons n ns)
  then show ?case by (cases ns) (simp_all add: node_line_def last_append)
qed

lemma nodeslist_msg_shape:
  assumes "length ring = 3"
  shows "13 < length (nodeslist_msg ring ns)" "nodeslist_msg ring ns ! 13 = NL"
    "last (nodeslist_msg ring ns) = NL" "drop 14 (nodeslist_msg ring ns) = concat (map node_line ns)"
proof -
  obtain a b c where r: "ring = [a, b, c]"
    using assms by (cases ring rule: rev_cases; cases "butlast ring" rule: rev_cases; auto simp: length_Suc_conv)
  show "13 < length (nodeslist_msg ring ns)" "nodeslist_msg ring ns ! 13 = NL"
       "drop 14 (nodeslist_msg ring ns) = concat (map node_line ns)"
    by (simp_all add: nodeslist_msg_def r)
  show "last (nodeslist_msg ring ns) = NL"
    by (cases "ns = []") (simp_all add: nodeslist_msg_def r last_append node_lines_last)
qed

lemma parse_node_lines_all:
  assumes "list_all node_ok ns" "length acc \<le> MAX_NODES"
  shows "parse_node_lines cm sid r (concat (map node_line ns)) acc =
           (if \<exists>k<length ns. MAX_NODES \<le> length acc + length (filter (kept_node cm sid r) (take k ns))
            then Inl ub_node_arr_overflow else Inr (acc @ filter (kept_node cm sid r) ns))"
  using assms
proof (induction ns arbitrary: acc)
  case Nil
  then show ?case by (subst parse_node_lines.simps) simp
next
  case (Cons n ns)
  have ok: "node_ok n" using Cons.prems(1) by simp
  show ?case
  proof (cases "MAX_NODES \<le> length acc")
    case True
    have "parse_node_lines cm sid r (node_line n @ concat (map node_line ns)) acc = Inl ub_node_arr_overflow"
      using True by (subst parse_node_lines.simps) (simp add: ub_node_arr_overflow_def)
    moreover have "\<exists>k<length (n # ns). MAX_NODES \<le> length acc + length (filter (kept_node cm sid r) (take k (n # ns)))"
      using True by (intro exI [of _ 0]) simp
    ultimately show ?thesis by simp
  next
    case False
    let ?acc = "if kept_node cm sid r n then acc @ [n] else acc"
    have step: "parse_node_lines cm sid r (node_line n @ concat (map node_line ns)) acc =
                  parse_node_lines cm sid r (concat (map node_line ns)) ?acc"
      by (subst parse_node_lines.simps)
         (simp add: False sscanf_node_line [OF ok] skip_node_line [OF ok] parse_node_entry_def kept_node_def)
    have IH: "parse_node_lines cm sid r (concat (map node_line ns)) ?acc =
                (if \<exists>k<length ns. MAX_NODES \<le> length ?acc + length (filter (kept_node cm sid r) (take k ns))
                 then Inl ub_node_arr_overflow else Inr (?acc @ filter (kept_node cm sid r) ns))"
      using Cons.prems False by (intro Cons.IH) auto
    have shift: "\<And>k. length ?acc + length (filter (kept_node cm sid r) (take k ns)) =
                   length acc + length (filter (kept_node cm sid r) (take (Suc k) (n # ns)))" by simp
    have "(\<exists>k<length (n # ns). MAX_NODES \<le> length acc + length (filter (kept_node cm sid r) (take k (n # ns)))) \<longleftrightarrow>
          (\<exists>k<length ns. MAX_NODES \<le> length ?acc + length (filter (kept_node cm sid r) (take k ns)))"
      using False by (simp only: shift length_Cons Ex_less_Suc2) simp
    then show ?thesis using step IH by simp
  qed
qed

lemma smallest_unused_id_spec:
  assumes "length arr < 100"
  shows "\<exists>k<100. smallest_unused_id arr = int k \<and> int k \<notin> nd_id ` set arr \<and> (\<forall>j<k. int j \<in> nd_id ` set arr)"
proof -
  let ?P = "\<lambda>k. int k \<notin> nd_id ` set arr"
  have "\<not> (\<forall>k\<in>set [0..<100]. \<not> ?P k)"
  proof
    assume "\<forall>k\<in>set [0..<100]. \<not> ?P k"
    then have "int ` {0..<100} \<subseteq> nd_id ` set arr" by auto
    then have "card (int ` {0..<100::nat}) \<le> card (nd_id ` set arr)" by (intro card_mono) auto
    also have "\<dots> \<le> length arr" using card_image_le card_length le_trans by blast
    finally show False using assms by (simp add: card_image)
  qed
  then obtain k where k: "first_index ?P [0..<100] = Some k" by (cases "first_index ?P [0..<100]") auto
  then have "k < 100" "?P k" "\<forall>j<k. \<not> ?P j" by (auto simp: first_index_Some_iff)
  then show ?thesis using k by (auto simp: smallest_unused_id_def)
qed

section \<open>Properties of the directory client\<close>

text \<open>Claim C14: the parser reads back every reply the directory can write
  with at most \<^verbatim>\<open>MAX_NODES\<close> nodes: outside chord mode the list as sent; in
  chord mode the nodes that are neither this node nor already connected, in
  order.\<close>

theorem parse_node_list_roundtrip:
  assumes "length ring = 3" "list_all node_ok ns" "length ns \<le> MAX_NODES"
  shows "parse_node_list (nodeslist_msg ring ns) cm sid r = Inr (if cm then filter (chord_candidate sid r) ns else ns)"
proof -
  note sh = nodeslist_msg_shape [OF assms(1), of ns]
  have "parse_node_lines cm sid r (concat (map node_line ns)) [] = Inr (if cm then filter (chord_candidate sid r) ns else ns)"
    using assms(2,3) parse_node_lines_printed [of ns "[]" cm sid r] by simp
  then show ?thesis using sh by (simp add: parse_node_list_def)
qed

text \<open>Claim C25: on a reply the directory writes (a three-character ring
  id, well-formed node lines), the parser keeps the lines that pass the
  chord-mode filter, and the reply is undefined behaviour (the
  \<^verbatim>\<open>sscanf\<close> into \<^verbatim>\<open>node_arr.nodes[16]\<close>) exactly when some line
  follows sixteen kept ones; outside chord mode, exactly when the reply lists
  more than \<^verbatim>\<open>MAX_NODES\<close> nodes.\<close>

theorem parse_node_list_overflow:
  assumes "length ring = 3" "list_all node_ok ns"
  shows "parse_node_list (nodeslist_msg ring ns) cm sid r =
           (if \<exists>k<length ns. MAX_NODES \<le> length (filter (kept_node cm sid r) (take k ns))
            then Inl ub_node_arr_overflow else Inr (filter (kept_node cm sid r) ns))"
proof -
  note sh = nodeslist_msg_shape [OF assms(1), of ns]
  show ?thesis using sh parse_node_lines_all [OF assms(2), of "[]" cm sid r]
    by (simp add: parse_node_list_def)
qed

text \<open>Claim C20: when the chosen id is already used in the ring, the node
  takes the smallest id in \<open>0..99\<close> that no listed node uses, and waits for
  the user to choose a successor. With at most \<^verbatim>\<open>MAX_NODES\<close> listed
  nodes such an id always exists, so the \<^verbatim>\<open>No available node IDs\<close> branch
  is never taken.\<close>

theorem join_with_list_fresh_id:
  assumes "node_arr st \<noteq> []" "length (node_arr st) \<le> MAX_NODES" "nd_id (self st) \<in> nd_id ` set (node_arr st)"
  shows "connection_state (join_with_list st) = AWAITING_USER_SELECTION \<and>
         input_state (join_with_list st) = JOIN_NODE_SELECTION \<and>
         0 \<le> nd_id (self (join_with_list st)) \<and> nd_id (self (join_with_list st)) \<le> MAX_NODE_ID \<and>
         nd_id (self (join_with_list st)) \<notin> nd_id ` set (node_arr st) \<and>
         (\<forall>k. 0 \<le> k \<and> k < nd_id (self (join_with_list st)) \<longrightarrow> k \<in> nd_id ` set (node_arr st))"
proof -
  obtain k where k: "k < 100" "smallest_unused_id (node_arr st) = int k"
      "int k \<notin> nd_id ` set (node_arr st)" "\<forall>j<k. int j \<in> nd_id ` set (node_arr st)"
    using smallest_unused_id_spec [of "node_arr st"] assms(2) by auto
  have s: "nd_id (self (join_with_list st)) = int k"
    using assms k(1,2) by (simp add: join_with_list_def Let_def)
  have "\<forall>i. 0 \<le> i \<and> i < int k \<longrightarrow> i \<in> nd_id ` set (node_arr st)"
  proof (intro allI impI)
    fix i :: int assume "0 \<le> i \<and> i < int k"
    then have "nat i < k" "int (nat i) = i" by auto
    then show "i \<in> nd_id ` set (node_arr st)" using k(4) by metis
  qed
  then show ?thesis using assms k(1,3) s by (simp add: join_with_list_def Let_def)
qed


theorem parse_node_list_roundtrip_witness:
  "parse_node_list (nodeslist_msg ''abc'' [\<lparr>nd_id = 1, nd_ip = ''10.0.0.1'', nd_port = ''58001''\<rparr>,
                                            \<lparr>nd_id = 2, nd_ip = ''10.0.0.2'', nd_port = ''58002''\<rparr>])
     True 1 (init_connections_array registry_static) =
   Inr [\<lparr>nd_id = 2, nd_ip = ''10.0.0.2'', nd_port = ''58002''\<rparr>]"
  using parse_node_list_roundtrip [of "''abc''" "[\<lparr>nd_id = 1, nd_ip = ''10.0.0.1'', nd_port = ''58001''\<rparr>,
                                            \<lparr>nd_id = 2, nd_ip = ''10.0.0.2'', nd_port = ''58002''\<rparr>]"
                                     True 1 "init_connections_array registry_static"]
  by (simp add: node_ok_def is_token_def is_space_def chord_candidate_def find_connection_by_node_id_def
                init_connections_array_def registry_static_def)

theorem parse_node_list_overflow_witness:
  "parse_node_list (nodeslist_msg ''abc'' (map (\<lambda>i. \<lparr>nd_id = int i, nd_ip = ''10.0.0.1'', nd_port = ''58001''\<rparr>) [0..<17]))
     False 1 registry_static = Inl ub_node_arr_overflow"
proof -
  define ns where "ns = map (\<lambda>i. \<lparr>nd_id = int i, nd_ip = ''10.0.0.1'', nd_port = ''58001''\<rparr>) [0..<17]"
  have ok: "list_all node_ok ns"
    by (simp add: ns_def node_ok_def is_token_def is_space_def list_all_iff)
  have ex: "\<exists>k<length ns. MAX_NODES \<le> length (filter (kept_node False 1 registry_static) (take k ns))"
    by (rule exI [of _ 16]) (simp add: ns_def kept_node_def)
  have "parse_node_list (nodeslist_msg ''abc'' ns) False 1 registry_static = Inl ub_node_arr_overflow"
    using parse_node_list_overflow [of "''abc''" ns False 1 registry_static] ok ex by simp
  then show ?thesis by (simp add: ns_def)
qed

theorem join_with_list_fresh_id_witness:
  "let st = (initial_state ''10.0.0.9'' ''58009'' {} [] [])\<lparr>node_arr :=
              [\<lparr>nd_id = 0, nd_ip = ''10.0.0.1'', nd_port = ''58001''\<rparr>, \<lparr>nd_id = 1, nd_ip = ''10.0.0.2'', nd_port = ''58002''\<rparr>]\<rparr>
   in connection_state (join_with_list st) = AWAITING_USER_SELECTION \<and>
      input_state (join_with_list st) = JOIN_NODE_SELECTION \<and>
      0 \<le> nd_id (self (join_with_list st)) \<and> nd_id (self (join_with_list st)) \<le> MAX_NODE_ID \<and>
      nd_id (self (join_with_list st)) \<notin> nd_id ` set (node_arr st) \<and>
      (\<forall>k. 0 \<le> k \<and> k < nd_id (self (join_with_list st)) \<longrightarrow> k \<in> nd_id ` set (node_arr st))"
  unfolding Let_def by (rule join_with_list_fresh_id) (simp_all add: initial_state_def)

end
