(* ===== verification/Commands.thy ===== *)
theory Commands
  imports RingHandlers NodeServer
begin

text \<open>
  The command interface of \<^verbatim>\<open>src/main.c\<close> (\<^verbatim>\<open>handle_user_input\<close>): the
  choice of a node from the last node list while a join or a chord waits for
  it, and the commands \<^verbatim>\<open>join\<close>, \<^verbatim>\<open>leave\<close>, \<^verbatim>\<open>direct join\<close>,
  \<^verbatim>\<open>chord\<close>, \<^verbatim>\<open>remove chord\<close>, \<^verbatim>\<open>exit\<close>, the three \<^verbatim>\<open>show\<close> commands
  (which only print, and fail only where the printing itself does) and
  \<^verbatim>\<open>message\<close>. Every \<^verbatim>\<open>sscanf\<close> assigns the values it converts, one by one,
  before the command checks how many there were; the model assigns them the
  same way.
\<close>

section \<open>Recognising a command\<close>

definition to_lower :: "char \<Rightarrow> char" where
  "to_lower c = (if (65::nat) \<le> of_char c \<and> of_char c \<le> (90::nat) then char_of (of_char c + (32::nat)) else c)"

text \<open>\<^verbatim>\<open>COMPARE_COMMAND(cmd_name)\<close> on the lower-cased input: the command name,
  followed by the end of the input or white space.\<close>

definition compare_command :: "string \<Rightarrow> string \<Rightarrow> bool" where
  "compare_command cmd input \<longleftrightarrow>
     (let lc = map to_lower input in
      take (length cmd) lc = cmd \<and> (length lc = length cmd \<or> is_space (lc ! length cmd)))"

definition is_command :: "string \<Rightarrow> string \<Rightarrow> string \<Rightarrow> bool" where
  "is_command long short input \<longleftrightarrow> compare_command long input \<or> compare_command short input"

section \<open>Choosing a node from the list\<close>

text \<open>Lines 44--78: the id typed while \<^verbatim>\<open>input_state\<close> is a selection. An
  unreadable id cancels a join but is \<open>-1\<close> for a chord; the chosen node is
  looked up in \<^verbatim>\<open>node_arr\<close>. A cancelled join returns to
  \<^verbatim>\<open>DISCONNECTED\<close>.\<close>

definition handle_selection :: "broken_handler \<Rightarrow> string \<Rightarrow> handler" where
  "handle_selection hbs input st =
     (let vs = sscanf ''%hhd'' input;
          i = (case vs of [V_int v] \<Rightarrow> v | _ \<Rightarrow> NO_NODE_ID);
          invalid = (\<lambda>st. Inr ((if input_state st = JOIN_NODE_SELECTION
                                 then st\<lparr>connection_state := DISCONNECTED\<rparr> else st)\<lparr>input_state := COMMAND\<rparr>))
      in if (case vs of [V_int _] \<Rightarrow> False | _ \<Rightarrow> True) \<and> input_state st = JOIN_NODE_SELECTION then invalid st
         else if input_state st = CHORD_NODE_SELECTION \<and>
                 (nd_id (self st) = i \<or> find_connection_by_node_id i (reg st) \<noteq> None) then invalid st
         else (case first_index (\<lambda>n. nd_id n = i) (node_arr st) of
                 None \<Rightarrow> invalid st
               | Some j \<Rightarrow>
                   err_bind (if input_state st = JOIN_NODE_SELECTION
                             then join_ring hbs (st\<lparr>succ := node_arr st ! j\<rparr>)
                             else create_outbound_chord hbs (node_arr st ! j) st)
                     (\<lambda>st'. Inr (st'\<lparr>input_state := COMMAND\<rparr>))))"

section \<open>The commands\<close>

text \<open>\<^verbatim>\<open>join <ring> <id>\<close>: the ring id and this node's id are assigned as
  read, whatever the state; the request is made only from
  \<^verbatim>\<open>DISCONNECTED\<close> and with a three-character ring id.\<close>

definition cmd_join :: "string \<Rightarrow> handler" where
  "cmd_join input st =
     (let vs = sscanf ''%*s %3s %hhd'' input;
          st1 = (case vs of V_str r # _ \<Rightarrow> st\<lparr>ring_id_str := r\<rparr> | _ \<Rightarrow> st);
          st2 = (case vs of [_, V_int i] \<Rightarrow> st1\<lparr>self := (self st1)\<lparr>nd_id := i\<rparr>\<rparr> | _ \<Rightarrow> st1)
      in if length vs \<noteq> 2 then Inr st2
         else if length (ring_id_str st2) \<noteq> 3 then Inr st2
         else if connection_state st2 \<noteq> DISCONNECTED then Inr st2
         else request_node_list (st2\<lparr>connection_state := AWAITING_NODE_LIST, node_list_action := JOIN_ACTION\<rparr>))"

text \<open>\<^verbatim>\<open>direct join <self-id> <succ-id> <ip> <port>\<close>: the four fields are
  assigned as read; with four of them the node either makes itself a one-node
  ring or joins through the given successor. There is no check of the current
  state.\<close>

definition cmd_direct_join :: "broken_handler \<Rightarrow> string \<Rightarrow> handler" where
  "cmd_direct_join hbs input st =
     (let vs = sscanf (if compare_command ''dj'' input then ''%*s %hhd %hhd %15s %5s''
                       else ''%*s %*s %hhd %hhd %15s %5s'') input;
          st1 = (case vs of V_int i # _ \<Rightarrow> st\<lparr>self := (self st)\<lparr>nd_id := i\<rparr>\<rparr> | _ \<Rightarrow> st);
          st2 = (case vs of _ # V_int i # _ \<Rightarrow> st1\<lparr>succ := (succ st1)\<lparr>nd_id := i\<rparr>\<rparr> | _ \<Rightarrow> st1);
          st3 = (case vs of _ # _ # V_str ip # _ \<Rightarrow> st2\<lparr>succ := (succ st2)\<lparr>nd_ip := ip\<rparr>\<rparr> | _ \<Rightarrow> st2);
          st4 = (case vs of [_, _, _, V_str port] \<Rightarrow> st3\<lparr>succ := (succ st3)\<lparr>nd_port := port\<rparr>\<rparr> | _ \<Rightarrow> st3)
      in if length vs \<noteq> 4 then Inr st4
         else if nd_id (succ st4) = nd_id (self st4)
         then Inr (st4\<lparr>ring_id_str := [], succ := self st4, second_succ := self st4,
                       connection_state := CONNECTED, awaiting_pred := False, awaiting_succ := False\<rparr>)
         else join_ring hbs (st4\<lparr>ring_id_str := []\<rparr>))"

definition cmd_chord :: "handler" where
  "cmd_chord st =
     (if connection_state st \<noteq> CONNECTED then Inr st
      else if outbound_chord_conn (reg st) \<noteq> None then Inr st
      else request_node_list (st\<lparr>node_list_action := CHORD_ACTION\<rparr>))"

text \<open>\<^verbatim>\<open>remove chord\<close>: the outbound chord is closed and its node forgotten
  by the routing tables if no other connection to it is left.\<close>

definition cmd_remove_chord :: "broken_handler \<Rightarrow> handler" where
  "cmd_remove_chord hbs st =
     (if connection_state st \<noteq> CONNECTED then Inr st
      else (case outbound_chord_conn (reg st) of
              None \<Rightarrow> Inr st
            | Some oc \<Rightarrow>
                (let i = node_id_of oc st; st1 = close_st (Some oc) st in
                 if find_connection_by_node_id i (reg st1) = None then remove_routing_neighbor_io hbs i st1
                 else Inr st1)))"

text \<open>\<^verbatim>\<open>show routing <id>\<close> prints every allocated neighbour's path; the
  printing fails on a stored path of hop count \<open>-1\<close>.\<close>

definition cmd_show_routing :: "string \<Rightarrow> handler" where
  "cmd_show_routing input st =
     (case sscanf (if compare_command ''sr'' input then ''%*s %hhd'' else ''%*s %*s %hhd'') input of
        [V_int rid] \<Rightarrow>
          if rid = nd_id (self st) then Inr st
          else err_bind (get_recipient_index rid False (rt st)) (\<lambda>(r, _).
                 if r = NO_NODE_INDEX then Inr st
                 else err_bind (first_error (map (\<lambda>n. if neighbor_ids (rt st) ! n \<noteq> NO_NODE_ID \<and>
                                                     hop_count (routing_table (rt st) ! nat r ! n) \<noteq> INVALID_PATH
                                                  then path_to_string (nd_id (self st)) rid (routing_table (rt st) ! nat r ! n)
                                                  else Inr []) [0..<MAX_NEIGHBORS])) (\<lambda>_. Inr st))
      | _ \<Rightarrow> Inr st)"

text \<open>\<^verbatim>\<open>show path <id>\<close> prints the chosen path. It reads
  \<^verbatim>\<open>routing_table[recipient][forwarding_table[recipient]]\<close> without checking
  the forwarding entry.\<close>

definition cmd_show_path :: "string \<Rightarrow> handler" where
  "cmd_show_path input st =
     (case sscanf (if compare_command ''sp'' input then ''%*s %hhd'' else ''%*s %*s %hhd'') input of
        [V_int rid] \<Rightarrow>
          err_bind (get_recipient_index rid False (rt st)) (\<lambda>(r, _).
            if r = NO_NODE_INDEX then Inr st
            else (let f = forwarding_table (rt st) ! nat r in
                  if f = NO_NODE_INDEX then Inl (Undefined_behaviour ''routing_table[recipient][-1] read in show path'')
                  else err_bind (path_to_string (nd_id (self st)) rid (routing_table (rt st) ! nat r ! nat f))
                         (\<lambda>_. Inr st)))
      | _ \<Rightarrow> Inr st)"

text \<open>\<^verbatim>\<open>message <id> <text>\<close>: shown locally when addressed to this node,
  forwarded otherwise.\<close>

definition cmd_message :: "broken_handler \<Rightarrow> string \<Rightarrow> handler" where
  "cmd_message hbs input st =
     (case sscanf ''%*s %hhd%n'' input of
        [V_int rid, V_pos p] \<Rightarrow>
          if p < length input \<and> input ! p = CHR '' ''
          then (let chat = drop (Suc p) input in
                if rid = nd_id (self st) then Inr (st\<lparr>delivered := delivered st @ [(nd_id (self st), chat)]\<rparr>)
                else err_bind (forward_message hbs (nd_id (self st)) rid chat st) (\<lambda>(_, st'). Inr st'))
          else Inr st
      | _ \<Rightarrow> Inr st)"

text \<open>\<^verbatim>\<open>handle_user_input(fd, input)\<close>.\<close>

definition handle_user_input :: "broken_handler \<Rightarrow> string \<Rightarrow> handler" where
  "handle_user_input hbs input st =
     (if input_state st = JOIN_NODE_SELECTION \<or> input_state st = CHORD_NODE_SELECTION
      then handle_selection hbs input st
      else if is_command ''join'' ''j'' input then cmd_join input st
      else if is_command ''leave'' ''l'' input
      then Inr (if connection_state st = DISCONNECTED then st else leave_ring st)
      else if is_command ''direct join'' ''dj'' input then cmd_direct_join hbs input st
      else if is_command ''chord'' ''c'' input then cmd_chord st
      else if is_command ''remove chord'' ''rc'' input then cmd_remove_chord hbs st
      else if is_command ''exit'' ''x'' input then Inr (st\<lparr>should_exit := True\<rparr>)
      else if is_command ''show topology'' ''st'' input then Inr st
      else if is_command ''show routing'' ''sr'' input then cmd_show_routing input st
      else if is_command ''show path'' ''sp'' input then cmd_show_path input st
      else if is_command ''message'' ''m'' input then cmd_message hbs input st
      else Inr st)"

section \<open>Command lines\<close>

text \<open>The lines a user types for a direct join and for a join, with the ids
  written as two digits.\<close>

definition dj_input :: "node_id \<Rightarrow> node_id \<Rightarrow> string \<Rightarrow> string \<Rightarrow> string" where
  "dj_input n m ip port = ''dj '' @ fmt_node_id n @ '' '' @ fmt_node_id m @ '' '' @ ip @ '' '' @ port"

definition join_input :: "string \<Rightarrow> node_id \<Rightarrow> string" where
  "join_input r n = ''join '' @ r @ '' '' @ fmt_node_id n"

section \<open>Lemmas: reading the command lines\<close>

lemma fmt_dj:
  "parse_fmt ''%*s %hhd %hhd %15s %5s'' = [F_skip_str, F_space, F_hhd, F_space, F_hhd, F_space, F_str 15, F_space, F_str 5]"
  by (simp add: is_space_def is_digit_def atoi_digits_def)

lemma fmt_join: "parse_fmt ''%*s %3s %hhd'' = [F_skip_str, F_space, F_str 3, F_space, F_hhd]"
  by (simp add: is_space_def is_digit_def atoi_digits_def)

lemma dj_input_commands:
  "\<not> is_command ''join'' ''j'' (dj_input n m ip port)"
  "\<not> is_command ''leave'' ''l'' (dj_input n m ip port)"
  "is_command ''direct join'' ''dj'' (dj_input n m ip port)"
  "compare_command ''dj'' (dj_input n m ip port)"
  by (simp_all add: dj_input_def is_command_def compare_command_def to_lower_def is_space_def)

lemma join_input_command: "is_command ''join'' ''j'' (join_input r n)"
  by (simp add: join_input_def is_command_def compare_command_def to_lower_def is_space_def)

lemma sscanf_dj_input:
  assumes "0 \<le> n" "n \<le> MAX_NODE_ID" "0 \<le> m" "m \<le> MAX_NODE_ID" "is_token 15 ip" "is_token 5 port"
  shows "sscanf ''%*s %hhd %hhd %15s %5s'' (dj_input n m ip port) = [V_int n, V_int m, V_str ip, V_str port]"
  using assms
  by (simp add: dj_input_def sscanf_def fmt_dj scan_token_simps is_space_def Let_def
           del: scan.simps(2,4,5) parse_fmt.simps)

lemma sscanf_join_input:
  assumes "is_token 3 r" "0 \<le> n" "n \<le> MAX_NODE_ID"
  shows "sscanf ''%*s %3s %hhd'' (join_input r n) = [V_str r, V_int n]"
  using assms
  by (simp add: join_input_def sscanf_def fmt_join scan_token_simps is_space_def Let_def
           del: scan.simps(2,4,5) parse_fmt.simps)

text \<open>The one-node ring of a direct join to oneself, in whatever state the
  node was.\<close>

lemma cmd_direct_join_alone:
  assumes "input_state st = COMMAND" "0 \<le> n" "n \<le> MAX_NODE_ID" "is_token 15 ip" "is_token 5 port"
  shows "handle_user_input hbs (dj_input n n ip port) st =
           Inr (st\<lparr>self := (self st)\<lparr>nd_id := n\<rparr>, succ := (self st)\<lparr>nd_id := n\<rparr>,
                   second_succ := (self st)\<lparr>nd_id := n\<rparr>, ring_id_str := [], connection_state := CONNECTED,
                   awaiting_pred := False, awaiting_succ := False\<rparr>)"
  using assms
  by (simp add: handle_user_input_def cmd_direct_join_def dj_input_commands sscanf_dj_input)

section \<open>Properties of the commands\<close>

text \<open>Claim C15: \<^verbatim>\<open>dj n n ip port\<close> makes the node a one-node ring: its id is
  \<open>n\<close>, its successor and second successor are itself, no ring id is kept (so
  it never registers), and it is \<^verbatim>\<open>CONNECTED\<close> at once. Nothing else
  changes: neither the connections nor the routing tables, which are not
  reset, whatever the state the node was in.\<close>

theorem direct_join_alone:
  assumes "input_state st = COMMAND" "0 \<le> n" "n \<le> MAX_NODE_ID" "is_token 15 ip" "is_token 5 port"
  shows "handle_user_input hbs (dj_input n n ip port) st =
           Inr (st\<lparr>self := (self st)\<lparr>nd_id := n\<rparr>, succ := (self st)\<lparr>nd_id := n\<rparr>,
                   second_succ := (self st)\<lparr>nd_id := n\<rparr>, ring_id_str := [], connection_state := CONNECTED,
                   awaiting_pred := False, awaiting_succ := False\<rparr>)"
  using assms by (rule cmd_direct_join_alone)

text \<open>Claim C21: a \<^verbatim>\<open>join\<close> command refused because the node is not
  \<^verbatim>\<open>DISCONNECTED\<close> still overwrites the ring id and this node's id: the
  \<^verbatim>\<open>sscanf\<close> of line 88 stores into the globals before the state check of
  line 97.\<close>

theorem refused_join_changes_ids:
  assumes "input_state st = COMMAND" "connection_state st \<noteq> DISCONNECTED"
    "is_token 3 r" "length r = 3" "0 \<le> n" "n \<le> MAX_NODE_ID"
  shows "handle_user_input hbs (join_input r n) st = Inr (st\<lparr>ring_id_str := r, self := (self st)\<lparr>nd_id := n\<rparr>\<rparr>)"
  using assms
  by (simp add: handle_user_input_def cmd_join_def join_input_command sscanf_join_input)

theorem direct_join_alone_witness:
  "handle_user_input (handle_broken_socket 1) (dj_input 10 10 ''127.0.0.1'' ''5000'') (initial_state ''127.0.0.1'' ''5000'' {} [] []) =
     Inr ((initial_state ''127.0.0.1'' ''5000'' {} [] [])\<lparr>
            self := (self (initial_state ''127.0.0.1'' ''5000'' {} [] []))\<lparr>nd_id := 10\<rparr>,
            succ := (self (initial_state ''127.0.0.1'' ''5000'' {} [] []))\<lparr>nd_id := 10\<rparr>,
            second_succ := (self (initial_state ''127.0.0.1'' ''5000'' {} [] []))\<lparr>nd_id := 10\<rparr>,
            ring_id_str := [], connection_state := CONNECTED, awaiting_pred := False, awaiting_succ := False\<rparr>)"
  by (rule direct_join_alone) (simp_all add: initial_state_def is_token_def is_space_def)

theorem refused_join_changes_ids_witness:
  "handle_user_input (handle_broken_socket 1) (join_input ''abc'' 7)
      ((initial_state ''127.0.0.1'' ''5000'' {} [] [])\<lparr>connection_state := CONNECTED\<rparr>) =
   Inr ((initial_state ''127.0.0.1'' ''5000'' {} [] [])\<lparr>connection_state := CONNECTED,
          ring_id_str := ''abc'', self := (self ((initial_state ''127.0.0.1'' ''5000'' {} [] [])\<lparr>connection_state := CONNECTED\<rparr>))\<lparr>nd_id := 7\<rparr>\<rparr>)"
  by (rule refused_join_changes_ids) (simp_all add: initial_state_def is_token_def is_space_def)

end
