(* ===== verification/EventLoop.thy ===== *)
theory EventLoop
  imports Commands
begin

text \<open>
  The event loop of \<^verbatim>\<open>main()\<close> (\<^verbatim>\<open>src/main.c\<close>). One \<^verbatim>\<open>select()\<close>
  wakeup services, in this order, the expired timer, standard input, the
  directory socket, the listening socket and every readable peer; the model
  takes each of these services as one event, a wakeup as the list of its
  events and a run as the list of its wakeups. The exit flag is tested at the
  top of each wakeup only; end of standard input leaves the loop at once
  (\<^verbatim>\<open>break\<close>), and a failed or refused \<^verbatim>\<open>accept()\<close> skips the rest of
  the wakeup (\<^verbatim>\<open>continue\<close>). The clock is abstract: \<open>Ev_timer\<close> is the
  wakeup at which the armed deadline has passed. The directory's
  \<^verbatim>\<open>OKREG\<close> and \<^verbatim>\<open>OKUNREG\<close> datagrams only print and are not events.
  The bound \<open>fuel\<close> on nested broken-socket handling is a parameter of every
  step.
\<close>

section \<open>Events\<close>

datatype event =
    Ev_timer                          \<comment> \<open>the armed deadline has passed\<close>
  | Ev_stdin read_outcome             \<comment> \<open>standard input is readable; what \<^verbatim>\<open>read()\<close> returns\<close>
  | Ev_accept int string              \<comment> \<open>\<^verbatim>\<open>accept()\<close> returns a socket and the peer address\<close>
  | Ev_peer nat read_outcome          \<comment> \<open>the connection in a slot is readable\<close>

fun run_lines :: "(string \<Rightarrow> handler) \<Rightarrow> string list \<Rightarrow> handler" where
  "run_lines h [] st = Inr st"
| "run_lines h (l # ls) st = err_bind (h l st) (run_lines h ls)"

text \<open>The buffer of a slot as \<^verbatim>\<open>read_lines\<close> sees it, and the buffer it
  leaves there.\<close>

definition conn_buffer :: "connection \<Rightarrow> line_buffer" where
  "conn_buffer c = \<lparr>buffer = buffer c, buffer_index = buffer_index c\<rparr>"

definition store_buffer :: "nat \<Rightarrow> line_buffer \<Rightarrow> node_state \<Rightarrow> node_state" where
  "store_buffer i lb st =
     st\<lparr>reg := (reg st)\<lparr>connections := (connections (reg st))[i :=
        (connections (reg st) ! i)\<lparr>buffer := buffer lb, buffer_index := buffer_index lb\<rparr>]\<rparr>\<rparr>"

text \<open>The expired timer: its handler runs, then the timer is disarmed.\<close>

definition timer_step :: "node_state \<Rightarrow> node_state" where
  "timer_step st =
     (case timeout_handler st of
        None \<Rightarrow> st
      | Some Pred_timeout \<Rightarrow> (pred_timeout st)\<lparr>timeout_handler := None\<rparr>)"

text \<open>Standard input: the lines are commands; end of input ends the loop.\<close>

definition stdin_step :: "nat \<Rightarrow> read_outcome \<Rightarrow> handler" where
  "stdin_step fuel r st =
     (case read_lines USER_COMMAND_BUF_SIZE r (stdin_buf st) of
        (res, lb, lines) \<Rightarrow>
          err_bind (run_lines (handle_user_input (handle_broken_socket fuel)) lines st) (\<lambda>st1.
            let st2 = st1\<lparr>stdin_buf := lb\<rparr> in
            if res = RL_END then Inr (st2\<lparr>should_exit := True\<rparr>)
            else if res = RL_ERROR then Inl (Fatal ''Couldn't read from stdin'')
            else Inr st2))"

text \<open>A new TCP connection: a failed \<^verbatim>\<open>accept()\<close> is only reported; the
  connection is refused unless the node is connecting or connected and no
  other new connection is pending; otherwise it becomes the new
  connection.\<close>

definition accept_step :: "int \<Rightarrow> string \<Rightarrow> handler" where
  "accept_step s ip st =
     (if s = -1 then Inr st
      else if connection_state st \<noteq> CONNECTING \<and> connection_state st \<noteq> CONNECTED then Inr st
      else if new_node_conn (reg st) \<noteq> None then Inr st
      else err_bind (add_connection s (reg st)) (\<lambda>(i, r).
             Inr (st\<lparr>reg := r\<lparr>connections := (connections r)[i := (connections r ! i)\<lparr>ip_addr := ip\<rparr>],
                                new_node_conn := Some i\<rparr>\<rparr>)))"

text \<open>A readable peer: the read and the scan run first, and each complete
  line is handled, in order; then the tail of \<^verbatim>\<open>read_lines\<close> reads the
  slot's index again (the handlers may have closed the slot or given it to
  another connection, which resets it) and moves the partial line to the
  buffer's start. End of stream, after the index is reset, and a read error
  are handled as a broken socket.\<close>

definition peer_step :: "nat \<Rightarrow> nat \<Rightarrow> read_outcome \<Rightarrow> handler" where
  "peer_step fuel i r st =
     (let s = sock_of i st in
      if s = -1 then Inr st
      else (case read_scan r (conn_buffer (connections (reg st) ! i)) of
              Scan_failed \<Rightarrow> handle_broken_socket fuel s st
            | Scan_end \<Rightarrow>
                handle_broken_socket fuel s (store_buffer i ((conn_buffer (connections (reg st) ! i))\<lparr>buffer_index := 0\<rparr>) st)
            | Scanned n start b lines \<Rightarrow>
                err_bind (run_lines (handle_message (handle_broken_socket fuel) s) lines st) (\<lambda>st1.
                  err_bind (read_finish MAX_NODE_MESSAGE_SIZE (buffer_index (connections (reg st1) ! i)) n start b)
                    (\<lambda>(res, lb). Inr (store_buffer i lb st1)))))"

definition step :: "nat \<Rightarrow> event \<Rightarrow> handler" where
  "step fuel ev st =
     (case ev of
        Ev_timer \<Rightarrow> Inr (timer_step st)
      | Ev_stdin r \<Rightarrow> stdin_step fuel r st
      | Ev_accept s ip \<Rightarrow> accept_step s ip st
      | Ev_peer i r \<Rightarrow> peer_step fuel i r st)"

text \<open>Whether an event ends its wakeup, judged on the state it is serviced
  in: end of standard input (\<^verbatim>\<open>break\<close>, lines 445--447) and an
  \<^verbatim>\<open>accept()\<close> that fails or is refused (\<^verbatim>\<open>continue\<close>, lines
  485--500).\<close>

definition ends_wakeup :: "event \<Rightarrow> node_state \<Rightarrow> bool" where
  "ends_wakeup ev st =
     (case ev of
        Ev_stdin r \<Rightarrow> r = Read_bytes []
      | Ev_accept s ip \<Rightarrow> s = -1 \<or> (connection_state st \<noteq> CONNECTING \<and> connection_state st \<noteq> CONNECTED) \<or>
                         new_node_conn (reg st) \<noteq> None
      | _ \<Rightarrow> False)"

text \<open>One wakeup: its events in order, up to one that ends it. The exit flag
  that a command sets is not tested here.\<close>

fun wakeup :: "nat \<Rightarrow> event list \<Rightarrow> handler" where
  "wakeup fuel [] st = Inr st"
| "wakeup fuel (ev # evs) st = err_bind (step fuel ev st) (\<lambda>st'. if ends_wakeup ev st then Inr st' else wakeup fuel evs st')"

text \<open>A run: the \<^verbatim>\<open>while (!should_exit)\<close> loop over the wakeups (line 395).
  End of standard input sets the flag in \<open>stdin_step\<close>, which stands for the
  \<^verbatim>\<open>break\<close>.\<close>

fun run :: "nat \<Rightarrow> event list list \<Rightarrow> handler" where
  "run fuel [] st = Inr st"
| "run fuel (w # ws) st = (if should_exit st then Inr st else err_bind (wakeup fuel w st) (run fuel ws))"

text \<open>\<^verbatim>\<open>main()\<close> after its set-up: the \<^verbatim>\<open>-x\<close> command, if given, is handled
  as a line of standard input, then the loop runs.\<close>

definition main_run :: "nat \<Rightarrow> string option \<Rightarrow> event list list \<Rightarrow> handler" where
  "main_run fuel cmd evs st =
     err_bind (case cmd of None \<Rightarrow> Inr st | Some c \<Rightarrow> handle_user_input (handle_broken_socket fuel) c st)
       (run fuel evs)"

section \<open>The timer outlives the operation that armed it\<close>

lemma leave_command:
  assumes "input_state st = COMMAND"
  shows "handle_user_input hbs ''leave'' st = Inr (if connection_state st = DISCONNECTED then st else leave_ring st)"
  using assms by (simp add: handle_user_input_def is_command_def compare_command_def to_lower_def is_space_def)

lemma leave_ring_keeps [simp]:
  "input_state (leave_ring st) = input_state st"
  "timeout_handler (leave_ring st) = timeout_handler st"
  "connection_state (leave_ring st) = DISCONNECTED"
  by (simp_all add: leave_ring_def Let_def)

lemma timer_step_pred_timeout:
  "timeout_handler st = Some Pred_timeout \<Longrightarrow>
   timer_step st = (leave_ring st)\<lparr>timeout_handler := None\<rparr>"
  by (simp add: timer_step_def pred_timeout_def)

text \<open>Claim C7: \<^verbatim>\<open>leave\<close> does not cancel the predecessor timer that a join
  armed. A node that leaves while waiting for its predecessor and then makes a
  one-node ring with \<^verbatim>\<open>dj\<close> is connected, but the stale timer fires and
  \<^verbatim>\<open>pred_timeout\<close> tears the new ring down.\<close>

theorem stale_timer_ends_new_ring:
  assumes "input_state st = COMMAND" "timeout_handler st = Some Pred_timeout"
    "0 \<le> n" "n \<le> MAX_NODE_ID" "is_token 15 ip" "is_token 5 port"
  shows "\<exists>st1 st2. handle_user_input hbs ''leave'' st = Inr st1 \<and> connection_state st1 = DISCONNECTED \<and>
                   handle_user_input hbs (dj_input n n ip port) st1 = Inr st2 \<and> connection_state st2 = CONNECTED \<and>
                   connection_state (timer_step st2) = DISCONNECTED"
proof -
  define st1 where "st1 = (if connection_state st = DISCONNECTED then st else leave_ring st)"
  have l: "handle_user_input hbs ''leave'' st = Inr st1" "connection_state st1 = DISCONNECTED"
    using assms(1) by (simp_all add: st1_def leave_command)
  have s1: "input_state st1 = COMMAND" "timeout_handler st1 = Some Pred_timeout"
    using assms(1,2) by (simp_all add: st1_def)
  define st2 where "st2 = st1\<lparr>self := (self st1)\<lparr>nd_id := n\<rparr>, succ := (self st1)\<lparr>nd_id := n\<rparr>,
                   second_succ := (self st1)\<lparr>nd_id := n\<rparr>, ring_id_str := [], connection_state := CONNECTED,
                   awaiting_pred := False, awaiting_succ := False\<rparr>"
  have d: "handle_user_input hbs (dj_input n n ip port) st1 = Inr st2"
    unfolding st2_def using s1(1) assms(3-6) by (rule cmd_direct_join_alone)
  have "timeout_handler st2 = Some Pred_timeout" using s1(2) by (simp add: st2_def)
  then have "connection_state (timer_step st2) = DISCONNECTED" by (simp add: timer_step_pred_timeout)
  moreover have "connection_state st2 = CONNECTED" by (simp add: st2_def)
  ultimately show ?thesis using l d by blast
qed

theorem stale_timer_ends_new_ring_witness:
  "\<exists>st1 st2. handle_user_input (handle_broken_socket 1) ''leave''
                 ((initial_state ''127.0.0.1'' ''5000'' {} [] [])\<lparr>connection_state := CONNECTING, timeout_handler := Some Pred_timeout\<rparr>) = Inr st1 \<and>
              connection_state st1 = DISCONNECTED \<and>
              handle_user_input (handle_broken_socket 1) (dj_input 10 10 ''127.0.0.1'' ''5000'') st1 = Inr st2 \<and>
              connection_state st2 = CONNECTED \<and> connection_state (timer_step st2) = DISCONNECTED"
  by (rule stale_timer_ends_new_ring) (simp_all add: initial_state_def is_token_def is_space_def)

end
