(* ===== verification/Timer.thy ===== *)
theory Timer
  imports EventLoop "HOL-Library.Signed_Division"
begin

text \<open>
  The single-shot timer of \<^verbatim>\<open>src/main.c\<close> with its clock arithmetic:
  \<^verbatim>\<open>set_timeout\<close> computes the deadline \<^verbatim>\<open>timeout_instant\<close> from a
  \<^verbatim>\<open>CLOCK_MONOTONIC\<close> reading, the loop derives the \<^verbatim>\<open>select()\<close> timeout
  from the deadline and a second reading, and after \<^verbatim>\<open>select()\<close> a third
  reading decides whether the handler runs. A clock reading is
  \<open>timespec option\<close>, \<open>None\<close> when \<^verbatim>\<open>clock_gettime\<close> fails. The
  \<^verbatim>\<open>time_t\<close> and \<^verbatim>\<open>long\<close> fields are integers: the clock values of a running
  system are far from the 64-bit bounds. C's \<^verbatim>\<open>/\<close> on \<^verbatim>\<open>long\<close> truncates
  towards zero, \<open>sdiv\<close> of \<^verbatim>\<open>HOL-Library.Signed_Division\<close>; the comparisons
  with the \<^verbatim>\<open>double\<close> constant \<^verbatim>\<open>1e9\<close> are exact at these magnitudes.
  The deadline is kept beside the node state (it is the global
  \<^verbatim>\<open>timeout_instant\<close>); the handler pointer is the \<open>timeout_handler\<close> field
  of \<open>node_state\<close>, which the event loop of \<open>EventLoop\<close> reads.
\<close>

section \<open>Clock values\<close>

record timespec =
  tv_sec :: int
  tv_nsec :: int

text \<open>\<^verbatim>\<open>struct timeval\<close>, the timeout handed to \<^verbatim>\<open>select()\<close>.\<close>

record timeval =
  tval_sec :: int
  tv_usec :: int

definition ns_of :: "timespec \<Rightarrow> int" where
  "ns_of t = tv_sec t * 1000000000 + tv_nsec t"

definition us_of :: "timeval \<Rightarrow> int" where
  "us_of t = tval_sec t * 1000000 + tv_usec t"

definition normalized :: "timespec \<Rightarrow> bool" where
  "normalized t \<longleftrightarrow> 0 \<le> tv_nsec t \<and> tv_nsec t < 1000000000"

section \<open>Arming, testing and waiting\<close>

text \<open>The deadline of \<^verbatim>\<open>set_timeout(ms, handler)\<close> from the clock reading
  \<open>now\<close> (lines 286--292).\<close>

definition arm_instant :: "int \<Rightarrow> timespec \<Rightarrow> timespec" where
  "arm_instant ms now =
     (let t = now\<lparr>tv_sec := tv_sec now + ms sdiv 1000, tv_nsec := tv_nsec now + ms * 1000000\<rparr> in
      if tv_nsec t > 1000000000 then t\<lparr>tv_sec := tv_sec t + 1, tv_nsec := tv_nsec t - 1000000000\<rparr> else t)"

text \<open>\<^verbatim>\<open>set_timeout(ms, handler)\<close>: a failed clock reading returns before
  anything is set; otherwise the deadline and the handler are replaced (a
  running timer only draws a warning).\<close>

definition set_timeout :: "int \<Rightarrow> timer \<Rightarrow> timespec option \<Rightarrow> timespec \<Rightarrow> node_state \<Rightarrow> timespec \<times> node_state" where
  "set_timeout ms h clk inst st =
     (case clk of
        None \<Rightarrow> (inst, st)
      | Some now \<Rightarrow> (arm_instant ms now, st\<lparr>timeout_handler := Some h\<rparr>))"

definition cancel_timeout :: "node_state \<Rightarrow> node_state" where
  "cancel_timeout st = (if timeout_handler st = None then st else st\<lparr>timeout_handler := None\<rparr>)"

text \<open>The test of lines 407 and 432: the reading is past the deadline.\<close>

definition deadline_passed :: "timespec \<Rightarrow> timespec \<Rightarrow> bool" where
  "deadline_passed now inst \<longleftrightarrow>
     tv_sec now > tv_sec inst \<or> (tv_sec now = tv_sec inst \<and> tv_nsec now > tv_nsec inst)"

text \<open>The time left, as lines 407--419 compute it.\<close>

definition wait_time :: "timespec \<Rightarrow> timespec \<Rightarrow> timeval" where
  "wait_time now inst =
     (if deadline_passed now inst then \<lparr>tval_sec = 0, tv_usec = 0\<rparr>
      else (let s = tv_sec inst - tv_sec now;
                u = (tv_nsec inst - tv_nsec now) sdiv 1000 + 1 in
            if u < 0 then \<lparr>tval_sec = s - 1, tv_usec = u + 1000000\<rparr> else \<lparr>tval_sec = s, tv_usec = u\<rparr>))"

text \<open>The timeout passed to \<^verbatim>\<open>select()\<close> (lines 400--424): NULL, that is
  no timeout, when no timer is armed or the clock cannot be read.\<close>

definition select_timeout :: "timespec option \<Rightarrow> timespec \<Rightarrow> node_state \<Rightarrow> timeval option" where
  "select_timeout clk inst st =
     (if timeout_handler st = None then None
      else (case clk of None \<Rightarrow> None | Some now \<Rightarrow> Some (wait_time now inst)))"

text \<open>After \<^verbatim>\<open>select()\<close> returns (lines 429--437): with a timer armed and
  a reading past the deadline, the handler runs and the timer is disarmed,
  which is \<open>timer_step\<close> of the event loop.\<close>

definition timer_wakeup :: "timespec option \<Rightarrow> timespec \<Rightarrow> node_state \<Rightarrow> node_state" where
  "timer_wakeup clk inst st =
     (if timeout_handler st = None then st
      else (case clk of
              None \<Rightarrow> st
            | Some now \<Rightarrow> if deadline_passed now inst then timer_step st else st))"

section \<open>Lemmas\<close>

lemma ns_of_arm_instant: "ns_of (arm_instant ms now) = ns_of now + ms * 1000000 + (ms sdiv 1000) * 1000000000"
  by (simp add: arm_instant_def ns_of_def Let_def algebra_simps)

lemma us_of_wait_time:
  "\<not> deadline_passed now inst \<Longrightarrow>
   us_of (wait_time now inst) = (tv_sec inst - tv_sec now) * 1000000 + ((tv_nsec inst - tv_nsec now) sdiv 1000 + 1)"
  by (simp add: wait_time_def us_of_def Let_def algebra_simps)

text \<open>The truncated quotient is within one divisor of the exact one.\<close>

lemma sdiv_1000_above: "d < 1000 * (d sdiv 1000 + 1)" for d :: int
proof -
  have "d = d sdiv 1000 * 1000 + d smod 1000" by (simp add: sdiv_mult_smod_eq)
  moreover have "d smod 1000 < 1000" using smod_int_range [of 1000 d] by simp
  ultimately show ?thesis by (simp add: algebra_simps)
qed

lemma wait_time_exceeds:
  "\<not> deadline_passed now inst \<Longrightarrow> ns_of inst < ns_of now + 1000 * us_of (wait_time now inst)"
  using sdiv_1000_above [of "tv_nsec inst - tv_nsec now"]
  by (simp add: us_of_wait_time ns_of_def algebra_simps)

text \<open>For normalised readings the test of the loop is the order of the
  instants; a deadline with a non-negative nanosecond field is passed by any
  normalised reading after it.\<close>

lemma deadline_passed_normalized:
  "normalized now \<Longrightarrow> normalized inst \<Longrightarrow> deadline_passed now inst \<longleftrightarrow> ns_of inst < ns_of now"
  by (auto simp: deadline_passed_def normalized_def ns_of_def)

lemma deadline_passed_after:
  assumes "normalized now" "0 \<le> tv_nsec inst" "ns_of inst < ns_of now"
  shows "deadline_passed now inst"
proof -
  have "\<not> tv_sec now < tv_sec inst"
  proof
    assume "tv_sec now < tv_sec inst"
    then have "(tv_sec now + 1) * 1000000000 \<le> tv_sec inst * 1000000000" by simp
    then show False using assms by (simp add: normalized_def ns_of_def algebra_simps)
  qed
  then show ?thesis using assms(3) by (auto simp: deadline_passed_def ns_of_def)
qed

lemma sdiv_1000_nonneg: "0 \<le> d \<Longrightarrow> d sdiv 1000 = d div 1000" for d :: int
  by (cases "d = 0") (simp_all add: signed_divide_int_eq_divide_int)

lemma sdiv_1000_neg: "d < 0 \<Longrightarrow> d sdiv 1000 = - ((- d) div 1000)" for d :: int
  by (simp add: signed_divide_int_def)

lemma deadline_passed_mono:
  assumes "normalized now" "normalized now'" "ns_of now \<le> ns_of now'" "deadline_passed now inst"
  shows "deadline_passed now' inst"
proof -
  have "tv_sec now < tv_sec now' \<or> (tv_sec now = tv_sec now' \<and> tv_nsec now \<le> tv_nsec now')"
  proof (rule ccontr)
    assume "\<not> ?thesis"
    then have "tv_sec now' < tv_sec now \<or> (tv_sec now = tv_sec now' \<and> tv_nsec now' < tv_nsec now)" by auto
    then show False
    proof
      assume "tv_sec now' < tv_sec now"
      then have "(tv_sec now' + 1) * 1000000000 \<le> tv_sec now * 1000000000" by simp
      then show False using assms(1-3) by (simp add: normalized_def ns_of_def algebra_simps)
    qed (use assms(3) in \<open>simp add: ns_of_def\<close>)
  qed
  then show ?thesis using assms(4) by (auto simp: deadline_passed_def)
qed

lemma arm_instant_nsec_nonneg: "normalized now \<Longrightarrow> 0 \<le> ms \<Longrightarrow> 0 \<le> tv_nsec (arm_instant ms now)"
  by (simp add: arm_instant_def Let_def normalized_def)

section \<open>The predecessor timer waits two seconds\<close>

text \<open>Claim C9: \<^verbatim>\<open>set_timeout(1000, pred_timeout)\<close>, the call of
  \<^verbatim>\<open>join_ring\<close> and of the predecessor-loss handler, arms a deadline two
  seconds after the clock reading, not the one second of the specification:
  the whole seconds of the delay are added to \<^verbatim>\<open>tv_sec\<close> and again, as
  nanoseconds, to \<^verbatim>\<open>tv_nsec\<close>. From a normalised reading the deadline is
  normalised exactly when the reading's nanoseconds are not zero (the carry
  test is \<^verbatim>\<open>> 1e9\<close>).\<close>

theorem pred_timer_two_seconds:
  "ns_of (fst (set_timeout 1000 h (Some now) inst st)) = ns_of now + 2000000000 \<and>
   timeout_handler (snd (set_timeout 1000 h (Some now) inst st)) = Some h \<and>
   (normalized now \<longrightarrow> normalized (fst (set_timeout 1000 h (Some now) inst st)) = (tv_nsec now \<noteq> 0))"
  by (auto simp: set_timeout_def ns_of_def arm_instant_def normalized_def Let_def)

theorem pred_timer_two_seconds_witness:
  "ns_of (fst (set_timeout 1000 Pred_timeout (Some \<lparr>tv_sec = 7, tv_nsec = 0\<rparr>) \<lparr>tv_sec = 0, tv_nsec = 0\<rparr> (initial_state ''10.0.0.1'' ''58001'' {} [] []))) = 9000000000 \<and>
   \<not> normalized (fst (set_timeout 1000 Pred_timeout (Some \<lparr>tv_sec = 7, tv_nsec = 0\<rparr>) \<lparr>tv_sec = 0, tv_nsec = 0\<rparr> (initial_state ''10.0.0.1'' ''58001'' {} [] [])))"
  using pred_timer_two_seconds [of Pred_timeout "\<lparr>tv_sec = 7, tv_nsec = 0\<rparr>" "\<lparr>tv_sec = 0, tv_nsec = 0\<rparr>" "initial_state ''10.0.0.1'' ''58001'' {} [] []"]
  by (simp add: ns_of_def normalized_def)

section \<open>The timeout handed to select()\<close>

text \<open>Claim C24: with normalised readings the \<^verbatim>\<open>select()\<close> timeout has
  non-negative fields and \<^verbatim>\<open>tv_usec\<close> at most one million; it is exactly one
  million, outside the range \<^verbatim>\<open>0..999999\<close> POSIX allows, when the deadline is
  in the last microsecond of a second after the reading's nanoseconds.\<close>

theorem select_timeout_bounds:
  assumes "select_timeout (Some now) inst st = Some tv" "normalized now" "normalized inst"
  shows "0 \<le> tval_sec tv \<and> 0 \<le> tv_usec tv \<and> tv_usec tv \<le> 1000000 \<and>
         (tv_usec tv = 1000000 \<longleftrightarrow> \<not> deadline_passed now inst \<and> 999999000 \<le> tv_nsec inst - tv_nsec now)"
proof -
  have tv: "tv = wait_time now inst" using assms(1) by (simp add: select_timeout_def split: if_splits)
  show ?thesis
  proof (cases "deadline_passed now inst")
    case True
    then show ?thesis by (simp add: tv wait_time_def)
  next
    case False
    define d where "d = tv_nsec inst - tv_nsec now"
    have sec: "tv_sec now \<le> tv_sec inst" "tv_sec now = tv_sec inst \<longrightarrow> 0 \<le> d"
      using False by (auto simp: deadline_passed_def d_def)
    have d: "- 1000000000 < d" "d < 1000000000" using assms(2,3) by (auto simp: normalized_def d_def)
    show ?thesis
    proof (cases "0 \<le> d")
      case True
      then have "tv = \<lparr>tval_sec = tv_sec inst - tv_sec now, tv_usec = d div 1000 + 1\<rparr>"
        by (simp add: tv wait_time_def False Let_def sdiv_1000_nonneg d_def [symmetric])
      then show ?thesis using True d sec False by (auto simp: d_def)
    next
      case neg: False
      then have u: "d sdiv 1000 = - ((- d) div 1000)" by (simp add: sdiv_1000_neg)
      have lt: "tv_sec now < tv_sec inst" using sec neg by auto
      have "(- d) div 1000 < 1000000" "0 \<le> (- d) div 1000" using d neg by simp_all
      then show ?thesis using neg lt d
        by (simp add: tv wait_time_def False Let_def u d_def [symmetric])
    qed
  qed
qed

theorem select_timeout_bounds_witness:
  "tv_usec (the (select_timeout (Some \<lparr>tv_sec = 5, tv_nsec = 0\<rparr>) \<lparr>tv_sec = 5, tv_nsec = 999999999\<rparr>
                  ((initial_state ''10.0.0.1'' ''58001'' {} [] [])\<lparr>timeout_handler := Some Pred_timeout\<rparr>))) = 1000000"
proof -
  let ?st = "(initial_state ''10.0.0.1'' ''58001'' {} [] [])\<lparr>timeout_handler := Some Pred_timeout\<rparr>"
  let ?now = "\<lparr>tv_sec = 5, tv_nsec = 0\<rparr>" and ?inst = "\<lparr>tv_sec = 5, tv_nsec = 999999999\<rparr>"
  have s: "select_timeout (Some ?now) ?inst ?st = Some (wait_time ?now ?inst)"
    by (simp add: select_timeout_def)
  have "tv_usec (wait_time ?now ?inst) = 1000000 \<longleftrightarrow> \<not> deadline_passed ?now ?inst \<and> 999999000 \<le> tv_nsec ?inst - tv_nsec ?now"
    using select_timeout_bounds [OF s] by (simp add: normalized_def)
  then show ?thesis by (simp add: s deadline_passed_def)
qed

section \<open>The armed timer fires\<close>

text \<open>Claim C12: a \<^verbatim>\<open>select()\<close> that sleeps its whole timeout is followed by
  the timer's handler: from a normalised reading and a deadline whose
  nanoseconds are not negative, any normalised reading at least the timeout
  later finds the deadline passed, so the wakeup runs the handler and
  disarms the timer. The extra microsecond of the timeout makes up for the
  truncating division.\<close>

theorem timer_fires_after_wait:
  assumes "select_timeout (Some now) inst st = Some tv" "normalized now" "normalized now'"
    "0 \<le> tv_nsec inst" "ns_of now + 1000 * us_of tv \<le> ns_of now'"
  shows "timer_wakeup (Some now') inst st = timer_step st"
proof -
  have h: "timeout_handler st \<noteq> None" and tv: "tv = wait_time now inst"
    using assms(1) by (simp_all add: select_timeout_def split: if_splits)
  have "deadline_passed now' inst"
  proof (cases "deadline_passed now inst")
    case True
    then have "us_of tv = 0" by (simp add: tv wait_time_def us_of_def)
    then show ?thesis using deadline_passed_mono [OF assms(2,3) _ True] assms(5) by simp
  next
    case False
    then have "ns_of inst < ns_of now'" using wait_time_exceeds [OF False] assms(5) tv by simp
    then show ?thesis using deadline_passed_after assms(3,4) by blast
  qed
  then show ?thesis using h by (auto simp: timer_wakeup_def)
qed

theorem timer_fires_after_wait_witness:
  "timer_wakeup (Some \<lparr>tv_sec = 9, tv_nsec = 1000\<rparr>) (arm_instant 1000 \<lparr>tv_sec = 5, tv_nsec = 0\<rparr>)
     ((initial_state ''10.0.0.1'' ''58001'' {} [] [])\<lparr>timeout_handler := Some Pred_timeout\<rparr>) =
   timer_step ((initial_state ''10.0.0.1'' ''58001'' {} [] [])\<lparr>timeout_handler := Some Pred_timeout\<rparr>)"
proof -
  let ?st = "(initial_state ''10.0.0.1'' ''58001'' {} [] [])\<lparr>timeout_handler := Some Pred_timeout\<rparr>"
  let ?now = "\<lparr>tv_sec = 6, tv_nsec = 0\<rparr>" and ?inst = "arm_instant 1000 \<lparr>tv_sec = 5, tv_nsec = 0\<rparr>"
  have i: "?inst = \<lparr>tv_sec = 6, tv_nsec = 1000000000\<rparr>" by (simp add: arm_instant_def)
  have s: "select_timeout (Some ?now) ?inst ?st = Some \<lparr>tval_sec = 0, tv_usec = 1000001\<rparr>"
    by (simp add: i select_timeout_def wait_time_def deadline_passed_def)
  show ?thesis
    by (rule timer_fires_after_wait [OF s]) (simp_all add: i normalized_def ns_of_def us_of_def)
qed

end
