(* ===== verification/BrokenLinks.thy ===== *)
theory BrokenLinks
  imports RingHandlers
begin

text \<open>
  What \<^verbatim>\<open>handle_broken_socket\<close> (\<^verbatim>\<open>src/ring.c\<close>) does when the writes it
  makes fail in turn. A write that fails calls the handler again, inside the
  first run: with \<open>handle_broken_socket n\<close>, a cascade deeper than \<open>n\<close> is the
  result \<open>Fuel_exhausted\<close>. The broken chord needs one level whatever the
  fuel; the broken successor, when a chord to the second successor exists,
  re-enters the handler on its own socket, because the announcement of the
  closed chord's routes is broadcast to every live connection while the broken
  successor's connection is still open.
\<close>

section \<open>Definitions\<close>

text \<open>A handler that fails at once: the innermost level of
  \<open>handle_broken_socket\<close> when the fuel is spent.\<close>

definition const_fail :: "error \<Rightarrow> broken_handler" where
  "const_fail e s st = Inl e"

text \<open>Some live connection's socket is broken: a write to it fails.\<close>

definition live_broken :: "node_state \<Rightarrow> bool" where
  "live_broken st \<longleftrightarrow> (\<exists>i<MAX_CONNECTIONS. sock_of i st \<noteq> -1 \<and> sock_of i st \<in> broken st)"

text \<open>A four-node ring 10, 20, 30, 40 seen from node 10: successor 20 on
  socket 5 (its peer gone), predecessor 40 on socket 6, an outbound chord to
  the second successor 30 on socket 7. The routes to 30 go through the chord
  (no hop) and through 20 (one hop).\<close>

definition w_rt :: routing where
  "w_rt =
     \<lparr>recipient_ids = 30 # replicate 14 NO_NODE_ID,
      neighbor_ids = [20, 30] @ replicate 13 NO_NODE_ID,
      routing_table = [[\<lparr>hop_count = 1, nodes = [20]\<rparr>, \<lparr>hop_count = 0, nodes = []\<rparr>] @ replicate 13 invalid_path],
      forwarding_table = [1]\<rparr>"

definition w_state :: node_state where
  "w_state = (initial_state ''10.0.0.1'' ''58010'' {5} [] [])\<lparr>
     connection_state := CONNECTED,
     self := \<lparr>nd_id = 10, nd_ip = ''10.0.0.1'', nd_port = ''58010''\<rparr>,
     succ := \<lparr>nd_id = 20, nd_ip = ''10.0.0.2'', nd_port = ''58020''\<rparr>,
     second_succ := \<lparr>nd_id = 30, nd_ip = ''10.0.0.3'', nd_port = ''58030''\<rparr>,
     reg := \<lparr>connections = [connection_static\<lparr>socket := 5, node_id := 20\<rparr>,
                            connection_static\<lparr>socket := 6, node_id := 40\<rparr>,
                            connection_static\<lparr>socket := 7, node_id := 30\<rparr>] @
                           replicate 15 (connection_static\<lparr>socket := -1\<rparr>),
             new_node_conn = None, pred_conn = Some 1, succ_conn = Some 0, outbound_chord_conn = Some 2,
             select_inputs = {5, 6, 7}\<rparr>,
     rt := w_rt\<rparr>"

section \<open>Lemmas: writes that fail\<close>

lemma broadcast_fails:
  assumes "\<exists>i\<in>set ixs. sock_of i st \<noteq> -1 \<and> sock_of i st \<in> broken st"
  shows "broadcast (const_fail e) m ixs st = Inl e"
  using assms
proof (induction ixs arbitrary: st)
  case Nil
  then show ?case by simp
next
  case (Cons i ixs)
  have b: "broken (st\<lparr>sent := x\<rparr>) = broken st" for x by simp
  show ?case
  proof (cases "sock_of i st \<noteq> -1 \<and> sock_of i st \<in> broken st")
    case True
    then show ?thesis by (simp add: conn_printf_def const_fail_def)
  next
    case False
    then have "\<exists>j\<in>set ixs. sock_of j st \<noteq> -1 \<and> sock_of j st \<in> broken st" using Cons.prems by auto
    then show ?thesis
      using False Cons.IH [of "st\<lparr>sent := sent st @ [written (sock_of i st) m]\<rparr>"] Cons.IH [of st]
      by (auto simp: conn_printf_def written_def)
  qed
qed

lemma live_broken_rt [simp]: "live_broken (st\<lparr>rt := x\<rparr>) = live_broken st"
  unfolding live_broken_def by simp

lemma announce_new_path_io_fails:
  "live_broken st \<Longrightarrow> announce_new_path_io (const_fail e) rid st =
     err_bind (announce_new_path (nd_id (self st)) rid (rt st)) (\<lambda>m. Inl e)"
  unfolding announce_new_path_io_def live_broken_def
  by (cases "announce_new_path (nd_id (self st)) rid (rt st)")
     (auto intro!: broadcast_fails)

lemma update_routing_and_announce_io_fails:
  "live_broken st \<Longrightarrow> update_routing_and_announce_io (const_fail e) nbr rid p st =
     err_bind (update_routing_given_new_path (nd_id (self st)) nbr rid p (rt st)) (\<lambda>(ch, rt').
       if ch then err_bind (announce_new_path (nd_id (self st)) rid rt') (\<lambda>m. Inl e) else Inr (st\<lparr>rt := rt'\<rparr>))"
  by (auto simp: update_routing_and_announce_io_def announce_new_path_io_fails err_bind_def split: sum.split prod.split)

lemma remove_neighbor_rows_io_fails:
  "live_broken st \<Longrightarrow> remove_neighbor_rows (nd_id (self st)) nbr rs (rt st) = Inr (rt', m # ms) \<Longrightarrow>
   remove_neighbor_rows_io (const_fail e) nbr rs st = Inl e"
proof (induction rs arbitrary: st ms m)
  case Nil
  then show ?case by simp
next
  case (Cons r rs)
  show ?case
  proof (cases "recipient_ids (rt st) ! r \<noteq> NO_NODE_ID")
    case False
    then show ?thesis using Cons by simp
  next
    case True
    obtain ch rt1 where u: "update_routing_given_new_path (nd_id (self st)) nbr (recipient_ids (rt st) ! r) None (rt st) = Inr (ch, rt1)"
      using Cons.prems(2) True
      by (auto simp: update_routing_and_announce_given_new_path_def err_bind_eq_Inr Let_def split: prod.splits)
    show ?thesis
    proof (cases ch)
      case True
      then show ?thesis using Cons.prems \<open>recipient_ids (rt st) ! r \<noteq> NO_NODE_ID\<close> u
        by (auto simp: update_routing_and_announce_io_fails update_routing_and_announce_given_new_path_def
                       err_bind_eq_Inr err_bind_def Let_def split: sum.splits)
    next
      case False
      have "remove_neighbor_rows (nd_id (self (st\<lparr>rt := rt1\<rparr>))) nbr rs (rt (st\<lparr>rt := rt1\<rparr>)) = Inr (rt', m # ms)"
        using Cons.prems(2) True False u
        by (simp add: update_routing_and_announce_given_new_path_def Let_def err_bind_def split: sum.splits)
      then have "remove_neighbor_rows_io (const_fail e) nbr rs (st\<lparr>rt := rt1\<rparr>) = Inl e"
        using Cons.IH Cons.prems(1) by simp
      then show ?thesis using True False u Cons.prems(1)
        by (simp add: update_routing_and_announce_io_fails Let_def)
    qed
  qed
qed

lemma remove_routing_neighbor_io_fails:
  assumes "live_broken st" "remove_routing_neighbor (nd_id (self st)) nbr (rt st) = Inr (rt', m # ms)"
  shows "remove_routing_neighbor_io (const_fail e) nbr st = Inl e"
proof -
  obtain a b r' where g: "get_neighbor_index nbr False (rt st) = Inr (a, b)" "a \<noteq> NO_NODE_INDEX"
    and r: "remove_neighbor_rows (nd_id (self st)) nbr [0..<MAX_RECIPIENTS] (rt st) = Inr (r', m # ms)"
    using assms(2) by (auto simp: remove_routing_neighbor_def err_bind_eq_Inr split: if_splits prod.splits)
  have "remove_neighbor_rows_io (const_fail e) nbr [0..<MAX_RECIPIENTS] st = Inl e"
    by (rule remove_neighbor_rows_io_fails [OF assms(1) r])
  then show ?thesis using g by (simp add: remove_routing_neighbor_io_def)
qed

lemma handle_broken_socket_0: "handle_broken_socket 0 = const_fail Fuel_exhausted"
  by (intro ext) (simp add: const_fail_def)

lemma close_connection_other:
  "c \<noteq> Some j \<Longrightarrow> connections (close_connection c r) ! j = connections r ! j"
  by (cases c) (auto simp: close_connection_def clear_roles_def)


lemma remove_neighbor_connection_any_handler:
  "healthy st \<Longrightarrow> remove_neighbor_connection hbs nid st = remove_neighbor_connection hbs' nid st"
  by (simp add: remove_neighbor_connection_def remove_routing_neighbor_io_ok)

lemma healthy_by_slots:
  assumes "length (connections (reg st)) = MAX_CONNECTIONS"
    "\<forall>x\<in>set (connections (reg st)). socket x \<noteq> -1 \<longrightarrow> socket x \<notin> broken st"
  shows "healthy st"
  using assms by (auto simp: healthy_def sock_of_def)

section \<open>Lemmas: the four-node ring\<close>

lemma remove_neighbor_rows_free:
  "\<forall>r\<in>set rs. recipient_ids t ! r = NO_NODE_ID \<Longrightarrow> remove_neighbor_rows s n rs t = Inr (t, [])"
  by (induction rs) auto

lemma w_neighbor_added: "get_neighbor_index 30 True w_rt = Inr (1, w_rt)"
  by code_simp
lemma w_recipient_added: "get_recipient_index 30 True w_rt = Inr (0, w_rt)"
  by code_simp
lemma w_neighbor_found: "get_neighbor_index 30 False w_rt = Inr (1, w_rt)"
  by code_simp
lemma w_update_changes: "update_slot 10 None (Suc 0) 0 w_rt = (True, snd (update_slot 10 None (Suc 0) 0 w_rt))"
  by code_simp
lemma w_announce: "announce_new_path 10 30 (snd (update_slot 10 None (Suc 0) 0 w_rt)) = Inr ''ROUTE 10 30 10-20-30\<newline>''"
  by code_simp
lemma w_update_ids: "recipient_ids (snd (update_slot 10 None (Suc 0) 0 w_rt)) = recipient_ids w_rt"
  by code_simp

lemma w_remove: "remove_routing_neighbor 10 30 w_rt =
   Inr ((snd (update_slot 10 None (Suc 0) 0 w_rt))\<lparr>neighbor_ids := (neighbor_ids (snd (update_slot 10 None (Suc 0) 0 w_rt)))[1 := NO_NODE_ID]\<rparr>,
        [''ROUTE 10 30 10-20-30\<newline>''])"
proof -
  have r0: "recipient_ids w_rt ! 0 = 30" by (simp add: w_rt_def)
  have u: "update_routing_given_new_path 10 30 30 None w_rt = Inr (True, snd (update_slot 10 None (Suc 0) 0 w_rt))"
    using w_update_changes by (simp add: update_routing_given_new_path_def w_neighbor_added w_recipient_added)
  have f: "\<forall>r\<in>set [Suc 0..<15]. recipient_ids (snd (update_slot 10 None (Suc 0) 0 w_rt)) ! r = NO_NODE_ID"
    unfolding w_update_ids by (auto simp: w_rt_def nth_Cons')
  have "[0..<15] = 0 # [Suc 0..<15]" by (simp add: upt_conv_Cons)
  then show ?thesis
    by (simp add: remove_routing_neighbor_def w_neighbor_found update_routing_and_announce_given_new_path_def u w_announce r0 Let_def
                  remove_neighbor_rows_free [OF f] del: upt_Suc upt_rec)
qed

section \<open>Re-entering the handler\<close>

text \<open>Claim C8: when the successor's socket is broken and an outbound chord
  to the second successor exists, \<^verbatim>\<open>handle_broken_socket\<close> runs again on
  the same socket before its first run ends: the chord is closed as
  degenerate, its neighbour's routes are withdrawn, and the resulting
  announcement is written to every live connection, the broken successor's
  included. With one level of nesting allowed the handling does not complete.\<close>

theorem succ_loss_reenters_handler:
  assumes state: "connection_state st = CONNECTED" "length (connections (reg st)) = MAX_CONNECTIONS" "nd_id (second_succ st) \<noteq> nd_id (self st)"
    "nd_id (second_succ st) \<noteq> NO_NODE_ID"
    and succ: "find_connection_by_socket s (reg st) = Some c" "succ_conn (reg st) = Some c"
      "new_node_conn (reg st) \<noteq> Some c" "s \<noteq> -1" "s \<in> broken st"
    and pred: "pred_conn (reg st) = Some p" "p \<noteq> c" "node_id_of p st \<noteq> NO_NODE_ID"
      "sock_of p st \<noteq> -1" "sock_of p st \<notin> broken st"
    and chord: "outbound_chord_conn (reg st) = Some k" "k \<noteq> c"
      "find_connection_by_node_id (nd_id (second_succ st)) (reg st) = Some k"
      "find_connection_by_node_id (nd_id (second_succ st)) (close_connection (Some k) (reg st)) = None"
    and routes: "remove_routing_neighbor (nd_id (self st)) (nd_id (second_succ st)) (rt st) = Inr (rt', m # ms)"
  shows "handle_broken_socket 1 s st = Inl Fuel_exhausted"
proof -
  have c: "c < MAX_CONNECTIONS" "sock_of c st = s"
    using first_index_SomeD [OF succ(1) [unfolded find_connection_by_socket_def]] state(2)
    by (simp_all add: sock_of_def)
  define st2 where "st2 = st\<lparr>awaiting_succ := True, succ := second_succ st,
                              sent := sent st @ [written (sock_of p st) (succ_line (second_succ st))]\<rparr>"
  define st3 where "st3 = close_st (Some k) st2"
  have lb: "live_broken st3"
    unfolding live_broken_def
  proof (intro exI conjI)
    show "c < MAX_CONNECTIONS" by (rule c(1))
    have "sock_of c st3 = s"
      using c(2) chord(2) by (simp add: st3_def st2_def close_st_def sock_of_def close_connection_other)
    then show "sock_of c st3 \<noteq> -1" "sock_of c st3 \<in> broken st3"
      using succ(4,5) by (simp_all add: st3_def st2_def close_st_def)
  qed
  have "remove_routing_neighbor_io (const_fail Fuel_exhausted) (nd_id (second_succ st)) st3 = Inl Fuel_exhausted"
    by (rule remove_routing_neighbor_io_fails [OF lb]) (simp add: st3_def st2_def close_st_def routes)
  then have "handle_broken_succ_socket (const_fail Fuel_exhausted) st = Inl Fuel_exhausted"
    using state pred chord unfolding st3_def st2_def sock_of_def node_id_of_def
    by (simp add: handle_broken_succ_socket_def then_if_ok_def conn_printf_def written_def Let_def
                  is_degenerate_chord_def remove_neighbor_connection_def close_st_def sock_of_def node_id_of_def)
  then show ?thesis
    using succ pred(1,2)
    by (simp add: handle_broken_socket_0 handle_broken_socket_body_def)
qed

text \<open>Claim C16: a broken chord (a connection in none of the new, predecessor
  and successor roles) is handled in one level: when no other live connection
  is broken, its node is forgotten by the routing tables and the
  announcements reach every other connection without a failed write, so the
  outcome is the same for every bound on the nesting.\<close>

theorem chord_loss_one_level:
  assumes "find_connection_by_socket s (reg st) = Some c" "new_node_conn (reg st) \<noteq> Some c"
    "pred_conn (reg st) \<noteq> Some c" "succ_conn (reg st) \<noteq> Some c" "node_id_of c st \<noteq> NO_NODE_ID"
    "healthy (close_st (Some c) st)"
  shows "handle_broken_socket (Suc n) s st = handle_broken_socket 1 s st"
proof -
  have "\<And>hbs. handle_broken_socket_body hbs s st = remove_neighbor_connection hbs (node_id_of c st) (close_st (Some c) st)"
    using assms(1-5) by (simp add: handle_broken_socket_body_def node_id_of_def close_st_def)
  then show ?thesis
    using remove_neighbor_connection_any_handler [OF assms(6)] by simp
qed

theorem succ_loss_reenters_handler_witness:
  "handle_broken_socket 1 5 w_state = Inl Fuel_exhausted"
proof -
  have rm: "remove_routing_neighbor (nd_id (self w_state)) (nd_id (second_succ w_state)) (rt w_state) =
    Inr ((snd (update_slot 10 None (Suc 0) 0 w_rt))\<lparr>neighbor_ids := (neighbor_ids (snd (update_slot 10 None (Suc 0) 0 w_rt)))[1 := NO_NODE_ID]\<rparr>,
         ''ROUTE 10 30 10-20-30\<newline>'' # [])"
    using w_remove by (simp add: w_state_def)
  show ?thesis
    by (rule succ_loss_reenters_handler [where c = 0 and p = 1 and k = 2, OF _ _ _ _ _ _ _ _ _ _ _ _ _ _ _ _ _ _ rm])
       (simp_all add: w_state_def initial_state_def find_connection_by_socket_def find_connection_by_node_id_def
                      sock_of_def node_id_of_def close_connection_def clear_roles_def connection_static_def)
qed

theorem chord_loss_one_level_witness:
  "handle_broken_socket (Suc 4) 7 (w_state\<lparr>broken := {7}\<rparr>) = handle_broken_socket 1 7 (w_state\<lparr>broken := {7}\<rparr>)"
proof (rule chord_loss_one_level [where c = 2])
  show "healthy (close_st (Some 2) (w_state\<lparr>broken := {7}\<rparr>))"
    by (rule healthy_by_slots)
       (simp_all add: w_state_def close_st_def close_connection_def clear_roles_def connection_static_def)
qed (simp_all add: w_state_def find_connection_by_socket_def node_id_of_def connection_static_def)

end
