(* ===== verification/WellFormed.thy ===== *)
theory WellFormed
  imports EventLoop
begin

text \<open>
  The well-typedness of the process state: the model keeps the C arrays as
  lists and the pointers into them as indices, and nothing in HOL stops an
  operation from changing a list's length or storing an index past the array.
  \<open>node_wf\<close> says that the state has the shape of the C globals: the
  connection array has its \<^verbatim>\<open>MAX_CONNECTIONS\<close> slots, every framing buffer
  its size with the index inside it, every role pointer is NULL or points
  into the array, the routing arrays have their declared dimensions, and the
  terminal buffer is a \<^verbatim>\<open>USER_COMMAND_BUF_SIZE\<close> array with its index inside.
  Every operation of the model keeps it, for any broken-socket handler that
  keeps it; the reachable states of the event loop are therefore
  well-formed, provided each \<^verbatim>\<open>read()\<close> respects its size argument.
\<close>

section \<open>The shape of the state\<close>

definition conn_wf :: "connection \<Rightarrow> bool" where
  "conn_wf c \<longleftrightarrow> length (buffer c) = MAX_NODE_MESSAGE_SIZE \<and> buffer_index c < MAX_NODE_MESSAGE_SIZE"

definition ptr_in :: "conn_ptr \<Rightarrow> bool" where
  "ptr_in p \<longleftrightarrow> (case p of None \<Rightarrow> True | Some i \<Rightarrow> i < MAX_CONNECTIONS)"

definition reg_wf :: "registry \<Rightarrow> bool" where
  "reg_wf r \<longleftrightarrow>
     length (connections r) = MAX_CONNECTIONS \<and> (\<forall>i<MAX_CONNECTIONS. conn_wf (connections r ! i)) \<and>
     ptr_in (new_node_conn r) \<and> ptr_in (pred_conn r) \<and> ptr_in (succ_conn r) \<and> ptr_in (outbound_chord_conn r)"

definition table_dims :: "routing \<Rightarrow> bool" where
  "table_dims t \<longleftrightarrow>
     length (recipient_ids t) = MAX_RECIPIENTS \<and> length (neighbor_ids t) = MAX_NEIGHBORS \<and>
     length (forwarding_table t) = MAX_RECIPIENTS \<and> length (routing_table t) = MAX_RECIPIENTS \<and>
     (\<forall>row\<in>set (routing_table t). length row = MAX_NEIGHBORS)"

definition stdin_wf :: "line_buffer \<Rightarrow> bool" where
  "stdin_wf lb \<longleftrightarrow> length (buffer lb) = USER_COMMAND_BUF_SIZE \<and> buffer_index lb < USER_COMMAND_BUF_SIZE"

definition node_wf :: "node_state \<Rightarrow> bool" where
  "node_wf st \<longleftrightarrow> reg_wf (reg st) \<and> table_dims (rt st) \<and> stdin_wf (stdin_buf st)"

text \<open>An operation keeps the shape; a broken-socket handler keeps it on every
  socket.\<close>

definition keeps_wf :: "handler \<Rightarrow> bool" where
  "keeps_wf h \<longleftrightarrow> (\<forall>st. node_wf st \<longrightarrow> res_ok node_wf (h st))"

definition hbs_wf :: "broken_handler \<Rightarrow> bool" where
  "hbs_wf hbs \<longleftrightarrow> (\<forall>s. keeps_wf (hbs s))"

text \<open>The contract of the environment for one event: \<^verbatim>\<open>read()\<close> returns at
  most the bytes it was asked for, and the loop only reads the slots of the
  connection array.\<close>

definition event_ok :: "node_state \<Rightarrow> event \<Rightarrow> bool" where
  "event_ok st ev \<longleftrightarrow>
     (case ev of
        Ev_stdin r \<Rightarrow> read_fits USER_COMMAND_BUF_SIZE r (stdin_buf st)
      | Ev_peer i r \<Rightarrow> i < MAX_CONNECTIONS \<and> read_fits MAX_NODE_MESSAGE_SIZE r (conn_buffer (connections (reg st) ! i))
      | _ \<Rightarrow> True)"

text \<open>The states \<^verbatim>\<open>main()\<close> reaches: the state before the loop, the
  state after the \<^verbatim>\<open>-x\<close> command, and every state a step of the loop
  leads to from a reachable state, under events that keep the contract (a
  step may follow a command that set the exit flag, in the same wakeup). The bound \<open>fuel\<close> on nested broken-socket
  handling is fixed for the run.\<close>

inductive reachable :: "nat \<Rightarrow> node_state \<Rightarrow> bool" for fuel :: nat where
  start: "reachable fuel (initial_state ip port brk plan replies)"
| x_command: "handle_user_input (handle_broken_socket fuel) c (initial_state ip port brk plan replies) = Inr st \<Longrightarrow>
     reachable fuel st"
| loop_step: "reachable fuel st \<Longrightarrow> event_ok st ev \<Longrightarrow> step fuel ev st = Inr st' \<Longrightarrow>
     reachable fuel st'"

section \<open>The registry\<close>

lemma reg_wf_close_connection [wf_steps]: "reg_wf r \<Longrightarrow> reg_wf (close_connection c r)"
  by (auto simp: reg_wf_def close_connection_def clear_roles_def ptr_in_def conn_wf_def nth_list_update_any
           split: option.splits)

lemma reg_wf_add_connection [wf_steps]:
  "reg_wf r \<Longrightarrow> res_ok (\<lambda>(i, r'). i < MAX_CONNECTIONS \<and> reg_wf r') (add_connection s r)"
  by (auto simp: add_connection_def reg_wf_def conn_wf_def nth_list_update_any Let_def split: option.splits)

lemma reg_wf_close_all [wf_steps]: "reg_wf r \<Longrightarrow> reg_wf (close_all r)"
proof -
  have "\<And>xs r. reg_wf r \<Longrightarrow> reg_wf (foldl (\<lambda>r i. close_connection (Some i) r) r xs)"
  proof -
    fix xs r show "reg_wf r \<Longrightarrow> reg_wf (foldl (\<lambda>r i. close_connection (Some i) r) r xs)"
      by (induction xs arbitrary: r) (simp_all add: reg_wf_close_connection)
  qed
  then show "reg_wf r \<Longrightarrow> reg_wf (close_all r)" by (simp add: close_all_def)
qed

lemma reg_wf_set_conn [wf_steps]:
  "reg_wf r \<Longrightarrow> conn_wf c \<Longrightarrow> reg_wf (r\<lparr>connections := (connections r)[i := c]\<rparr>)"
  by (simp add: reg_wf_def nth_list_update_any)

lemma conn_wf_fields [simp]:
  "conn_wf (c\<lparr>node_id := n\<rparr>) = conn_wf c" "conn_wf (c\<lparr>ip_addr := a\<rparr>) = conn_wf c"
  "conn_wf (c\<lparr>tcp_port := p\<rparr>) = conn_wf c" "conn_wf (c\<lparr>socket := s\<rparr>) = conn_wf c"
  by (simp_all add: conn_wf_def)

lemma reg_wf_conn: "reg_wf r \<Longrightarrow> i < MAX_CONNECTIONS \<Longrightarrow> conn_wf (connections r ! i)"
  by (simp add: reg_wf_def)

section \<open>The routing arrays\<close>

lemma table_dims_init_routing [wf_steps]: "table_dims t \<Longrightarrow> table_dims (init_routing t)"
  by (simp add: table_dims_def init_routing_def)

lemma table_dims_get_neighbor_index [wf_steps]:
  "table_dims t \<Longrightarrow> res_ok (\<lambda>(n, t'). table_dims t') (get_neighbor_index nid add t)"
  by (auto simp: table_dims_def get_neighbor_index_def split: option.splits)

lemma table_dims_get_recipient_index [wf_steps]:
  "table_dims t \<Longrightarrow> res_ok (\<lambda>(r, t'). table_dims t') (get_recipient_index rid add t)"
  by (auto simp: table_dims_def get_recipient_index_def dest!: set_update_subset_insert [THEN subsetD] split: option.splits)

lemma table_dims_update_slot [wf_steps]:
  "table_dims t \<Longrightarrow> table_dims (snd (update_slot self_id p n r t))"
proof (cases "r < length (routing_table t)")
  case True
  then have "length (routing_table t ! r) = MAX_NEIGHBORS" if "table_dims t" using that by (simp add: table_dims_def)
  then show "table_dims t \<Longrightarrow> ?thesis" using True
    by (auto simp: table_dims_def update_slot_def Let_def dest!: set_update_subset_insert [THEN subsetD])
qed (auto simp: table_dims_def update_slot_def Let_def list_update_beyond)

lemma table_dims_update_routing [wf_steps]:
  "table_dims t \<Longrightarrow> res_ok (\<lambda>(b, t'). table_dims t') (update_routing_given_new_path self_id nid rid p t)"
  unfolding update_routing_given_new_path_def
  by (auto intro!: res_ok_bind table_dims_get_neighbor_index table_dims_get_recipient_index
           table_dims_update_slot simp: prod.case_eq_if)

section \<open>Writes, announcements and connection set-up\<close>

lemma res_ok_bind_wf [wf_steps]:
  "res_ok node_wf m \<Longrightarrow> (\<And>a. node_wf a \<Longrightarrow> res_ok Q (f a)) \<Longrightarrow> res_ok Q (err_bind m f)"
  by (rule res_ok_bind)

lemma res_ok_bind_wf2 [wf_steps]:
  "res_ok (\<lambda>(b, a). node_wf a) m \<Longrightarrow> (\<And>b a. node_wf a \<Longrightarrow> res_ok Q (f (b, a))) \<Longrightarrow> res_ok Q (err_bind m f)"
  by (cases m) auto

lemma res_ok_bind_any:
  "(\<And>a. res_ok Q (f a)) \<Longrightarrow> res_ok Q (err_bind m f)"
  by (cases m) auto

lemma hbs_wfD: "hbs_wf hbs \<Longrightarrow> node_wf st \<Longrightarrow> res_ok node_wf (hbs s st)"
  by (simp add: hbs_wf_def keeps_wf_def)

lemma conn_printf_wf [wf_steps]:
  "hbs_wf hbs \<Longrightarrow> node_wf st \<Longrightarrow> res_ok (\<lambda>(b, a). node_wf a) (conn_printf hbs s m st)"
  unfolding conn_printf_def
  by (auto intro!: res_ok_bind_wf hbs_wfD simp: node_wf_def)

lemma then_if_ok_wf [wf_steps]:
  "res_ok (\<lambda>(b, a). node_wf a) (w st) \<Longrightarrow> (\<And>a. node_wf a \<Longrightarrow> res_ok node_wf (k a)) \<Longrightarrow>
   res_ok node_wf (then_if_ok w k st)"
  unfolding then_if_ok_def by (auto intro!: res_ok_bind_wf2)

lemma broadcast_wf [wf_steps]:
  "hbs_wf hbs \<Longrightarrow> node_wf st \<Longrightarrow> res_ok node_wf (broadcast hbs m ixs st)"
  by (induction ixs arbitrary: st) (auto intro!: res_ok_bind_wf2 conn_printf_wf)

lemma send_route_lines_wf [wf_steps]:
  "hbs_wf hbs \<Longrightarrow> node_wf st \<Longrightarrow> res_ok (\<lambda>(b, a). node_wf a) (send_route_lines hbs c rs st)"
proof (induction rs arbitrary: st)
  case Nil
  then show ?case by simp
next
  case (Cons r rs)
  have step: "res_ok (\<lambda>(b, a). node_wf a) (err_bind (conn_printf hbs (sock_of c st) m st) (\<lambda>(ok, st').
          if ok then send_route_lines hbs c rs st' else Inr (False, st')))" for m
    using Cons by (auto intro!: res_ok_bind_wf2 conn_printf_wf)
  show ?case using Cons by (simp add: Let_def) (intro conjI impI; rule res_ok_bind_any; rule step)
qed

lemma send_shortest_paths_wf [wf_steps]:
  "hbs_wf hbs \<Longrightarrow> node_wf st \<Longrightarrow> res_ok (\<lambda>(b, a). node_wf a) (send_shortest_paths hbs c st)"
  unfolding send_shortest_paths_def Let_def
  by (auto intro!: res_ok_bind_wf2 conn_printf_wf send_route_lines_wf)

lemma announce_new_path_io_wf [wf_steps]:
  "hbs_wf hbs \<Longrightarrow> node_wf st \<Longrightarrow> res_ok node_wf (announce_new_path_io hbs rid st)"
  unfolding announce_new_path_io_def by (auto intro!: res_ok_bind_any broadcast_wf)

lemma update_routing_and_announce_io_wf [wf_steps]:
  assumes "hbs_wf hbs" "node_wf st"
  shows "res_ok node_wf (update_routing_and_announce_io hbs nid rid p st)"
proof -
  have "res_ok (\<lambda>(b, t'). table_dims t') (update_routing_given_new_path (nd_id (self st)) nid rid p (rt st))"
    using assms(2) by (simp add: node_wf_def table_dims_update_routing)
  then show ?thesis using assms unfolding update_routing_and_announce_io_def
    by (auto intro!: res_ok_bind announce_new_path_io_wf simp: node_wf_def)
qed

lemma remove_neighbor_rows_io_wf [wf_steps]:
  "hbs_wf hbs \<Longrightarrow> node_wf st \<Longrightarrow> res_ok node_wf (remove_neighbor_rows_io hbs nid rs st)"
  by (induction rs arbitrary: st) (auto simp: Let_def intro!: res_ok_bind_wf update_routing_and_announce_io_wf)

lemma remove_routing_neighbor_io_wf [wf_steps]:
  "hbs_wf hbs \<Longrightarrow> node_wf st \<Longrightarrow> res_ok node_wf (remove_routing_neighbor_io hbs nid st)"
  unfolding remove_routing_neighbor_io_def
  by (rule res_ok_bind_any) (auto intro!: res_ok_bind_wf remove_neighbor_rows_io_wf simp: node_wf_def table_dims_def)

lemma remove_neighbor_connection_wf [wf_steps]:
  "hbs_wf hbs \<Longrightarrow> node_wf st \<Longrightarrow> res_ok node_wf (remove_neighbor_connection hbs nid st)"
  unfolding remove_neighbor_connection_def by (auto intro: remove_routing_neighbor_io_wf)

lemma forward_message_wf [wf_steps]:
  "hbs_wf hbs \<Longrightarrow> node_wf st \<Longrightarrow> res_ok (\<lambda>(b, a). node_wf a) (forward_message hbs sid rid m st)"
  unfolding forward_message_def Let_def
  by (rule res_ok_bind_any) (auto intro!: conn_printf_wf split: option.splits)

lemma add_connection_set_wf:
  "reg_wf r \<Longrightarrow>
   res_ok (\<lambda>(i, r1). i < MAX_CONNECTIONS \<and>
             reg_wf (r1\<lparr>connections := (connections r1)[i := (connections r1 ! i)\<lparr>node_id := a, ip_addr := b, tcp_port := c\<rparr>]\<rparr>))
     (add_connection s r)"
  by (auto simp: add_connection_def reg_wf_def conn_wf_def nth_list_update_any Let_def split: option.splits)

lemma connect_to_node_wf [wf_steps]:
  assumes "node_wf st"
  shows "res_ok (\<lambda>(c, a). ptr_in c \<and> node_wf a) (connect_to_node n st)"
proof -
  have add: "res_ok (\<lambda>(c, a). ptr_in c \<and> node_wf a)
          (err_bind (add_connection s (reg st)) (\<lambda>(i, reg1).
             Inr (f i, st\<lparr>connects := cs, reg := reg1\<lparr>connections := (connections reg1)[i :=
                   (connections reg1 ! i)\<lparr>node_id := nd_id n, ip_addr := nd_ip n, tcp_port := nd_port n\<rparr>]\<rparr>\<rparr>)))"
    if "\<And>i. i < MAX_CONNECTIONS \<Longrightarrow> ptr_in (f i)" for s f cs
    using assms that
    by (auto intro!: res_ok_bind [OF add_connection_set_wf] simp: node_wf_def)
  show ?thesis using assms add [of "\<lambda>i. None"] add [of "\<lambda>i. Some i"]
    by (auto simp: connect_to_node_def next_connect_def ptr_in_def node_wf_def
             split: list.splits connect_outcome.splits)
qed

lemma res_ok_bind_conn [wf_steps]:
  "res_ok (\<lambda>(c, a). ptr_in c \<and> node_wf a) m \<Longrightarrow> (\<And>c a. ptr_in c \<Longrightarrow> node_wf a \<Longrightarrow> res_ok Q (f (c, a))) \<Longrightarrow>
   res_ok Q (err_bind m f)"
  by (cases m) auto

lemma node_wf_fields [simp]:
  "node_wf (st\<lparr>connection_state := a\<rparr>) = node_wf st" "node_wf (st\<lparr>self := n\<rparr>) = node_wf st"
  "node_wf (st\<lparr>succ := n\<rparr>) = node_wf st" "node_wf (st\<lparr>second_succ := n\<rparr>) = node_wf st"
  "node_wf (st\<lparr>awaiting_succ := b\<rparr>) = node_wf st" "node_wf (st\<lparr>awaiting_pred := b\<rparr>) = node_wf st"
  "node_wf (st\<lparr>ring_id_str := r\<rparr>) = node_wf st" "node_wf (st\<lparr>timeout_handler := t\<rparr>) = node_wf st"
  "node_wf (st\<lparr>input_state := i\<rparr>) = node_wf st" "node_wf (st\<lparr>should_exit := b\<rparr>) = node_wf st"
  "node_wf (st\<lparr>node_arr := ns\<rparr>) = node_wf st" "node_wf (st\<lparr>node_list_action := l\<rparr>) = node_wf st"
  "node_wf (st\<lparr>sent := ws\<rparr>) = node_wf st" "node_wf (st\<lparr>ns_sent := ms\<rparr>) = node_wf st"
  "node_wf (st\<lparr>delivered := ds\<rparr>) = node_wf st" "node_wf (st\<lparr>broken := bs\<rparr>) = node_wf st"
  "node_wf (st\<lparr>connects := cs\<rparr>) = node_wf st" "node_wf (st\<lparr>ns_replies := rs\<rparr>) = node_wf st"
  by (simp_all add: node_wf_def)

lemma node_wf_leave_ring [wf_steps]: "node_wf st \<Longrightarrow> node_wf (leave_ring st)"
  by (simp add: leave_ring_def Let_def node_wf_def reg_wf_close_all)

lemma node_wf_on_join_end [wf_steps]: "node_wf st \<Longrightarrow> node_wf (on_join_end st)"
  by (simp add: on_join_end_def Let_def node_wf_def)

lemma node_wf_set_reg_succ [wf_steps]: "node_wf st \<Longrightarrow> ptr_in c \<Longrightarrow> node_wf (set_reg_succ c st)"
  by (simp add: set_reg_succ_def node_wf_def reg_wf_def)

lemma node_wf_set_roles [wf_steps]:
  "node_wf st \<Longrightarrow> ptr_in c \<Longrightarrow> node_wf (st\<lparr>reg := (reg st)\<lparr>outbound_chord_conn := c\<rparr>\<rparr>)"
  "node_wf st \<Longrightarrow> ptr_in c \<Longrightarrow> node_wf (st\<lparr>reg := (reg st)\<lparr>new_node_conn := c\<rparr>\<rparr>)"
  "node_wf st \<Longrightarrow> ptr_in c \<Longrightarrow> node_wf (st\<lparr>reg := (reg st)\<lparr>pred_conn := c\<rparr>\<rparr>)"
  "node_wf st \<Longrightarrow> ptr_in c \<Longrightarrow> ptr_in d \<Longrightarrow> node_wf (st\<lparr>reg := (reg st)\<lparr>pred_conn := c, new_node_conn := d\<rparr>\<rparr>)"
  by (simp_all add: node_wf_def reg_wf_def)

lemma ptr_in_None [simp]: "ptr_in None"
  by (simp add: ptr_in_def)

lemma join_ring_wf [wf_steps]:
  assumes "hbs_wf hbs" "node_wf st"
  shows "res_ok node_wf (join_ring hbs st)"
proof -
  have "node_wf (st\<lparr>rt := init_routing (rt st), connection_state := CONNECTING,
                   awaiting_succ := True, awaiting_pred := True,
                   reg := (reg st)\<lparr>pred_conn := None, outbound_chord_conn := None, new_node_conn := None\<rparr>\<rparr>)"
    using assms(2) by (simp add: node_wf_def reg_wf_def ptr_in_def table_dims_init_routing)
  then show ?thesis using assms(1) unfolding join_ring_def Let_def
    by (auto intro!: wf_steps simp: ptr_in_def split: option.splits)
qed

lemma create_outbound_chord_wf [wf_steps]:
  "hbs_wf hbs \<Longrightarrow> node_wf st \<Longrightarrow> res_ok node_wf (create_outbound_chord hbs n st)"
  unfolding create_outbound_chord_def Let_def
  by (auto intro!: wf_steps split: option.splits)

section \<open>The handlers of ring.c\<close>

lemma node_wf_set_node_id [wf_steps]: "node_wf st \<Longrightarrow> node_wf (set_node_id k i st)"
  by (simp add: set_node_id_def node_wf_def reg_wf_def nth_list_update_any)

lemma node_wf_close_st [wf_steps]: "node_wf st \<Longrightarrow> node_wf (close_st c st)"
  by (simp add: close_st_def node_wf_def reg_wf_close_connection)

lemma node_wf_ptrs:
  assumes "node_wf st"
  shows "ptr_in (new_node_conn (reg st))" "ptr_in (pred_conn (reg st))" "ptr_in (succ_conn (reg st))"
    "ptr_in (outbound_chord_conn (reg st))"
  using assms by (simp_all add: node_wf_def reg_wf_def)

lemma node_wf_ptr_bound:
  "new_node_conn (reg st) = Some k \<Longrightarrow> node_wf st \<Longrightarrow> k < MAX_CONNECTIONS"
  "pred_conn (reg st) = Some k \<Longrightarrow> node_wf st \<Longrightarrow> k < MAX_CONNECTIONS"
  "succ_conn (reg st) = Some k \<Longrightarrow> node_wf st \<Longrightarrow> k < MAX_CONNECTIONS"
  "outbound_chord_conn (reg st) = Some k \<Longrightarrow> node_wf st \<Longrightarrow> k < MAX_CONNECTIONS"
  by (auto simp: node_wf_def reg_wf_def ptr_in_def)

lemma ptr_in_new: "new_node_conn (reg st) = Some k \<Longrightarrow> node_wf st \<Longrightarrow> ptr_in (Some k)"
  by (auto simp: ptr_in_def node_wf_def reg_wf_def)

lemma route_with_path_wf:
  "hbs_wf hbs \<Longrightarrow> node_wf st \<Longrightarrow> handle_route_with_path hbs msg conn st = Some r \<Longrightarrow> res_ok node_wf r"
  unfolding handle_route_with_path_def
  by (auto intro!: wf_steps simp: ub_null_def split: list.splits scan_val.splits option.splits sum.splits if_splits)

lemma route_without_path_wf:
  "hbs_wf hbs \<Longrightarrow> node_wf st \<Longrightarrow> handle_route_without_path hbs msg conn st = Some r \<Longrightarrow> res_ok node_wf r"
  unfolding handle_route_without_path_def
  by (auto intro!: wf_steps simp: ub_null_def split: list.splits scan_val.splits option.splits if_splits)

lemma handle_chat_wf:
  "hbs_wf hbs \<Longrightarrow> node_wf st \<Longrightarrow> handle_chat hbs msg st = Some r \<Longrightarrow> res_ok node_wf r"
  unfolding handle_chat_def Let_def
  by (auto intro!: wf_steps simp: split: list.splits scan_val.splits if_splits)

lemma any_or_warn_wf [wf_steps]:
  "hbs_wf hbs \<Longrightarrow> node_wf st \<Longrightarrow> res_ok node_wf (any_or_warn hbs msg conn st)"
  unfolding any_or_warn_def handle_message_from_any_node_def
  by (auto dest: route_with_path_wf route_without_path_wf handle_chat_wf split: option.splits)

lemma handle_succ_line_wf:
  "node_wf st \<Longrightarrow> handle_succ_line msg st = Some r \<Longrightarrow> res_ok node_wf r"
  unfolding handle_succ_line_def Let_def
  by (auto intro!: wf_steps split: list.splits scan_val.splits if_splits)

lemma entry_from_succ_wf:
  "hbs_wf hbs \<Longrightarrow> node_wf st \<Longrightarrow> handle_entry_from_succ hbs msg st = Some r \<Longrightarrow> res_ok node_wf r"
  unfolding handle_entry_from_succ_def Let_def
  by (auto intro!: wf_steps simp: ub_null_def node_wf_ptrs split: list.splits scan_val.splits option.splits if_splits)

lemma message_from_succ_wf [wf_steps]:
  "hbs_wf hbs \<Longrightarrow> node_wf st \<Longrightarrow> res_ok node_wf (handle_message_from_succ hbs msg st)"
  unfolding handle_message_from_succ_def
  by (auto intro: any_or_warn_wf dest: handle_succ_line_wf entry_from_succ_wf split: option.splits)

lemma message_from_pred_wf [wf_steps]:
  "hbs_wf hbs \<Longrightarrow> node_wf st \<Longrightarrow> res_ok node_wf (handle_message_from_pred hbs msg st)"
  unfolding handle_message_from_pred_def
  by (auto intro!: wf_steps)

lemma entry_when_alone_wf [wf_steps]:
  "hbs_wf hbs \<Longrightarrow> node_wf st \<Longrightarrow> res_ok node_wf (entry_when_alone hbs k i ip port st)"
  unfolding entry_when_alone_def Let_def
  by (auto intro!: wf_steps simp: node_wf_ptrs split: option.splits)

lemma entry_when_connected_wf [wf_steps]:
  "hbs_wf hbs \<Longrightarrow> node_wf st \<Longrightarrow> res_ok node_wf (entry_when_connected hbs k i ip port st)"
  unfolding entry_when_connected_def Let_def
  by (auto intro!: wf_steps simp: node_wf_ptrs ub_null_def split: option.splits)

lemma find_connection_by_node_id_in: "reg_wf r \<Longrightarrow> ptr_in (find_connection_by_node_id n r)"
  by (auto simp: find_connection_by_node_id_def ptr_in_def reg_wf_def split: option.splits)

lemma find_connection_by_socket_in: "reg_wf r \<Longrightarrow> ptr_in (find_connection_by_socket s r)"
  by (auto simp: find_connection_by_socket_def ptr_in_def reg_wf_def split: option.splits)

lemma new_entry_wf:
  "hbs_wf hbs \<Longrightarrow> node_wf st \<Longrightarrow> handle_new_entry hbs msg st = Some r \<Longrightarrow> res_ok node_wf r"
  unfolding handle_new_entry_def
  by (auto intro!: wf_steps simp: ub_null_def split: list.splits scan_val.splits option.splits if_splits)

lemma new_pred_wf:
  "hbs_wf hbs \<Longrightarrow> node_wf st \<Longrightarrow> handle_new_pred hbs msg st = Some r \<Longrightarrow> res_ok node_wf r"
  unfolding handle_new_pred_def Let_def
  by (auto intro!: wf_steps simp: ub_null_def split: list.splits scan_val.splits option.splits if_splits)
     (blast intro: ptr_in_new node_wf_close_st)+

lemma new_chord_wf:
  "hbs_wf hbs \<Longrightarrow> node_wf st \<Longrightarrow> handle_new_chord hbs msg st = Some r \<Longrightarrow> res_ok node_wf r"
  unfolding handle_new_chord_def
  by (auto intro!: wf_steps simp: ub_null_def split: list.splits scan_val.splits option.splits if_splits)

lemma message_from_new_node_wf [wf_steps]:
  "hbs_wf hbs \<Longrightarrow> node_wf st \<Longrightarrow> res_ok node_wf (handle_message_from_new_node hbs msg st)"
  unfolding handle_message_from_new_node_def
  by (auto dest: new_entry_wf new_pred_wf new_chord_wf split: option.splits)

lemma broken_succ_socket_wf [wf_steps]:
  "hbs_wf hbs \<Longrightarrow> node_wf st \<Longrightarrow> res_ok node_wf (handle_broken_succ_socket hbs st)"
  unfolding handle_broken_succ_socket_def Let_def
  by (auto intro!: wf_steps split: option.splits)

lemma broken_pred_socket_wf [wf_steps]:
  "hbs_wf hbs \<Longrightarrow> node_wf st \<Longrightarrow> res_ok node_wf (handle_broken_pred_socket hbs st)"
  unfolding handle_broken_pred_socket_def Let_def
  by (auto intro!: wf_steps simp: ub_null_def split: option.splits)

lemma broken_socket_body_wf [wf_steps]:
  "hbs_wf hbs \<Longrightarrow> node_wf st \<Longrightarrow> res_ok node_wf (handle_broken_socket_body hbs s st)"
  unfolding handle_broken_socket_body_def Let_def
  by (auto intro!: wf_steps simp: ub_null_def split: option.splits)

text \<open>The knot: every bound on the nesting gives a handler that keeps the
  shape, by induction on the bound.\<close>

lemma handle_broken_socket_wf [wf_steps]: "hbs_wf (handle_broken_socket n)"
proof (induction n)
  case 0
  then show ?case by (simp add: hbs_wf_def keeps_wf_def)
next
  case (Suc n)
  then show ?case by (simp add: hbs_wf_def keeps_wf_def broken_socket_body_wf)
qed

lemma handle_message_wf [wf_steps]:
  "hbs_wf hbs \<Longrightarrow> node_wf st \<Longrightarrow> res_ok node_wf (handle_message hbs s msg st)"
  unfolding handle_message_def Let_def
  by (auto intro!: wf_steps simp: ub_null_def split: option.splits)

lemma node_wf_pred_timeout [wf_steps]: "node_wf st \<Longrightarrow> node_wf (pred_timeout st)"
  by (simp add: pred_timeout_def node_wf_leave_ring)

section \<open>The directory client and the commands\<close>

lemma node_wf_parts: "node_wf st \<Longrightarrow> table_dims (rt st)" "node_wf st \<Longrightarrow> reg_wf (reg st)"
  by (simp_all add: node_wf_def)

lemma node_wf_set_rt [wf_steps]: "node_wf st \<Longrightarrow> table_dims t \<Longrightarrow> node_wf (st\<lparr>rt := t\<rparr>)"
  by (simp add: node_wf_def)

lemma node_wf_join_with_list [wf_steps]: "node_wf st \<Longrightarrow> node_wf (join_with_list st)"
  unfolding join_with_list_def Let_def
  by (simp add: node_wf_set_rt table_dims_init_routing node_wf_on_join_end node_wf_parts)

lemma request_node_list_wf [wf_steps]: "node_wf st \<Longrightarrow> res_ok node_wf (request_node_list st)"
  unfolding request_node_list_def next_ns_reply_def Let_def
  by (auto intro!: wf_steps res_ok_bind_any split: list.splits option.splits)

lemma handle_selection_wf [wf_steps]:
  "hbs_wf hbs \<Longrightarrow> node_wf st \<Longrightarrow> res_ok node_wf (handle_selection hbs input st)"
  unfolding handle_selection_def Let_def
  by (auto intro!: wf_steps split: option.splits)

lemma node_wf_case_list [wf_steps]:
  "node_wf a \<Longrightarrow> (\<And>x xs. node_wf (f x xs)) \<Longrightarrow> node_wf (case vs of [] \<Rightarrow> a | x # xs \<Rightarrow> f x xs)"
  by (cases vs) simp_all

lemma node_wf_case_scan_val [wf_steps]:
  "(\<And>i. node_wf (f i)) \<Longrightarrow> (\<And>s. node_wf (g s)) \<Longrightarrow> (\<And>p. node_wf (h p)) \<Longrightarrow>
   node_wf (case v of V_int i \<Rightarrow> f i | V_str s \<Rightarrow> g s | V_pos p \<Rightarrow> h p)"
  by (cases v) simp_all

lemma cmd_join_wf [wf_steps]: "node_wf st \<Longrightarrow> res_ok node_wf (cmd_join input st)"
  unfolding cmd_join_def Let_def
  by (auto intro!: wf_steps)

lemma res_ok_Let_any: "(\<And>y. res_ok Q (f y)) \<Longrightarrow> res_ok Q (Let x f)"
  by simp

lemma res_ok_Let_wf: "node_wf x \<Longrightarrow> (\<And>y. node_wf y \<Longrightarrow> res_ok Q (f y)) \<Longrightarrow> res_ok Q (Let x f)"
  by simp

lemma cmd_direct_join_wf [wf_steps]:
  "hbs_wf hbs \<Longrightarrow> node_wf st \<Longrightarrow> res_ok node_wf (cmd_direct_join hbs input st)"
  unfolding cmd_direct_join_def
  apply (rule res_ok_Let_any)
  apply (rule res_ok_Let_wf, auto intro!: node_wf_case_list node_wf_case_scan_val)+
  apply (auto intro!: wf_steps)
  done
lemma cmd_remove_chord_wf [wf_steps]:
  "hbs_wf hbs \<Longrightarrow> node_wf st \<Longrightarrow> res_ok node_wf (cmd_remove_chord hbs st)"
  unfolding cmd_remove_chord_def Let_def
  by (auto intro!: wf_steps split: option.splits)

lemma cmd_show_routing_wf [wf_steps]: "node_wf st \<Longrightarrow> res_ok node_wf (cmd_show_routing input st)"
  unfolding cmd_show_routing_def
  by (auto intro!: res_ok_bind_any split: list.splits scan_val.splits)

lemma cmd_show_path_wf [wf_steps]: "node_wf st \<Longrightarrow> res_ok node_wf (cmd_show_path input st)"
  unfolding cmd_show_path_def Let_def
  by (auto intro!: res_ok_bind_any split: list.splits scan_val.splits)

lemma cmd_message_wf [wf_steps]:
  "hbs_wf hbs \<Longrightarrow> node_wf st \<Longrightarrow> res_ok node_wf (cmd_message hbs input st)"
  unfolding cmd_message_def Let_def
  by (auto intro!: wf_steps split: list.splits scan_val.splits)

lemma handle_user_input_wf [wf_steps]:
  "hbs_wf hbs \<Longrightarrow> node_wf st \<Longrightarrow> res_ok node_wf (handle_user_input hbs input st)"
  unfolding handle_user_input_def cmd_chord_def
  by (simp add: handle_selection_wf cmd_join_wf cmd_direct_join_wf cmd_remove_chord_wf cmd_show_routing_wf
                cmd_show_path_wf cmd_message_wf request_node_list_wf node_wf_leave_ring)

section \<open>The event loop\<close>

lemma run_lines_wf [wf_steps]:
  "(\<And>l st. node_wf st \<Longrightarrow> res_ok node_wf (h l st)) \<Longrightarrow> node_wf st \<Longrightarrow> res_ok node_wf (run_lines h ls st)"
  by (induction ls arbitrary: st) (auto intro!: res_ok_bind_wf)

lemma node_wf_timer_step [wf_steps]: "node_wf st \<Longrightarrow> node_wf (timer_step st)"
  by (auto simp: timer_step_def node_wf_pred_timeout split: option.splits timer.splits)

lemma stdin_step_wf [wf_steps]:
  assumes "node_wf st" "read_fits USER_COMMAND_BUF_SIZE r (stdin_buf st)"
  shows "res_ok node_wf (stdin_step fuel r st)"
proof -
  obtain res lb ls where rl: "read_lines USER_COMMAND_BUF_SIZE r (stdin_buf st) = (res, lb, ls)"
    by (metis prod_cases3)
  have "stdin_wf lb"
    using read_lines_shape [OF _ _ assms(2) rl] assms(1) by (simp add: node_wf_def stdin_wf_def)
  then have "node_wf st1 \<Longrightarrow> node_wf (st1\<lparr>stdin_buf := lb\<rparr>)" for st1 by (simp add: node_wf_def)
  then show ?thesis using assms(1) unfolding stdin_step_def rl
    by (auto intro!: res_ok_bind_wf run_lines_wf handle_user_input_wf handle_broken_socket_wf simp: Let_def)
qed

lemma accept_step_wf [wf_steps]: "node_wf st \<Longrightarrow> res_ok node_wf (accept_step s ip st)"
  unfolding accept_step_def
  by (auto intro!: res_ok_bind [OF reg_wf_add_connection] simp: node_wf_def reg_wf_def ptr_in_def nth_list_update_any)

lemma peer_step_wf [wf_steps]:
  assumes "node_wf st" "i < MAX_CONNECTIONS" "read_fits MAX_NODE_MESSAGE_SIZE r (conn_buffer (connections (reg st) ! i))"
  shows "res_ok node_wf (peer_step fuel i r st)"
proof -
  let ?c = "conn_buffer (connections (reg st) ! i)"
  have c: "length (buffer ?c) = MAX_NODE_MESSAGE_SIZE" "buffer_index ?c < MAX_NODE_MESSAGE_SIZE"
    using assms(1,2) by (simp_all add: node_wf_def reg_wf_def conn_wf_def conn_buffer_def)
  have st: "node_wf st1 \<Longrightarrow> length (buffer lb) = MAX_NODE_MESSAGE_SIZE \<Longrightarrow> buffer_index lb < MAX_NODE_MESSAGE_SIZE \<Longrightarrow>
            node_wf (store_buffer i lb st1)" for st1 lb
    by (simp add: store_buffer_def node_wf_def reg_wf_def conn_wf_def nth_list_update_any)
  have hb: "node_wf x \<Longrightarrow> res_ok node_wf (handle_broken_socket fuel s x)" for s x
    by (rule hbs_wfD [OF handle_broken_socket_wf])
  show ?thesis
  proof (cases "read_scan r ?c")
    case Scan_failed
    then show ?thesis using assms(1) unfolding peer_step_def Let_def by (auto intro: hb)
  next
    case Scan_end
    have "node_wf (store_buffer i (?c\<lparr>buffer_index := 0\<rparr>) st)" using c assms(1) by (intro st) simp_all
    then show ?thesis using assms(1) unfolding peer_step_def Let_def Scan_end by (auto intro: hb)
  next
    case (Scanned n start b ls)
    have "length b = MAX_NODE_MESSAGE_SIZE" using read_scan_shape [OF c assms(3) Scanned] by simp
    then have f: "read_finish MAX_NODE_MESSAGE_SIZE j n start b = Inr (res, lb) \<Longrightarrow>
                  length (buffer lb) = MAX_NODE_MESSAGE_SIZE \<and> buffer_index lb < MAX_NODE_MESSAGE_SIZE" for j res lb
      by (intro read_finish_shape) simp_all
    have fin: "node_wf st1 \<Longrightarrow>
        res_ok node_wf (err_bind (read_finish MAX_NODE_MESSAGE_SIZE j n start b) (\<lambda>(res, lb). Inr (store_buffer i lb st1)))"
      for st1 j
      by (cases "read_finish MAX_NODE_MESSAGE_SIZE j n start b") (auto intro!: st dest!: f)
    show ?thesis using assms(1) unfolding peer_step_def Let_def Scanned
      by (auto intro!: res_ok_bind_wf run_lines_wf handle_message_wf handle_broken_socket_wf fin)
  qed
qed

lemma step_wf [wf_steps]: "node_wf st \<Longrightarrow> event_ok st ev \<Longrightarrow> res_ok node_wf (step fuel ev st)"
  by (cases ev) (simp_all add: step_def event_ok_def node_wf_timer_step stdin_step_wf accept_step_wf peer_step_wf)

lemma node_wf_initial_state: "node_wf (initial_state ip port brk plan replies)"
  by (simp add: initial_state_def node_wf_def reg_wf_def init_connections_array_def registry_static_def
                connection_static_def conn_wf_def ptr_in_def table_dims_def routing_static_def stdin_wf_def)

section \<open>Every reachable state is well-formed\<close>

text \<open>Claim C1: every state the event loop reaches, with any bound on the
  nesting of broken-socket handling and an environment whose \<^verbatim>\<open>read()\<close>
  calls keep their size argument, has the shape of the C globals: eighteen
  connection slots whose buffers are 256-byte arrays with the index inside,
  role pointers that are NULL or point into the array, routing arrays of their
  declared dimensions, and a 256-byte terminal buffer with its index
  inside.\<close>

theorem reachable_wf: "reachable fuel st \<Longrightarrow> node_wf st"
proof (induction rule: reachable.induct)
  case (start ip port brk plan replies)
  then show ?case by (rule node_wf_initial_state)
next
  case (x_command c ip port brk plan replies st)
  have "res_ok node_wf (handle_user_input (handle_broken_socket fuel) c (initial_state ip port brk plan replies))"
    by (rule handle_user_input_wf [OF handle_broken_socket_wf node_wf_initial_state])
  with x_command show ?case by simp
next
  case (loop_step st ev st')
  have "res_ok node_wf (step fuel ev st)" using loop_step.IH loop_step.hyps(2) by (rule step_wf)
  with loop_step.hyps(3) show ?case by simp
qed

theorem reachable_wf_witness:
  "node_wf ((initial_state ''10.0.0.1'' ''58001'' {} [] [])\<lparr>should_exit := True\<rparr>)"
proof -
  have "reachable 2 ((initial_state ''10.0.0.1'' ''58001'' {} [] [])\<lparr>should_exit := True\<rparr>)"
    by (rule reachable.x_command [where c = "''exit''"])
       (simp add: handle_user_input_def is_command_def compare_command_def to_lower_def is_space_def initial_state_def)
  then show ?thesis by (rule reachable_wf)
qed

end
