(* ===== verification/Scenarios.thy ===== *)
theory Scenarios
  imports EventLoop
begin

text \<open>
  Runs of the event loop from the terminal: the bytes a user types reach
  \<^verbatim>\<open>read_lines\<close> through the standard-input event, are framed into lines,
  and each line is a command of \<^verbatim>\<open>handle_user_input\<close>. These theorems
  compose the reader (\<open>ReadLines\<close>), the command interpreter
  (\<open>Commands\<close>) and the loop (\<open>EventLoop\<close>).
\<close>

section \<open>Lemmas: one typed line\<close>

lemma digit_char_not_NUL: "d < 10 \<Longrightarrow> digit_char d \<noteq> NUL"
  by (auto simp: digit_char_def less_Suc_eq numeral_eq_Suc)

lemma fmt_node_id_chars:
  "0 \<le> n \<Longrightarrow> n \<le> MAX_NODE_ID \<Longrightarrow> NL \<notin> set (fmt_node_id n) \<and> NUL \<notin> set (fmt_node_id n) \<and> length (fmt_node_id n) = 2"
proof -
  assume n: "0 \<le> n" "n \<le> MAX_NODE_ID"
  then have "nat n div 10 < 10" "nat n mod 10 < 10" by simp_all
  then have "digit_char (nat n div 10) \<noteq> NUL" "digit_char (nat n mod 10) \<noteq> NUL"
    by (simp_all add: digit_char_not_NUL)
  then show ?thesis using fmt_node_id_no_NL [OF n] n
    by (auto simp: fmt_node_id_two_digits)
qed

text \<open>A line of at most \<^verbatim>\<open>USER_COMMAND_BUF_SIZE - 1\<close> bytes without NUL
  and newline, typed with its newline into an empty terminal buffer, is
  handled as one command and leaves the buffer empty.\<close>

lemma stdin_one_line:
  assumes "NL \<notin> set l" "NUL \<notin> set l" "length l < USER_COMMAND_BUF_SIZE"
    "buffer_index (stdin_buf st) = 0" "length (buffer (stdin_buf st)) = USER_COMMAND_BUF_SIZE"
    "handle_user_input (handle_broken_socket fuel) l st = Inr st1"
  shows "\<exists>lb. stdin_step fuel (Read_bytes (l @ [NL])) st = Inr (st1\<lparr>stdin_buf := lb\<rparr>) \<and> buffer_index lb = 0"
proof -
  have sl: "split_lines (l @ [NL]) = ([l], [])"
    using split_lines_no_NL [OF assms(1)] by (simp add: split_lines_snoc nl_step_def)
  obtain res lb where rl: "read_lines USER_COMMAND_BUF_SIZE (Read_bytes (l @ [NL])) (stdin_buf st) = (res, lb, [l])"
    and ok: "res = RL_OK" "buffer_index lb = 0"
    using read_lines_framing [of "stdin_buf st" USER_COMMAND_BUF_SIZE "l @ [NL]"] assms(2-5) sl by auto
  show ?thesis using rl ok assms(6) by (auto simp: stdin_step_def)
qed

section \<open>A one-node ring from the terminal\<close>

text \<open>Claim C6: the specification's first scenario (solo ring via direct
  join): a node waiting for a command, whose terminal buffer is empty, that
  reads the line \<^verbatim>\<open>dj n n ip port\<close> in one wakeup, becomes a connected one-node
  ring with \<open>n\<close> as its own, its successor's and its second successor's id, its
  connections and routing tables untouched, the buffer empty again and the
  loop still running.\<close>

theorem solo_ring_from_stdin:
  assumes "input_state st = COMMAND" "\<not> should_exit st"
    "buffer_index (stdin_buf st) = 0" "length (buffer (stdin_buf st)) = USER_COMMAND_BUF_SIZE"
    "0 \<le> n" "n \<le> MAX_NODE_ID" "is_token 15 ip" "is_token 5 port" "NUL \<notin> set ip" "NUL \<notin> set port"
  shows "\<exists>st'. run fuel [[Ev_stdin (Read_bytes (dj_input n n ip port @ [NL]))]] st = Inr st' \<and>
           connection_state st' = CONNECTED \<and> nd_id (self st') = n \<and> nd_id (succ st') = n \<and>
           nd_id (second_succ st') = n \<and> reg st' = reg st \<and> rt st' = rt st \<and>
           buffer_index (stdin_buf st') = 0 \<and> \<not> should_exit st'"
proof -
  let ?l = "dj_input n n ip port"
  have f: "NL \<notin> set (fmt_node_id n) \<and> NUL \<notin> set (fmt_node_id n) \<and> length (fmt_node_id n) = 2"
    using assms(5,6) by (rule fmt_node_id_chars)
  have "NL \<notin> set ip" "NL \<notin> set port" using token_no_NL [OF assms(7)] token_no_NL [OF assms(8)] by auto
  moreover have "length ip \<le> 15" "length port \<le> 5" using assms(7,8) by (simp_all add: is_token_def)
  ultimately have l: "NL \<notin> set ?l" "NUL \<notin> set ?l" "length ?l < USER_COMMAND_BUF_SIZE"
    using f assms(9,10) by (auto simp: dj_input_def)
  obtain lb where s: "stdin_step fuel (Read_bytes (?l @ [NL])) st =
      Inr ((st\<lparr>self := (self st)\<lparr>nd_id := n\<rparr>, succ := (self st)\<lparr>nd_id := n\<rparr>,
                second_succ := (self st)\<lparr>nd_id := n\<rparr>, ring_id_str := [], connection_state := CONNECTED,
                awaiting_pred := False, awaiting_succ := False\<rparr>)\<lparr>stdin_buf := lb\<rparr>)" "buffer_index lb = 0"
    using stdin_one_line [OF l assms(3,4) cmd_direct_join_alone [OF assms(1,5,6,7,8)]] by blast
  show ?thesis using s assms(2) by (simp add: step_def ends_wakeup_def)
qed

theorem solo_ring_from_stdin_witness:
  "\<exists>st'. run 1 [[Ev_stdin (Read_bytes (dj_input 10 10 ''127.0.0.1'' ''5000'' @ [NL]))]]
           (initial_state ''127.0.0.1'' ''5000'' {} [] []) = Inr st' \<and>
         connection_state st' = CONNECTED \<and> nd_id (self st') = 10 \<and> nd_id (succ st') = 10 \<and>
         nd_id (second_succ st') = 10 \<and> reg st' = reg (initial_state ''127.0.0.1'' ''5000'' {} [] []) \<and>
         rt st' = rt (initial_state ''127.0.0.1'' ''5000'' {} [] []) \<and>
         buffer_index (stdin_buf st') = 0 \<and> \<not> should_exit st'"
  by (rule solo_ring_from_stdin) (simp_all add: initial_state_def is_token_def is_space_def)

section \<open>Leaving the loop\<close>

text \<open>Claim C27: the \<^verbatim>\<open>exit\<close> command does not end its own wakeup: the
  loop tests the flag only before \<^verbatim>\<open>select()\<close>, so the events that the
  same wakeup reported after standard input (the directory socket, a new
  connection, every readable peer) are still serviced, on the state in which
  the flag is set and the terminal buffer is empty; only the next wakeup is
  not.\<close>

theorem exit_finishes_wakeup:
  assumes "\<not> should_exit st" "input_state st = COMMAND"
    "buffer_index (stdin_buf st) = 0" "length (buffer (stdin_buf st)) = USER_COMMAND_BUF_SIZE"
  shows "\<exists>lb. buffer_index lb = 0 \<and>
           run fuel [Ev_stdin (Read_bytes (''exit'' @ [NL])) # evs] st =
             wakeup fuel evs (st\<lparr>stdin_buf := lb, should_exit := True\<rparr>)"
proof -
  have "handle_user_input (handle_broken_socket fuel) ''exit'' st = Inr (st\<lparr>should_exit := True\<rparr>)"
    using assms(2) by (simp add: handle_user_input_def is_command_def compare_command_def to_lower_def is_space_def)
  then obtain lb where s: "stdin_step fuel (Read_bytes (''exit'' @ [NL])) st = Inr (st\<lparr>should_exit := True, stdin_buf := lb\<rparr>)"
      "buffer_index lb = 0"
    using stdin_one_line [of "''exit''" st fuel] assms(3,4) by auto
  have "err_bind m (run fuel []) = m" for m :: "error + node_state" by (cases m) simp_all
  then have r: "run fuel [Ev_stdin (Read_bytes (''exit'' @ [NL])) # evs] st =
                  wakeup fuel evs (st\<lparr>should_exit := True, stdin_buf := lb\<rparr>)"
    using s(1) assms(1) by (simp add: step_def ends_wakeup_def)
  have sw: "st\<lparr>should_exit := True, stdin_buf := lb\<rparr> = st\<lparr>stdin_buf := lb, should_exit := True\<rparr>"
    by (cases st) simp
  show ?thesis using r s(2) unfolding sw by blast
qed

theorem exit_finishes_wakeup_witness:
  "\<exists>lb. buffer_index lb = 0 \<and>
     run 1 [[Ev_stdin (Read_bytes (''exit'' @ [NL])), Ev_timer]] (initial_state ''127.0.0.1'' ''5000'' {} [] []) =
       wakeup 1 [Ev_timer] ((initial_state ''127.0.0.1'' ''5000'' {} [] [])\<lparr>stdin_buf := lb, should_exit := True\<rparr>)"
  by (rule exit_finishes_wakeup) (simp_all add: initial_state_def)

text \<open>Claim C28: the loop ends at the end of standard input, from any
  running state: a read that returns no bytes leaves the loop at once (the
  \<^verbatim>\<open>break\<close>), so neither the later events of that wakeup nor any later
  wakeup is serviced, whatever they are.\<close>

theorem end_of_input_stops_loop:
  "\<not> should_exit st \<Longrightarrow>
   run fuel ((Ev_stdin (Read_bytes []) # evs) # ws) st =
     Inr (st\<lparr>stdin_buf := (stdin_buf st)\<lparr>buffer_index := 0\<rparr>, should_exit := True\<rparr>)"
  by (cases ws) (simp_all add: step_def stdin_step_def read_lines_def ends_wakeup_def)

theorem end_of_input_stops_loop_witness:
  "run 1 [[Ev_stdin (Read_bytes []), Ev_timer], [Ev_accept 7 ''10.0.0.9'']]
     (initial_state ''127.0.0.1'' ''5000'' {} [] []) =
   Inr ((initial_state ''127.0.0.1'' ''5000'' {} [] [])\<lparr>stdin_buf := (stdin_buf (initial_state ''127.0.0.1'' ''5000'' {} [] []))\<lparr>buffer_index := 0\<rparr>,
                                                       should_exit := True\<rparr>)"
  using end_of_input_stops_loop [of "initial_state ''127.0.0.1'' ''5000'' {} [] []" 1 "[Ev_timer]" "[[Ev_accept 7 ''10.0.0.9'']]"]
  by (simp add: initial_state_def)

end
