(* ===== verification/Spec2Isabelle.thy ===== *)
theory Spec2Isabelle
  imports Timer BrokenLinks WellFormed Scenarios
begin

text \<open>
  \<^bold>\<open>A verification library for the ring-overlay node of \<^verbatim>\<open>src/\<close>.\<close>

  The program is one single-threaded process. An event loop (\<^verbatim>\<open>main.c\<close>)
  multiplexes the terminal, the directory's UDP socket, a listening socket and
  up to \<^verbatim>\<open>MAX_CONNECTIONS\<close> TCP connections (\<^verbatim>\<open>connections.c\<close>), frames
  each connection's bytes into lines (\<^verbatim>\<open>read-lines.c\<close>) and hands each line
  to the protocol handlers of the ring (\<^verbatim>\<open>ring.c\<close>), which keep the
  predecessor, successor, second successor and chords and feed \<^verbatim>\<open>ROUTE\<close>
  announcements to the distance-vector routing engine (\<^verbatim>\<open>routing.c\<close>).
  Terminal lines are commands (\<^verbatim>\<open>handle_user_input\<close>); a join asks the
  directory for the ring's nodes (\<^verbatim>\<open>node-server.c\<close>).

  \<^bold>\<open>Theories\<close>, leaves first.
  \<^item> \<open>Prelude\<close>: the constants of the headers; \<open>to_signed_char\<close>, a
    \<^verbatim>\<open>signed char\<close> as an 8-bit two's-complement word; the \<open>error\<close> datatype
    (one constructor per \<^verbatim>\<open>error()\<close> exit reached, undefined behaviour, and
    \<open>Fuel_exhausted\<close>); \<open>err_bind\<close>, the sequencing of fallible steps
    (\<open>error + 'a\<close>, \<open>Inl\<close> the exit); \<open>first_index\<close>, the first-match loop.
  \<^item> \<open>Paths\<close>: \<^verbatim>\<open>struct Path\<close> with its whole array, \<open>are_paths_equal\<close>,
    \<open>copy_path\<close>, \<open>path_to_string\<close>, and \<open>parse_path_str\<close>, the
    dash-splitting loop of \<^verbatim>\<open>handle_message_from_any_node\<close>.
  \<^item> \<open>Routing\<close>: the four tables of \<^verbatim>\<open>routing.c\<close> as the record
    \<open>routing\<close>; slot allocation, \<open>update_routing_given_new_path\<close> factored
    as the code's blocks (\<open>incoming_path\<close>, \<open>find_closest_neighbor\<close>,
    \<open>choose_closest\<close>, \<open>update_slot\<close>), the \<^verbatim>\<open>ROUTE\<close> lines, neighbour
    removal and the table dump, as pure functions.
  \<^item> \<open>ReadLines\<close>: \<open>read_lines\<close> on a connection's buffer and index and the
    bytes of one \<^verbatim>\<open>read()\<close>; the handler calls are the returned lines. Its
    two halves \<open>read_scan\<close> (read and scan) and \<open>read_finish\<close> (the tail,
    which reads the index again) serve the peers, whose handlers may reset
    the index in between; \<open>read_lines_halves\<close> shows they compose to
    \<open>read_lines\<close> when it is not changed.
  \<^item> \<open>Connections\<close>: the registry record (slots, the four role pointers as
    slot indices with NULL as \<open>None\<close>, the \<^verbatim>\<open>select()\<close> set) and its
    operations.
  \<^item> \<open>Scan\<close>: the C library's \<^verbatim>\<open>sscanf\<close> for the directives the sources use
    (a format is parsed into directives, the result is the list of values
    assigned, so a handler's \<^verbatim>\<open>== k\<close> test is a match on the list), and the
    protocol lines \<^verbatim>\<open>ring.c\<close> prints.
  \<^item> \<open>RingIO\<close>: the process state \<open>node_state\<close>: the globals of
    \<^verbatim>\<open>ring.c\<close>, \<^verbatim>\<open>main.c\<close> and \<^verbatim>\<open>node-server.c\<close>, the registry, the
    routing tables and the timer, with the environment (sockets whose peer is
    gone, the outcomes of the next \<^verbatim>\<open>connect()\<close> calls, the directory's next
    replies) and the logs of what was written; \<open>initial_state\<close>, the state of
    \<^verbatim>\<open>main()\<close> before its loop; \<open>conn_printf\<close> and the operations that
    write (\<open>send_shortest_paths\<close>, \<open>announce_new_path_io\<close>,
    \<open>remove_routing_neighbor_io\<close>, \<open>forward_message\<close>), \<open>connect_to_node\<close>,
    \<open>leave_ring\<close>, \<open>join_ring\<close>, \<open>on_join_end\<close>, \<open>create_outbound_chord\<close>.
  \<^item> \<open>RingHandlers\<close>: every handler of \<^verbatim>\<open>ring.c\<close>, one definition per
    handler or \<^verbatim>\<open>sscanf\<close> branch, \<open>handle_message\<close> (dispatch by role), the
    broken-link handlers and \<open>handle_broken_socket\<close>.
  \<^item> \<open>NodeServer\<close>: \<open>parse_node_list\<close>, \<open>request_node_list\<close> and the
    choice of a fresh id.
  \<^item> \<open>Commands\<close>: \<open>handle_user_input\<close> and one definition per command.
  \<^item> \<open>EventLoop\<close>: the services of one wakeup of the \<^verbatim>\<open>select()\<close> loop as
    events (expired timer, standard input, accepted connection, readable
    peer), \<open>step\<close>; \<open>wakeup\<close>, the events of one wakeup up to one that
    ends it (\<open>ends_wakeup\<close>: end of standard input, the \<^verbatim>\<open>break\<close>, and a
    failed or refused \<^verbatim>\<open>accept()\<close>, the \<^verbatim>\<open>continue\<close>); \<open>run\<close>, the loop
    over wakeups with the exit flag tested at the top of each; and
    \<open>main_run\<close> (the \<^verbatim>\<open>-x\<close> command, then the loop).
  \<^item> \<open>Timer\<close>: the clock arithmetic of the single-shot timer:
    \<open>arm_instant\<close> and \<open>set_timeout\<close> (the deadline from a clock reading),
    \<open>wait_time\<close> and \<open>select_timeout\<close> (the \<^verbatim>\<open>select()\<close> timeout),
    \<open>deadline_passed\<close> and \<open>timer_wakeup\<close> (the test after
    \<^verbatim>\<open>select()\<close>, whose passing is the \<open>Ev_timer\<close> event). Clock values
    are integers and C's truncating division is \<open>sdiv\<close>.
  \<^item> \<open>WellFormed\<close>: \<open>node_wf\<close>, the shape of the C globals (array
    sizes, buffer indices inside their buffers, role pointers NULL or into the
    connection array, routing dimensions); \<open>event_ok\<close>, the contract of
    \<^verbatim>\<open>read()\<close>; \<open>reachable\<close>, the states \<^verbatim>\<open>main()\<close> reaches; and one
    preservation lemma per operation, collected in \<open>wf_steps\<close> and composed
    through \<open>res_ok\<close> (a property of the value of a fallible step).
  \<^item> \<open>Scenarios\<close>: runs of the loop from the terminal, composing the
    line reader, the command interpreter and the loop: a typed line reaches
    \<^verbatim>\<open>handle_user_input\<close> through \<open>stdin_step\<close> and leaves the buffer
    empty (\<open>stdin_one_line\<close>); how the loop is left.
  \<^item> \<open>BrokenLinks\<close>: the broken-socket handler on a broken environment:
    the writers' results when some live socket fails, the fuel-independence
    of a chord's loss, and the four-node ring \<open>w_state\<close> on which a
    successor's loss re-enters the handler.

  \<^bold>\<open>Effects.\<close> Every operation maps a \<open>node_state\<close> to
  \<open>error + node_state\<close>. A failed write calls \<^verbatim>\<open>handle_broken_socket\<close> before
  the writer continues, and that handler writes in its turn; the operations
  therefore take the broken-socket handler as a parameter, and
  \<open>handle_broken_socket n\<close> ties the knot allowing \<open>n\<close> nested runs, beyond
  which the result is \<open>Inl Fuel_exhausted\<close>. One level is enough for
  every failure whose handling writes only to working sockets
  (\<open>chord_loss_one_level\<close>); a nested run arises only where the handler
  writes to the socket being handled. The event loop passes its
  \<open>fuel\<close> to every step. The handler runs only on a failed write (a socket
  whose peer is gone, or the descriptor \<open>-1\<close> of a closed slot), so the fuel
  bounds cascades of failures only; every other loop of the code is
  a fold or a structural recursion over a fixed array, and the line loop of
  \<open>parse_node_list\<close> terminates by the length of the rest of the reply.

  \<^bold>\<open>What is proved\<close> (the claims are listed in the project manifest).
  \<^item> Types: every reachable state of the loop is well-formed
    (\<open>reachable_wf\<close>): every handler keeps \<open>node_wf\<close> for any
    broken-socket handler that keeps it, and \<open>handle_broken_socket n\<close> keeps
    it for every \<open>n\<close>, by induction on the bound.
  \<^item> Routing: the table invariant (shape, distinct slots, every allocated row
    forwarding along a valid, shortest, loop-free path) is kept by every
    update (\<open>update_routing_preserves_inv\<close>); on the zero tables left by a
    one-node direct join the first foreign \<^verbatim>\<open>ROUTE\<close> exits
    (\<open>update_on_static_tables_fails\<close>).
  \<^item> Paths: printing then parsing a path gives the path the neighbour stores;
    \<open>are_paths_equal\<close> is equality of the abstract paths; a path of hop
    count \<open>h\<close> prints as \<open>3 h + 5\<close> characters and its string reaches the
    parser's disabled length guard exactly when \<open>h \<ge> 15\<close>
    (\<open>path_string_length_overflow\<close>), so the longest stored path prints
    as 50 characters, past the 47 its buffers hold.
  \<^item> Lines: \<open>read_lines\<close> frames a read into an empty buffer exactly, keeps
    its buffer within bounds, and delivers late a line completed by a short
    read after a partial one.
  \<^item> Registry: \<open>add_connection\<close> and \<open>close_connection\<close> against their
    specification and the registry invariant.
  \<^item> Protocol: the \<^verbatim>\<open>ENTRY\<close>, \<^verbatim>\<open>SUCC\<close>, \<^verbatim>\<open>PRED\<close> and
    \<^verbatim>\<open>CHORD\<close> lines are read back by their handlers' formats (the
    \<^verbatim>\<open>ROUTE\<close> path by the path lemmas above); a \<^verbatim>\<open>NODESLIST\<close> reply
    is parsed back into the listed nodes (filtered in chord mode), and is
    undefined behaviour exactly when a line follows sixteen kept nodes
    (\<open>parse_node_list_overflow\<close>); a colliding id is replaced by the
    smallest free one.
  \<^item> Commands and loop: \<^verbatim>\<open>dj n n\<close> makes a one-node ring in any state; a
    refused \<^verbatim>\<open>join\<close> still rewrites the ids; \<^verbatim>\<open>leave\<close> leaves the timer
    armed, and the stale timer tears down the next ring.
  \<^item> Scenarios: the specification's first scenario through the whole
    loop: the bytes \<^verbatim>\<open>dj n n ip port\<close> and a newline read from the terminal
    make a connected one-node ring and leave the loop running
    (\<open>solo_ring_from_stdin\<close>); an \<^verbatim>\<open>exit\<close> command lets the rest of
    its wakeup run (\<open>exit_finishes_wakeup\<close>); end of standard input ends
    the loop at once from any running state, whatever events follow
    (\<open>end_of_input_stops_loop\<close>).
  \<^item> Writes: while no live socket is broken, the writers refine the pure
    routing engine: \<open>remove_routing_neighbor_io\<close> is the pure removal
    followed by the broadcast of its lines (\<open>remove_routing_neighbor_io_refines\<close>,
    stated with \<open>emit\<close>), and \<open>send_shortest_paths\<close> writes exactly the
    lines of the pure dump (\<open>send_shortest_paths_refines\<close>).
  \<^item> Broken links: the loss of a chord is handled without nesting, so its
    outcome does not depend on the fuel (\<open>chord_loss_one_level\<close>); the
    loss of the successor while a chord to the second successor exists
    announces the withdrawn routes on the broken socket itself and re-enters
    the handler on that socket (\<open>succ_loss_reenters_handler\<close>: with one
    level of nesting the handling does not complete). Evaluated with more
    fuel on \<open>w_state\<close>, the nested and the outer run both reconnect and
    the node ends connected without a successor connection; the
    \<open>ring.c\<close> finding of the manifest records it.

  \<^item> Timer: \<^verbatim>\<open>set_timeout(1000, ...)\<close> arms a deadline two seconds
    after the reading (\<open>pred_timer_two_seconds\<close>); the \<^verbatim>\<open>select()\<close>
    timeout can carry \<^verbatim>\<open>tv_usec = 1000000\<close> (\<open>select_timeout_bounds\<close>);
    a \<^verbatim>\<open>select()\<close> that sleeps its whole timeout is followed by the
    handler (\<open>timer_fires_after_wait\<close>).

  \<^bold>\<open>Not modelled.\<close> The system calls themselves (\<^verbatim>\<open>socket\<close>,
  \<^verbatim>\<open>bind\<close>, \<^verbatim>\<open>listen\<close>, \<^verbatim>\<open>select\<close>, \<^verbatim>\<open>clock_gettime\<close>): their outcomes
  are inputs of the model (events, planned connect outcomes, broken sockets,
  directory replies). Option parsing in \<^verbatim>\<open>main()\<close> (the \<^verbatim>\<open>-x\<close>
  command it yields is the argument of \<open>main_run\<close>); the directory's \<^verbatim>\<open>OKREG\<close>/\<^verbatim>\<open>OKUNREG\<close> datagrams and
  \<^verbatim>\<open>show topology\<close>, which only print; logging and \<^verbatim>\<open>malloc_f\<close>. In the
  event loop the clock is abstract (the timer fires at an \<open>Ev_timer\<close>
  event); its arithmetic is the separate \<open>Timer\<close> theory, and the handlers
  record only the handler half of \<^verbatim>\<open>set_timeout\<close>. A wakeup's events
  are a list, not the \<^verbatim>\<open>FD_ISSET\<close> snapshot of one \<^verbatim>\<open>select()\<close>, which
  only widens the runs considered. The fixed stack buffers \<^verbatim>\<open>path_str\<close>
  and \<^verbatim>\<open>route_msg\<close> are not modelled as arrays: the model returns the
  whole line, and the length theorem of \<open>Paths\<close> states when it does
  not fit. The bytes
  \<^verbatim>\<open>sscanf\<close> may read past the end of an unterminated UDP reply are not
  modelled.
\<close>

end
